theory Spec2Isabelle
  imports Main "HOL-Library.Word" "HOL-Library.AList" "HOL-Library.Sublist"
begin

section \<open>JavaScript values used by the export script\<close>

text \<open>
  A JavaScript string is a sequence of UTF-16 code units.  String literals of the
  script are written \<open>js ''...''\<close>.
\<close>

type_synonym jsstring = "16 word list"

definition js :: "string \<Rightarrow> jsstring" where
  "js s = map of_char s"

text \<open>
  Truthiness of an optional string property (\<open>None\<close> is \<open>undefined\<close>): the tests
  \<open>if (r.name)\<close>, \<open>if (membership.role)\<close>, \<open>if (!userId)\<close>, \<open>if (!teamId)\<close> and
  \<open>if (u.sys?.id)\<close> all fail on \<open>undefined\<close> and on the empty string.
\<close>

fun truthy :: "jsstring option \<Rightarrow> bool" where
  "truthy None = False"
| "truthy (Some s) = (s \<noteq> [])"

text \<open>\<open>x || ""\<close> on an optional string.\<close>

fun or_empty :: "jsstring option \<Rightarrow> jsstring" where
  "or_empty None = []"
| "or_empty (Some s) = s"

text \<open>
  \<open>String.prototype.trim\<close>: removes leading and trailing white space and line
  terminators.  These are the code units listed by ECMAScript (WhiteSpace and
  LineTerminator); all of them lie in the basic plane, so trimming by code unit is
  exact.
\<close>

definition is_white_space :: "16 word \<Rightarrow> bool" where
  "is_white_space c \<longleftrightarrow>
     c \<in> set [0x0009, 0x000A, 0x000B, 0x000C, 0x000D, 0x0020, 0x00A0, 0x1680,
              0x2000, 0x2001, 0x2002, 0x2003, 0x2004, 0x2005, 0x2006, 0x2007,
              0x2008, 0x2009, 0x200A, 0x2028, 0x2029, 0x202F, 0x205F, 0x3000,
              0xFEFF]"

definition trim :: "jsstring \<Rightarrow> jsstring" where
  "trim s = rev (dropWhile is_white_space (rev (dropWhile is_white_space s)))"

text \<open>
  \<open>[...new Set(xs)]\<close>: the set is filled element by element, an element already in
  the set is ignored, and spreading lists the elements in insertion order.
\<close>

fun Set_add_all :: "'a list \<Rightarrow> 'a list \<Rightarrow> 'a list" where
  "Set_add_all seen [] = seen"
| "Set_add_all seen (x # xs) =
     Set_add_all (if x \<in> set seen then seen else seen @ [x]) xs"

definition Set_spread :: "'a list \<Rightarrow> 'a list" where
  "Set_spread xs = Set_add_all [] xs"

text \<open>\<open>Array.prototype.join\<close> on an array of strings.\<close>

fun join :: "jsstring \<Rightarrow> jsstring list \<Rightarrow> jsstring" where
  "join sep [] = []"
| "join sep [x] = x"
| "join sep (x # y # ys) = x @ sep @ join sep (y # ys)"

section \<open>The data read from the management API\<close>

text \<open>
  One entry of \<open>membership.roles\<close>; only its \<open>name\<close> property is read.
\<close>

datatype role_entry = RoleEntry (entry_name: "jsstring option")

text \<open>
  An item of a page (a membership or a team).  The script reads these properties and
  no others:
  \<^item> \<open>sys_id\<close> is \<open>item.sys?.id\<close> (the team identifier),
  \<^item> \<open>sys_user_sys_id\<close> is \<open>item.sys?.user?.sys?.id\<close> (the user identifier),
  \<^item> \<open>item_name\<close> is \<open>item.name\<close> (the team name),
  \<^item> \<open>admin\<close> is the truthiness of \<open>item.admin\<close>,
  \<^item> \<open>roles\<close> is \<open>item.roles\<close> when it is an array, \<open>None\<close> otherwise,
  \<^item> \<open>role\<close> is \<open>item.role\<close>.
\<close>

record item =
  sys_id :: "jsstring option"
  sys_user_sys_id :: "jsstring option"
  item_name :: "jsstring option"
  admin :: bool
  roles :: "role_entry list option"
  role :: "jsstring option"

text \<open>An entry of \<open>includes.User\<close>.\<close>

record user =
  user_sys_id :: "jsstring option"
  user_email :: "jsstring option"
  firstName :: "jsstring option"
  lastName :: "jsstring option"

section \<open>Role-name extraction\<close>

text \<open>The body of the \<open>forEach\<close> over \<open>membership.roles\<close>.\<close>

definition push_role_name :: "jsstring list \<Rightarrow> role_entry \<Rightarrow> jsstring list" where
  "push_role_name results r =
     (if truthy (entry_name r) then results @ [or_empty (entry_name r)] else results)"

definition getRoleNames :: "item \<Rightarrow> jsstring list" where
  "getRoleNames membership =
     (let results0 = [];
          results1 = (if admin membership then results0 @ [js ''Admin''] else results0);
          results2 = (case roles membership of
                        None \<Rightarrow> results1
                      | Some rs \<Rightarrow>
                          if length rs \<noteq> 0 then foldl push_role_name results1 rs
                          else results1);
          results3 = (if truthy (role membership)
                      then results2 @ [or_empty (role membership)] else results2)
      in Set_spread results3)"

text \<open>
  The specification's wording, for comparison: the three sources in their fixed order
  (the admin label, the names of the array entries, the legacy role), and the
  collapsing of duplicates to their first occurrence.
\<close>

definition spec_role_sources :: "item \<Rightarrow> jsstring list" where
  "spec_role_sources membership =
     (if admin membership then [js ''Admin''] else []) @
     concat (map (\<lambda>r. if truthy (entry_name r) then [or_empty (entry_name r)] else [])
                 (case roles membership of None \<Rightarrow> [] | Some rs \<Rightarrow> rs)) @
     (if truthy (role membership) then [or_empty (role membership)] else [])"

fun collapse_duplicates :: "'a list \<Rightarrow> 'a list" where
  "collapse_duplicates [] = []"
| "collapse_duplicates (x # xs) = x # collapse_duplicates (filter (\<lambda>y. y \<noteq> x) xs)"

section \<open>The derived display name\<close>

text \<open>
  \<open>`${userObj?.firstName || ""} ${userObj?.lastName || ""}`.trim()\<close> and
  \<open>userObj?.email || ""\<close>, where \<open>userObj\<close> is the result of \<open>Map.get\<close>.
\<close>

definition display_name :: "user option \<Rightarrow> jsstring" where
  "display_name userObj =
     trim (or_empty (case userObj of None \<Rightarrow> None | Some u \<Rightarrow> firstName u) @ js '' '' @
           or_empty (case userObj of None \<Rightarrow> None | Some u \<Rightarrow> lastName u))"

definition email_of :: "user option \<Rightarrow> jsstring" where
  "email_of userObj = or_empty (case userObj of None \<Rightarrow> None | Some u \<Rightarrow> user_email u)"

section \<open>Plain objects used as dictionaries\<close>

text \<open>
  \<open>userMap\<close> and \<open>userToTeams\<close> are object literals \<open>{}\<close> indexed by user
  identifier.  Such an object is modelled by its own properties in creation order.  A
  read \<open>obj[k]\<close> finds an own property, or else a property inherited from
  \<open>Object.prototype\<close> (a function, or the prototype itself for \<open>__proto__\<close>: a truthy
  value without the fields of a record), or else \<open>undefined\<close>.
\<close>

definition Object_prototype_names :: "jsstring list" where
  "Object_prototype_names =
     map js [''constructor'', ''__defineGetter__'', ''__defineSetter__'', ''hasOwnProperty'',
             ''__lookupGetter__'', ''__lookupSetter__'', ''isPrototypeOf'',
             ''propertyIsEnumerable'', ''toString'', ''valueOf'', ''__proto__'',
             ''toLocaleString'']"

datatype 'a property = Own 'a | Inherited | Undefined

definition get_prop :: "(jsstring \<times> 'a) list \<Rightarrow> jsstring \<Rightarrow> 'a property" where
  "get_prop obj k =
     (case map_of obj k of
        Some v \<Rightarrow> Own v
      | None \<Rightarrow> if k \<in> set Object_prototype_names then Inherited else Undefined)"

text \<open>
  \<open>obj[k] = v\<close>: an existing own property keeps its place, a new one is added last.
  The script assigns only after a read that was \<open>undefined\<close> or an own property.
\<close>

definition set_prop :: "(jsstring \<times> 'a) list \<Rightarrow> jsstring \<Rightarrow> 'a \<Rightarrow> (jsstring \<times> 'a) list" where
  "set_prop obj k v = AList.update k v obj"

text \<open>
  The order of \<open>Object.values\<close> and \<open>Object.entries\<close>: first the keys that are array
  indices (canonical decimal numerals below \<open>2^32 - 1 = 4294967295\<close>) in ascending numeric order,
  then the other keys in creation order.
\<close>

definition is_digit :: "16 word \<Rightarrow> bool" where
  "is_digit c \<longleftrightarrow> 0x30 \<le> c \<and> c \<le> 0x39"

definition digits_value :: "jsstring \<Rightarrow> int" where
  "digits_value k = foldl (\<lambda>n c. 10 * n + (uint c - 48)) 0 k"

definition array_index :: "jsstring \<Rightarrow> int option" where
  "array_index k =
     (if k \<noteq> [] \<and> list_all is_digit k \<and> (length k = 1 \<or> hd k \<noteq> 0x30) \<and>
         digits_value k < 4294967295
      then Some (digits_value k) else None)"

definition index_key :: "jsstring \<times> 'a \<Rightarrow> int" where
  "index_key p = (case array_index (fst p) of None \<Rightarrow> 0 | Some n \<Rightarrow> n)"

definition Object_entries :: "(jsstring \<times> 'a) list \<Rightarrow> (jsstring \<times> 'a) list" where
  "Object_entries obj =
     sort_key index_key (filter (\<lambda>p. array_index (fst p) \<noteq> None) obj) @
     filter (\<lambda>p. array_index (fst p) = None) obj"

definition Object_values :: "(jsstring \<times> 'a) list \<Rightarrow> 'a list" where
  "Object_values obj = map snd (Object_entries obj)"

section \<open>The environment: configuration, HTTP, library calls, and what a run does\<close>

record config =
  MANAGEMENT_API_KEY :: jsstring
  ORGANIZATION_ID :: jsstring

definition BASE_URL :: jsstring where
  "BASE_URL = js ''https://api.contentful.com''"

text \<open>The request sent by \<open>axios.get\<close>: the URL, the header and the three parameters.\<close>

record request =
  url :: jsstring
  Authorization :: jsstring
  limit :: nat
  skip :: nat
  include_param :: jsstring

text \<open>
  \<open>resp.data\<close>: \<open>items\<close> and \<open>total\<close> may be missing (the destructuring defaults
  apply); \<open>includes_User\<close> is \<open>includes.User\<close> when \<open>includes\<close> is there and its
  \<open>User\<close> is an array.
\<close>

record page =
  items :: "item list option"
  total :: "int option"
  includes_User :: "user list option"

text \<open>A response is a page, or a failure of the request with its \<open>err.message\<close>.\<close>

type_synonym response = "jsstring + page"

datatype error = TypeError | Parser_error jsstring | Fs_error jsstring

text \<open>What a run does to the outside, in order.\<close>

datatype event =
    Get request
  | Error_fetching jsstring jsstring
  | Script_error error
  | Console_log jsstring
  | Write_file jsstring jsstring

text \<open>
  The remote API answers each request; \<open>json2csv\<close> is the \<open>parse\<close> method of the
  \<open>Parser\<close> built with the given \<open>fields\<close>; \<open>writeFileSync\<close> tells whether writing
  the named file fails.  The two library calls may throw.
\<close>

record world =
  http :: "request \<Rightarrow> response"
  json2csv :: "string list \<Rightarrow> (string \<times> jsstring) list list \<Rightarrow> error + jsstring"
  writeFileSync :: "jsstring \<Rightarrow> jsstring \<Rightarrow> error option"

section \<open>The paginated fetch\<close>

record fetched =
  allItems :: "item list"
  allUsers :: "jsstring \<rightharpoonup> user"
  events :: "event list"

text \<open>The body of \<open>includes.User.forEach\<close>.\<close>

definition set_user :: "(jsstring \<rightharpoonup> user) \<Rightarrow> user \<Rightarrow> (jsstring \<rightharpoonup> user)" where
  "set_user users u =
     (if truthy (user_sys_id u) then users(or_empty (user_sys_id u) \<mapsto> u) else users)"

text \<open>\<open>items\<close> with its default \<open>[]\<close>, and the \<open>forEach\<close> over \<open>includes.User\<close>.\<close>

definition items_of :: "page \<Rightarrow> item list" where
  "items_of data = (case items data of None \<Rightarrow> [] | Some its \<Rightarrow> its)"

definition add_users :: "(jsstring \<rightharpoonup> user) \<Rightarrow> page \<Rightarrow> (jsstring \<rightharpoonup> user)" where
  "add_users users data =
     (case includes_User data of None \<Rightarrow> users | Some us \<Rightarrow> foldl set_user users us)"

text \<open>The part of the loop body that follows a successful request.\<close>

definition take_page :: "fetched \<Rightarrow> page \<Rightarrow> fetched" where
  "take_page st data =
     st\<lparr>allItems := allItems st @ items_of data,
        allUsers := add_users (allUsers st) data\<rparr>"

definition total_of :: "page \<Rightarrow> int" where
  "total_of data = (case total data of None \<Rightarrow> 0 | Some t \<Rightarrow> t)"

definition page_request :: "config \<Rightarrow> jsstring \<Rightarrow> jsstring \<Rightarrow> nat \<Rightarrow> request" where
  "page_request cfg u includeParams sk =
     \<lparr>url = u, Authorization = js ''Bearer '' @ MANAGEMENT_API_KEY cfg,
      limit = 100, skip = sk, include_param = includeParams\<rparr>"

text \<open>
  The \<open>while (true)\<close> loop.  It need not end (a server may report an ever larger
  total), so the result is optional: \<open>None\<close> is a loop that never returns.
\<close>

partial_function (option) fetch_loop ::
  "config \<Rightarrow> (request \<Rightarrow> response) \<Rightarrow> jsstring \<Rightarrow> jsstring \<Rightarrow> nat \<Rightarrow> fetched \<Rightarrow> fetched option"
where
  "fetch_loop cfg get u includeParams sk st =
     (case get (page_request cfg u includeParams sk) of
        Inl message \<Rightarrow>
          Some (st\<lparr>events := events st @ [Get (page_request cfg u includeParams sk),
                                          Error_fetching u message]\<rparr>)
      | Inr data \<Rightarrow>
          if total_of data \<le> int (sk + 100)
          then Some (take_page (st\<lparr>events := events st @ [Get (page_request cfg u includeParams sk)]\<rparr>) data)
          else fetch_loop cfg get u includeParams (sk + 100)
                 (take_page (st\<lparr>events := events st @ [Get (page_request cfg u includeParams sk)]\<rparr>) data))"

declare fetch_loop.simps [code]

definition fetchPagedDataWithIncludes ::
  "config \<Rightarrow> (request \<Rightarrow> response) \<Rightarrow> jsstring \<Rightarrow> jsstring \<Rightarrow> fetched option" where
  "fetchPagedDataWithIncludes cfg get u includeParams =
     fetch_loop cfg get u includeParams 0 \<lparr>allItems = [], allUsers = Map.empty, events = []\<rparr>"

definition organization_memberships_url :: "config \<Rightarrow> jsstring" where
  "organization_memberships_url cfg =
     BASE_URL @ js ''/organizations/'' @ ORGANIZATION_ID cfg @ js ''/organization_memberships''"

definition fetchOrganizationMemberships :: "config \<Rightarrow> (request \<Rightarrow> response) \<Rightarrow> fetched option" where
  "fetchOrganizationMemberships cfg get =
     fetchPagedDataWithIncludes cfg get (organization_memberships_url cfg) (js ''sys.user'')"

definition space_memberships_url :: "config \<Rightarrow> jsstring" where
  "space_memberships_url cfg =
     BASE_URL @ js ''/organizations/'' @ ORGANIZATION_ID cfg @ js ''/space_memberships''"

definition fetchSpaceMemberships :: "config \<Rightarrow> (request \<Rightarrow> response) \<Rightarrow> fetched option" where
  "fetchSpaceMemberships cfg get =
     fetchPagedDataWithIncludes cfg get (space_memberships_url cfg) (js ''sys.user'')"

section \<open>Runs that may throw or never return\<close>

text \<open>
  A computation of the script returns a value or throws, and leaves a list of events;
  \<open>None\<close> is a computation that never returns.
\<close>

type_synonym 'a run = "((error + 'a) \<times> event list) option"

definition of_result :: "error + 'a \<Rightarrow> 'a run" where
  "of_result r = Some (r, [])"

definition emit :: "event list \<Rightarrow> unit run" where
  "emit evs = Some (Inr (), evs)"

definition await_fetch :: "fetched option \<Rightarrow> fetched run" where
  "await_fetch r = (case r of None \<Rightarrow> None | Some f \<Rightarrow> Some (Inr f, events f))"

definition then_run :: "'a run \<Rightarrow> ('a \<Rightarrow> 'b run) \<Rightarrow> 'b run" where
  "then_run m f =
     (case m of
        None \<Rightarrow> None
      | Some (Inl e, evs) \<Rightarrow> Some (Inl e, evs)
      | Some (Inr a, evs) \<Rightarrow>
          (case f a of None \<Rightarrow> None | Some (r, evs') \<Rightarrow> Some (r, evs @ evs')))"

section \<open>Team memberships\<close>

definition teams_url :: "config \<Rightarrow> jsstring" where
  "teams_url cfg = BASE_URL @ js ''/organizations/'' @ ORGANIZATION_ID cfg @ js ''/teams''"

definition team_memberships_url :: "config \<Rightarrow> jsstring \<Rightarrow> jsstring" where
  "team_memberships_url cfg teamId =
     BASE_URL @ js ''/organizations/'' @ ORGANIZATION_ID cfg @ js ''/teams/'' @ teamId @
     js ''/team_memberships''"

text \<open>
  The body of the inner loop.  A team name is \<open>team.name\<close>, which may be
  \<open>undefined\<close>.  On a key inherited from \<open>Object.prototype\<close> the array is not created
  and \<open>push\<close> is not a function of the value found.
\<close>

definition push_team ::
  "jsstring option \<Rightarrow> (jsstring \<times> jsstring option list) list \<Rightarrow> item \<Rightarrow>
   error + (jsstring \<times> jsstring option list) list" where
  "push_team teamName userToTeams membership =
     (if \<not> truthy (sys_user_sys_id membership) then Inr userToTeams
      else
        let userId = or_empty (sys_user_sys_id membership);
            userToTeams1 = (case get_prop userToTeams userId of
                              Undefined \<Rightarrow> set_prop userToTeams userId []
                            | _ \<Rightarrow> userToTeams)
        in case get_prop userToTeams1 userId of
             Own ts \<Rightarrow> Inr (set_prop userToTeams1 userId (ts @ [teamName]))
           | _ \<Rightarrow> Inl TypeError)"

fun team_members_loop ::
  "jsstring option \<Rightarrow> (jsstring \<times> jsstring option list) list \<Rightarrow> item list \<Rightarrow>
   error + (jsstring \<times> jsstring option list) list" where
  "team_members_loop teamName userToTeams [] = Inr userToTeams"
| "team_members_loop teamName userToTeams (membership # rest) =
     (case push_team teamName userToTeams membership of
        Inl e \<Rightarrow> Inl e
      | Inr userToTeams' \<Rightarrow> team_members_loop teamName userToTeams' rest)"

fun teams_loop ::
  "config \<Rightarrow> (request \<Rightarrow> response) \<Rightarrow> (jsstring \<times> jsstring option list) list \<Rightarrow> item list \<Rightarrow>
   (jsstring \<times> jsstring option list) list run" where
  "teams_loop cfg get userToTeams [] = of_result (Inr userToTeams)"
| "teams_loop cfg get userToTeams (team # rest) =
     (if \<not> truthy (sys_id team) then teams_loop cfg get userToTeams rest
      else
        then_run (await_fetch (fetchPagedDataWithIncludes cfg get
                    (team_memberships_url cfg (or_empty (sys_id team)))
                    (js ''sys.user,sys.organizationMembership'')))
          (\<lambda>f. then_run (of_result (team_members_loop (item_name team) userToTeams (allItems f)))
             (\<lambda>userToTeams'. teams_loop cfg get userToTeams' rest)))"

definition fetchTeamMemberships ::
  "config \<Rightarrow> (request \<Rightarrow> response) \<Rightarrow> (jsstring \<times> jsstring option list) list run" where
  "fetchTeamMemberships cfg get =
     then_run (await_fetch (fetchPagedDataWithIncludes cfg get (teams_url cfg) []))
       (\<lambda>f. teams_loop cfg get [] (allItems f))"

section \<open>Aggregation into unified records\<close>

record unified =
  userId :: jsstring
  email :: jsstring
  name :: jsstring
  orgRoles :: "jsstring list"
  spaceRoles :: "jsstring list"
  teams :: "jsstring option list"

type_synonym userMap = "(jsstring \<times> unified) list"

text \<open>
  The body of the loop over the organization memberships.  When \<open>userMap[userId]\<close>
  is inherited from \<open>Object.prototype\<close> no record is created, its \<open>orgRoles\<close> is
  \<open>undefined\<close>, and spreading it throws.
\<close>

definition merge_org_item :: "(jsstring \<rightharpoonup> user) \<Rightarrow> userMap \<Rightarrow> item \<Rightarrow> error + userMap" where
  "merge_org_item orgUsers userMap membership =
     (if \<not> truthy (sys_user_sys_id membership) then Inr userMap
      else
        let uid = or_empty (sys_user_sys_id membership);
            orgRoleNames = getRoleNames membership;
            userObj = orgUsers uid;
            userMap1 = (case get_prop userMap uid of
                          Undefined \<Rightarrow>
                            set_prop userMap uid
                              \<lparr>userId = uid, email = email_of userObj, name = display_name userObj,
                               orgRoles = [], spaceRoles = [], teams = []\<rparr>
                        | _ \<Rightarrow> userMap)
        in case get_prop userMap1 uid of
             Own u \<Rightarrow>
               Inr (set_prop userMap1 uid (u\<lparr>orgRoles := Set_spread (orgRoles u @ orgRoleNames)\<rparr>))
           | _ \<Rightarrow> Inl TypeError)"

fun org_loop :: "(jsstring \<rightharpoonup> user) \<Rightarrow> userMap \<Rightarrow> item list \<Rightarrow> error + userMap" where
  "org_loop orgUsers userMap [] = Inr userMap"
| "org_loop orgUsers userMap (membership # rest) =
     (case merge_org_item orgUsers userMap membership of
        Inl e \<Rightarrow> Inl e
      | Inr userMap' \<Rightarrow> org_loop orgUsers userMap' rest)"

text \<open>The body of the loop over the space memberships.\<close>

definition merge_space_item :: "(jsstring \<rightharpoonup> user) \<Rightarrow> userMap \<Rightarrow> item \<Rightarrow> error + userMap" where
  "merge_space_item spaceUsers userMap membership =
     (if \<not> truthy (sys_user_sys_id membership) then Inr userMap
      else
        let uid = or_empty (sys_user_sys_id membership);
            spaceRoleNames = getRoleNames membership;
            userObj = spaceUsers uid;
            userMap1 = (case get_prop userMap uid of
                          Undefined \<Rightarrow>
                            set_prop userMap uid
                              \<lparr>userId = uid, email = email_of userObj, name = display_name userObj,
                               orgRoles = [], spaceRoles = [], teams = []\<rparr>
                        | _ \<Rightarrow> userMap)
        in case get_prop userMap1 uid of
             Own u \<Rightarrow>
               Inr (set_prop userMap1 uid
                      (u\<lparr>spaceRoles := Set_spread (spaceRoles u @ spaceRoleNames)\<rparr>))
           | _ \<Rightarrow> Inl TypeError)"

fun space_loop :: "(jsstring \<rightharpoonup> user) \<Rightarrow> userMap \<Rightarrow> item list \<Rightarrow> error + userMap" where
  "space_loop spaceUsers userMap [] = Inr userMap"
| "space_loop spaceUsers userMap (membership # rest) =
     (case merge_space_item spaceUsers userMap membership of
        Inl e \<Rightarrow> Inl e
      | Inr userMap' \<Rightarrow> space_loop spaceUsers userMap' rest)"

text \<open>The body of the loop over \<open>Object.entries(userToTeams)\<close>.\<close>

definition merge_team_entry :: "userMap \<Rightarrow> jsstring \<times> jsstring option list \<Rightarrow> error + userMap" where
  "merge_team_entry userMap entry =
     (let uid = fst entry;
          teamNames = snd entry;
          userMap1 = (case get_prop userMap uid of
                        Undefined \<Rightarrow>
                          set_prop userMap uid
                            \<lparr>userId = uid, email = [], name = [],
                             orgRoles = [], spaceRoles = [], teams = []\<rparr>
                      | _ \<Rightarrow> userMap)
      in case get_prop userMap1 uid of
           Own u \<Rightarrow> Inr (set_prop userMap1 uid (u\<lparr>teams := Set_spread (teams u @ teamNames)\<rparr>))
         | _ \<Rightarrow> Inl TypeError)"

fun team_loop :: "userMap \<Rightarrow> (jsstring \<times> jsstring option list) list \<Rightarrow> error + userMap" where
  "team_loop userMap [] = Inr userMap"
| "team_loop userMap (entry # rest) =
     (case merge_team_entry userMap entry of
        Inl e \<Rightarrow> Inl e
      | Inr userMap' \<Rightarrow> team_loop userMap' rest)"

text \<open>The three passes of the script, up to the final \<open>userMap\<close>.\<close>

definition collect :: "config \<Rightarrow> (request \<Rightarrow> response) \<Rightarrow> userMap run" where
  "collect cfg get =
     then_run (await_fetch (fetchOrganizationMemberships cfg get)) (\<lambda>org.
     then_run (of_result (org_loop (allUsers org) [] (allItems org))) (\<lambda>userMap1.
     then_run (await_fetch (fetchSpaceMemberships cfg get)) (\<lambda>space.
     then_run (of_result (space_loop (allUsers space) userMap1 (allItems space))) (\<lambda>userMap2.
     then_run (fetchTeamMemberships cfg get) (\<lambda>userToTeams.
     of_result (team_loop userMap2 (Object_entries userToTeams)))))))"

section \<open>Serialization and the process\<close>

text \<open>
  An element of \<open>finalData\<close> is an object literal with six properties.  \<open>join\<close>
  renders an \<open>undefined\<close> element (a team without a name) as the empty string.
\<close>

definition final_row :: "unified \<Rightarrow> (string \<times> jsstring) list" where
  "final_row u =
     [(''userId'', userId u),
      (''email'', email u),
      (''name'', name u),
      (''orgRoles'', join (js ''; '') (orgRoles u)),
      (''spaceRoles'', join (js ''; '') (spaceRoles u)),
      (''teams'', join (js ''; '') (map or_empty (teams u)))]"

definition finalData :: "userMap \<Rightarrow> (string \<times> jsstring) list list" where
  "finalData userMap = map final_row (Object_values userMap)"

definition Parser_fields :: "string list" where
  "Parser_fields = [''userId'', ''email'', ''name'', ''orgRoles'', ''spaceRoles'', ''teams'']"

definition write_file :: "world \<Rightarrow> jsstring \<Rightarrow> jsstring \<Rightarrow> unit run" where
  "write_file w file content =
     (case writeFileSync w file content of
        Some e \<Rightarrow> of_result (Inl e)
      | None \<Rightarrow> emit [Write_file file content])"

text \<open>
  The \<open>try\<close> block of the main function, as in
  \<open>fetch-contentful-users-and-groups.js\<close>.  The other version of the script has the
  same block and in addition prints progress lines around each fetch and a last line
  with the file name; its \<open>catch\<close> clause is the same.
\<close>

definition try_block :: "config \<Rightarrow> world \<Rightarrow> unit run" where
  "try_block cfg w =
     then_run (collect cfg (http w)) (\<lambda>userMap.
     then_run (of_result (json2csv w Parser_fields (finalData userMap))) (\<lambda>csv.
     then_run (write_file w (js ''contentful_users.csv'') csv) (\<lambda>_.
     emit [Console_log (js ''Wrote contentful_users.csv with user + role + team data.'')])))"

text \<open>
  The main function is an async function called at once.  Its \<open>catch\<close> clause logs
  the error and neither throws again nor ends the process, so its promise is
  fulfilled on both paths.  The script never calls \<open>process.exit\<close> and never sets
  \<open>process.exitCode\<close>: the exit status is 0 unless a promise is rejected and
  unhandled, in which case Node ends the process with status 1.
\<close>

datatype settled = Fulfilled | Rejected error

definition main :: "config \<Rightarrow> world \<Rightarrow> (settled \<times> event list) option" where
  "main cfg w =
     (case try_block cfg w of
        None \<Rightarrow> None
      | Some (Inr _, evs) \<Rightarrow> Some (Fulfilled, evs)
      | Some (Inl e, evs) \<Rightarrow> Some (Fulfilled, evs @ [Script_error e]))"

fun exit_status :: "settled \<Rightarrow> nat" where
  "exit_status Fulfilled = 0"
| "exit_status (Rejected e) = 1"

record process_end =
  status :: nat
  trace :: "event list"

definition run_script :: "config \<Rightarrow> world \<Rightarrow> process_end option" where
  "run_script cfg w =
     (case main cfg w of
        None \<Rightarrow> None
      | Some (s, evs) \<Rightarrow> Some \<lparr>status = exit_status s, trace = evs\<rparr>)"

section \<open>Notions used to state the properties\<close>

text \<open>
  The common shape of the three loop bodies once the user identifier is known: the
  record found under the identifier, or else a fresh one, is changed by \<open>f\<close> and
  stored; an identifier inherited from \<open>Object.prototype\<close> throws.
\<close>

definition upsert :: "userMap \<Rightarrow> jsstring \<Rightarrow> unified \<Rightarrow> (unified \<Rightarrow> unified) \<Rightarrow> error + userMap" where
  "upsert userMap uid fresh f =
     (case get_prop userMap uid of
        Own u \<Rightarrow> Inr (set_prop userMap uid (f u))
      | Undefined \<Rightarrow> Inr (set_prop userMap uid (f fresh))
      | Inherited \<Rightarrow> Inl TypeError)"

text \<open>One merge step of any of the three passes that does not throw.\<close>

inductive merge_step :: "userMap \<Rightarrow> userMap \<Rightarrow> bool" where
  org_step: "merge_org_item orgUsers userMap membership = Inr userMap' \<Longrightarrow>
             merge_step userMap userMap'"
| space_step: "merge_space_item spaceUsers userMap membership = Inr userMap' \<Longrightarrow>
               merge_step userMap userMap'"
| team_step: "merge_team_entry userMap entry = Inr userMap' \<Longrightarrow>
              merge_step userMap userMap'"

text \<open>No list of a record holds a name twice.\<close>

definition deduplicated :: "unified \<Rightarrow> bool" where
  "deduplicated u \<longleftrightarrow> distinct (orgRoles u) \<and> distinct (spaceRoles u) \<and> distinct (teams u)"

definition sets_deduplicated :: "userMap \<Rightarrow> bool" where
  "sets_deduplicated userMap = list_all (\<lambda>p. deduplicated (snd p)) userMap"

text \<open>
  Every name that was in a list of \<open>u\<close> is in the same list of \<open>u'\<close> at the same
  place: the names met later come after it.
\<close>

definition keeps_order :: "unified \<Rightarrow> unified \<Rightarrow> bool" where
  "keeps_order u u' \<longleftrightarrow>
     prefix (orgRoles u) (orgRoles u') \<and> prefix (spaceRoles u) (spaceRoles u') \<and>
     prefix (teams u) (teams u')"

text \<open>
  The union of two lists of names in the order of first encounter: the names already
  there keep their places, and each name that is new comes after them, where it is
  first met.
\<close>

definition unioned :: "'a list \<Rightarrow> 'a list \<Rightarrow> 'a list" where
  "unioned old new = old @ collapse_duplicates (filter (\<lambda>x. x \<notin> set old) new)"

text \<open>
  The user side-table in the specification's words: the user entries of the
  \<open>includes\<close> blocks of the pages, scanned in order, each under its identifier; an
  entry without identifier is left out and a later entry replaces an earlier one with
  the same identifier.
\<close>

definition included_users :: "page \<Rightarrow> user list" where
  "included_users data = (case includes_User data of None \<Rightarrow> [] | Some us \<Rightarrow> us)"

definition side_table :: "user list \<Rightarrow> (jsstring \<rightharpoonup> user)" where
  "side_table us k =
     (case filter (\<lambda>u. truthy (user_sys_id u) \<and> or_empty (user_sys_id u) = k) us of
        [] \<Rightarrow> None
      | u # rest \<Rightarrow> Some (last (u # rest)))"

text \<open>The user identifiers that a list of membership items resolves to.\<close>

definition user_ids :: "item list \<Rightarrow> jsstring list" where
  "user_ids its =
     map (\<lambda>m. or_empty (sys_user_sys_id m)) (filter (\<lambda>m. truthy (sys_user_sys_id m)) its)"

text \<open>
  The state of the fetch loop that started in \<open>st\<close> at offset \<open>sk\<close> after \<open>k\<close>
  successful requests answered by the pages \<open>pg 0\<close>, ..., \<open>pg (k - 1)\<close>.
\<close>

definition after_pages ::
  "config \<Rightarrow> jsstring \<Rightarrow> jsstring \<Rightarrow> nat \<Rightarrow> (nat \<Rightarrow> page) \<Rightarrow> fetched \<Rightarrow> nat \<Rightarrow> fetched" where
  "after_pages cfg u includeParams sk pg st k =
     foldl (\<lambda>s j. take_page
                     (s\<lparr>events := events s @ [Get (page_request cfg u includeParams (sk + 100 * j))]\<rparr>)
                     (pg j))
           st [0..<k]"

text \<open>
  An example environment: no request succeeds, the parser returns the header line, and
  writing the file has the given outcome.
\<close>

definition example_config :: config where
  "example_config = \<lparr>MANAGEMENT_API_KEY = js ''key'', ORGANIZATION_ID = js ''org''\<rparr>"

definition offline_world :: "error option \<Rightarrow> world" where
  "offline_world write_outcome =
     \<lparr>http = (\<lambda>r. Inl (js ''offline'')),
      json2csv = (\<lambda>fields rows. Inr (js ''userId,email,name,orgRoles,spaceRoles,teams'')),
      writeFileSync = (\<lambda>file content. write_outcome)\<rparr>"

section \<open>Lemmas on the JavaScript primitives\<close>

lemma js_space: "js '' '' = [0x20]"
  by (simp add: js_def)

lemma Set_add_all_set: "set (Set_add_all seen xs) = set seen \<union> set xs"
  by (induction xs arbitrary: seen) auto

lemma Set_add_all_distinct: "distinct seen \<Longrightarrow> distinct (Set_add_all seen xs)"
  by (induction xs arbitrary: seen) auto

lemma Set_add_all_append:
  "Set_add_all seen (xs @ ys) = Set_add_all (Set_add_all seen xs) ys"
  by (induction xs arbitrary: seen) auto

lemma Set_add_all_prefix: "prefix seen (Set_add_all seen xs)"
proof (induction xs arbitrary: seen)
  case Nil
  show ?case by simp
next
  case (Cons x xs)
  have "prefix seen (if x \<in> set seen then seen else seen @ [x])"
    by simp
  also have "prefix \<dots> (Set_add_all (if x \<in> set seen then seen else seen @ [x]) xs)"
    by (rule Cons.IH)
  finally show ?case by simp
qed

lemma Set_add_all_collapse:
  "Set_add_all seen xs = seen @ collapse_duplicates (filter (\<lambda>y. y \<notin> set seen) xs)"
proof (induction "length xs" arbitrary: seen xs rule: less_induct)
  case less
  show ?case
  proof (cases xs)
    case Nil
    then show ?thesis by simp
  next
    case (Cons x rest)
    show ?thesis
    proof (cases "x \<in> set seen")
      case True
      then show ?thesis using less [of rest seen] Cons by simp
    next
      case False
      have "filter (\<lambda>y. y \<notin> set (seen @ [x])) rest =
            filter (\<lambda>y. y \<noteq> x) (filter (\<lambda>y. y \<notin> set seen) rest)"
        by (induction rest) auto
      then show ?thesis using less [of rest "seen @ [x]"] Cons False by simp
    qed
  qed
qed

lemma Set_spread_collapse: "Set_spread xs = collapse_duplicates xs"
  by (simp add: Set_spread_def Set_add_all_collapse)

lemma Set_spread_distinct: "distinct (Set_spread xs)"
  by (simp add: Set_spread_def Set_add_all_distinct)

lemma Set_spread_set: "set (Set_spread xs) = set xs"
  by (simp add: Set_spread_def Set_add_all_set)

lemma Set_spread_of_distinct: "distinct xs \<Longrightarrow> Set_spread xs = xs"
proof (induction xs rule: rev_induct)
  case Nil
  show ?case by (simp add: Set_spread_def)
next
  case (snoc x xs)
  then show ?case by (simp add: Set_spread_def Set_add_all_append)
qed

lemma Set_spread_append:
  "distinct old \<Longrightarrow> Set_spread (old @ new) = Set_add_all old new"
  using Set_spread_of_distinct [of old]
  by (simp add: Set_spread_def Set_add_all_append)

lemma foldl_push_role_name:
  "foldl push_role_name results rs =
   results @ concat (map (\<lambda>r. if truthy (entry_name r) then [or_empty (entry_name r)] else []) rs)"
  by (induction rs arbitrary: results) (auto simp: push_role_name_def)

lemma getRoleNames_sources: "getRoleNames m = Set_spread (spec_role_sources m)"
  by (cases "roles m") (simp_all add: getRoleNames_def spec_role_sources_def foldl_push_role_name)

section \<open>Lemmas on trimming\<close>

lemma trim_space_right: "trim (p @ [0x20]) = trim p"
proof (cases "\<forall>c\<in>set p. is_white_space c")
  case True
  have ws: "is_white_space 0x20" by (simp add: is_white_space_def)
  from True have a: "dropWhile is_white_space p = []" by simp
  from True ws have b: "dropWhile is_white_space (p @ [0x20]) = []" by simp
  show ?thesis unfolding trim_def a b by simp
next
  case False
  then obtain c where c: "c \<in> set p" "\<not> is_white_space c" by blast
  have ws: "is_white_space 0x20" by (simp add: is_white_space_def)
  from c have "dropWhile is_white_space (p @ [0x20]) = dropWhile is_white_space p @ [0x20]"
    by (rule dropWhile_append1)
  then show ?thesis using ws by (simp add: trim_def)
qed

lemma trim_space_left: "trim (0x20 # p) = trim p"
  by (simp add: trim_def is_white_space_def)

lemma trim_Nil: "trim [] = []"
  by (simp add: trim_def)

lemma last_dropWhile: "dropWhile P xs \<noteq> [] \<Longrightarrow> last (dropWhile P xs) = last xs"
  by (induction xs) (auto split: if_splits)

lemma trim_ends:
  assumes "trim s \<noteq> []"
  shows "\<not> is_white_space (hd (trim s)) \<and> \<not> is_white_space (last (trim s))"
proof -
  let ?a = "dropWhile is_white_space s"
  let ?b = "dropWhile is_white_space (rev ?a)"
  from assms have b: "?b \<noteq> []" by (simp add: trim_def)
  then have a: "?a \<noteq> []" by (metis dropWhile.simps(1) rev.simps(1))
  have "last (trim s) = hd ?b" using b by (simp add: trim_def last_rev)
  moreover have "\<not> is_white_space (hd ?b)" using b by (rule hd_dropWhile)
  moreover have "hd (trim s) = last ?b" using b by (simp add: trim_def hd_rev)
  moreover have "last ?b = last (rev ?a)" using b by (rule last_dropWhile)
  moreover have "last (rev ?a) = hd ?a" using a by (simp add: last_rev)
  moreover have "\<not> is_white_space (hd ?a)" using a by (rule hd_dropWhile)
  ultimately show ?thesis by simp
qed

section \<open>Role-name extraction: order and deduplication\<close>

text \<open>
  Claim C4.  For every membership item, \<open>getRoleNames\<close> returns the three sources in
  their fixed order -- the label \<open>Admin\<close> when the admin flag holds, then the names
  of the entries of the roles array in array order (entries whose name is missing or
  empty are skipped), then the legacy role when it is there and not empty -- with
  every duplicate collapsed to its first occurrence.  The result has no duplicates
  and contains exactly the names of the three sources.  \<open>getRoleNames\<close> reads
  nothing but its argument and changes nothing, so calling it again on the same item
  gives the same list in the same order.
\<close>

theorem getRoleNames_fixed_order_deduplicated:
  "getRoleNames m = collapse_duplicates (spec_role_sources m) \<and>
   distinct (getRoleNames m) \<and>
   set (getRoleNames m) = set (spec_role_sources m)"
  by (simp add: getRoleNames_sources Set_spread_distinct Set_spread_set
      Set_spread_collapse [symmetric])

theorem getRoleNames_fixed_order_deduplicated_witness:
  "getRoleNames \<lparr>sys_id = None, sys_user_sys_id = Some (js ''U1''), item_name = None, admin = True,
      roles = Some [RoleEntry (Some (js ''Editor'')), RoleEntry None, RoleEntry (Some (js ''Admin'')),
                    RoleEntry (Some []), RoleEntry (Some (js ''Editor''))],
      role = Some (js ''Owner'')\<rparr> = [js ''Admin'', js ''Editor'', js ''Owner'']"
  using getRoleNames_fixed_order_deduplicated [of "\<lparr>sys_id = None, sys_user_sys_id = Some (js ''U1''), item_name = None, admin = True,
      roles = Some [RoleEntry (Some (js ''Editor'')), RoleEntry None, RoleEntry (Some (js ''Admin'')),
                    RoleEntry (Some []), RoleEntry (Some (js ''Editor''))],
      role = Some (js ''Owner'')\<rparr>"]
  by (simp add: spec_role_sources_def js_def)

section \<open>The derived display name\<close>

text \<open>
  Claim C10.  The display name of a user side record is the first name, one space and
  the last name, trimmed, where a missing (or empty) part counts as the empty string.
  Without a side-table entry, or with both parts missing, it is the empty string; with
  only one part it is that part, trimmed; and a display name never starts or ends with
  white space.
\<close>

theorem display_name_joined_trimmed:
  "display_name None = [] \<and>
   display_name (Some u) = trim (or_empty (firstName u) @ js '' '' @ or_empty (lastName u)) \<and>
   (\<not> truthy (firstName u) \<and> \<not> truthy (lastName u) \<longrightarrow> display_name (Some u) = []) \<and>
   (\<not> truthy (lastName u) \<longrightarrow> display_name (Some u) = trim (or_empty (firstName u))) \<and>
   (\<not> truthy (firstName u) \<longrightarrow> display_name (Some u) = trim (or_empty (lastName u))) \<and>
   (display_name uo \<noteq> [] \<longrightarrow>
      \<not> is_white_space (hd (display_name uo)) \<and> \<not> is_white_space (last (display_name uo)))"
proof -
  have absent: "\<not> truthy x \<Longrightarrow> or_empty x = []" for x
    by (cases x) auto
  have ends: "display_name uo \<noteq> [] \<longrightarrow>
      \<not> is_white_space (hd (display_name uo)) \<and> \<not> is_white_space (last (display_name uo))"
    unfolding display_name_def using trim_ends by blast
  have none: "display_name None = []"
    by (simp add: display_name_def js_space trim_space_left trim_Nil)
  have some: "display_name (Some u) = trim (or_empty (firstName u) @ js '' '' @ or_empty (lastName u))"
    by (simp add: display_name_def)
  have r: "\<not> truthy (lastName u) \<longrightarrow> display_name (Some u) = trim (or_empty (firstName u))"
    by (simp add: some absent js_space trim_space_right)
  have l: "\<not> truthy (firstName u) \<longrightarrow> display_name (Some u) = trim (or_empty (lastName u))"
    by (simp add: some absent js_space trim_space_left)
  have b: "\<not> truthy (firstName u) \<and> \<not> truthy (lastName u) \<longrightarrow> display_name (Some u) = []"
    using l by (simp add: absent trim_Nil)
  from none some b r l ends show ?thesis by blast
qed

theorem display_name_joined_trimmed_witness:
  "display_name None = [] \<and>
   display_name (Some \<lparr>user_sys_id = Some (js ''U1''), user_email = None,
                       firstName = Some (js ''Ann''), lastName = None\<rparr>) = js ''Ann'' \<and>
   display_name (Some \<lparr>user_sys_id = Some (js ''U1''), user_email = None,
                       firstName = Some [], lastName = Some (js ''Lee'')\<rparr>) = js ''Lee'' \<and>
   display_name (Some \<lparr>user_sys_id = Some (js ''U1''), user_email = None,
                       firstName = None, lastName = None\<rparr>) = [] \<and>
   display_name (Some \<lparr>user_sys_id = Some (js ''U1''), user_email = None,
                       firstName = Some (js ''Ann''), lastName = Some (js ''Lee'')\<rparr>) = js ''Ann Lee''"
  using display_name_joined_trimmed [of "\<lparr>user_sys_id = Some (js ''U1''), user_email = None,
                       firstName = Some (js ''Ann''), lastName = None\<rparr>" None]
    display_name_joined_trimmed [of "\<lparr>user_sys_id = Some (js ''U1''), user_email = None,
                       firstName = Some [], lastName = Some (js ''Lee'')\<rparr>" None]
    display_name_joined_trimmed [of "\<lparr>user_sys_id = Some (js ''U1''), user_email = None,
                       firstName = None, lastName = None\<rparr>" None]
    display_name_joined_trimmed [of "\<lparr>user_sys_id = Some (js ''U1''), user_email = None,
                       firstName = Some (js ''Ann''), lastName = Some (js ''Lee'')\<rparr>" None]
  by (simp add: js_def trim_def is_white_space_def)

section \<open>Lemmas on the merge steps\<close>

lemma get_prop_set_prop_same: "get_prop (set_prop obj k v) k = Own v"
  by (simp add: get_prop_def set_prop_def update_conv')

lemma set_prop_twice: "set_prop (set_prop obj k v) k v' = set_prop obj k v'"
  by (simp add: set_prop_def)

lemma set_update_subset: "set (AList.update k v al) \<subseteq> insert (k, v) (set al)"
  by (induction al) auto

lemma merge_org_item_upsert:
  "merge_org_item orgUsers userMap m =
     (if \<not> truthy (sys_user_sys_id m) then Inr userMap
      else upsert userMap (or_empty (sys_user_sys_id m))
             \<lparr>userId = or_empty (sys_user_sys_id m),
              email = email_of (orgUsers (or_empty (sys_user_sys_id m))),
              name = display_name (orgUsers (or_empty (sys_user_sys_id m))),
              orgRoles = [], spaceRoles = [], teams = []\<rparr>
             (\<lambda>u. u\<lparr>orgRoles := Set_spread (orgRoles u @ getRoleNames m)\<rparr>))"
  by (cases "get_prop userMap (or_empty (sys_user_sys_id m))")
     (simp_all add: merge_org_item_def upsert_def Let_def get_prop_set_prop_same set_prop_twice)

lemma merge_space_item_upsert:
  "merge_space_item spaceUsers userMap m =
     (if \<not> truthy (sys_user_sys_id m) then Inr userMap
      else upsert userMap (or_empty (sys_user_sys_id m))
             \<lparr>userId = or_empty (sys_user_sys_id m),
              email = email_of (spaceUsers (or_empty (sys_user_sys_id m))),
              name = display_name (spaceUsers (or_empty (sys_user_sys_id m))),
              orgRoles = [], spaceRoles = [], teams = []\<rparr>
             (\<lambda>u. u\<lparr>spaceRoles := Set_spread (spaceRoles u @ getRoleNames m)\<rparr>))"
  by (cases "get_prop userMap (or_empty (sys_user_sys_id m))")
     (simp_all add: merge_space_item_def upsert_def Let_def get_prop_set_prop_same set_prop_twice)

lemma merge_team_entry_upsert:
  "merge_team_entry userMap entry =
     upsert userMap (fst entry)
       \<lparr>userId = fst entry, email = [], name = [], orgRoles = [], spaceRoles = [], teams = []\<rparr>
       (\<lambda>u. u\<lparr>teams := Set_spread (teams u @ snd entry)\<rparr>)"
  by (cases "get_prop userMap (fst entry)")
     (simp_all add: merge_team_entry_def upsert_def Let_def get_prop_set_prop_same set_prop_twice)

lemma upsert_Inr:
  assumes "upsert userMap k fresh f = Inr userMap'"
  shows "userMap' = AList.update k (f (case map_of userMap k of None \<Rightarrow> fresh | Some u \<Rightarrow> u)) userMap"
    and "map_of userMap k = None \<Longrightarrow> k \<notin> set Object_prototype_names"
  using assms
  by (auto simp: upsert_def get_prop_def set_prop_def split: option.splits if_splits)

lemma upsert_all:
  assumes "upsert userMap k fresh f = Inr userMap'"
    and "\<And>u. P u \<Longrightarrow> P (f u)" and "P fresh"
    and "\<forall>p\<in>set userMap. P (snd p)"
  shows "\<forall>p\<in>set userMap'. P (snd p)"
proof
  fix p assume p: "p \<in> set userMap'"
  let ?v = "f (case map_of userMap k of None \<Rightarrow> fresh | Some u \<Rightarrow> u)"
  have "P (case map_of userMap k of None \<Rightarrow> fresh | Some u \<Rightarrow> u)"
    using assms(3,4) by (auto split: option.splits dest!: map_of_SomeD)
  then have v: "P ?v" by (rule assms(2))
  from p upsert_Inr(1) [OF assms(1)] set_update_subset [of k ?v userMap]
  have "p = (k, ?v) \<or> p \<in> set userMap" by auto
  then show "P (snd p)" using v assms(4) by auto
qed

lemma upsert_related:
  assumes "upsert userMap k fresh f = Inr userMap'"
    and "map_of userMap j = Some u"
    and "R u (f u)" and "R u u"
  shows "\<exists>u'. map_of userMap' j = Some u' \<and> R u u'"
  using assms(2-4) unfolding upsert_Inr(1) [OF assms(1)]
  by (auto simp: update_conv')

lemma Set_spread_extend_prefix: "distinct old \<Longrightarrow> prefix old (Set_spread (old @ new))"
  by (simp add: Set_spread_append Set_add_all_prefix)

lemma merge_step_upsert:
  assumes "merge_step userMap userMap'"
  shows "userMap' = userMap \<or>
    (\<exists>k fresh f. upsert userMap k fresh f = Inr userMap' \<and> deduplicated fresh \<and>
       userId fresh = k \<and>
       (\<forall>u. userId (f u) = userId u \<and> email (f u) = email u \<and> name (f u) = name u) \<and>
       (\<forall>u. deduplicated u \<longrightarrow> deduplicated (f u) \<and> keeps_order u (f u)))"
  using assms
proof cases
  case (org_step orgUsers m)
  show ?thesis
  proof (cases "truthy (sys_user_sys_id m)")
    case False
    with org_step show ?thesis by (simp add: merge_org_item_upsert)
  next
    case True
    let ?f = "\<lambda>u. u\<lparr>orgRoles := Set_spread (orgRoles u @ getRoleNames m)\<rparr>"
    have "\<forall>u. deduplicated u \<longrightarrow> deduplicated (?f u) \<and> keeps_order u (?f u)"
      by (simp add: deduplicated_def keeps_order_def Set_spread_distinct Set_spread_extend_prefix)
    moreover from True org_step have "upsert userMap (or_empty (sys_user_sys_id m))
             \<lparr>userId = or_empty (sys_user_sys_id m),
              email = email_of (orgUsers (or_empty (sys_user_sys_id m))),
              name = display_name (orgUsers (or_empty (sys_user_sys_id m))),
              orgRoles = [], spaceRoles = [], teams = []\<rparr> ?f = Inr userMap'"
      by (simp add: merge_org_item_upsert)
    ultimately show ?thesis
      by (intro disjI2 exI conjI) (assumption | simp add: deduplicated_def)+
  qed
next
  case (space_step spaceUsers m)
  show ?thesis
  proof (cases "truthy (sys_user_sys_id m)")
    case False
    with space_step show ?thesis by (simp add: merge_space_item_upsert)
  next
    case True
    let ?f = "\<lambda>u. u\<lparr>spaceRoles := Set_spread (spaceRoles u @ getRoleNames m)\<rparr>"
    have "\<forall>u. deduplicated u \<longrightarrow> deduplicated (?f u) \<and> keeps_order u (?f u)"
      by (simp add: deduplicated_def keeps_order_def Set_spread_distinct Set_spread_extend_prefix)
    moreover from True space_step have "upsert userMap (or_empty (sys_user_sys_id m))
             \<lparr>userId = or_empty (sys_user_sys_id m),
              email = email_of (spaceUsers (or_empty (sys_user_sys_id m))),
              name = display_name (spaceUsers (or_empty (sys_user_sys_id m))),
              orgRoles = [], spaceRoles = [], teams = []\<rparr> ?f = Inr userMap'"
      by (simp add: merge_space_item_upsert)
    ultimately show ?thesis
      by (intro disjI2 exI conjI) (assumption | simp add: deduplicated_def)+
  qed
next
  case (team_step entry)
  let ?f = "\<lambda>u. u\<lparr>teams := Set_spread (teams u @ snd entry)\<rparr>"
  have "\<forall>u. deduplicated u \<longrightarrow> deduplicated (?f u) \<and> keeps_order u (?f u)"
    by (simp add: deduplicated_def keeps_order_def Set_spread_distinct Set_spread_extend_prefix)
  moreover from team_step have "upsert userMap (fst entry)
       \<lparr>userId = fst entry, email = [], name = [], orgRoles = [], spaceRoles = [], teams = []\<rparr>
       ?f = Inr userMap'"
    by (simp add: merge_team_entry_upsert)
  ultimately show ?thesis
    by (intro disjI2 exI conjI) (assumption | simp add: deduplicated_def)+
qed

lemma keeps_order_refl: "keeps_order u u"
  by (simp add: keeps_order_def)

lemma merge_step_identity:
  assumes "merge_step userMap userMap'" "map_of userMap k = Some u"
  shows "\<exists>u'. map_of userMap' k = Some u' \<and>
              userId u' = userId u \<and> email u' = email u \<and> name u' = name u"
proof -
  from assms(1) merge_step_upsert consider "userMap' = userMap"
    | j fresh f where "upsert userMap j fresh f = Inr userMap'"
        "\<forall>u. userId (f u) = userId u \<and> email (f u) = email u \<and> name (f u) = name u"
    by blast
  then show ?thesis
  proof cases
    case 1
    with assms(2) show ?thesis by simp
  next
    case 2
    from 2(1) assms(2) show ?thesis
      by (rule upsert_related [where R = "\<lambda>u u'. userId u' = userId u \<and> email u' = email u \<and> name u' = name u"])
         (simp_all add: 2(2))
  qed
qed

lemma merge_steps_identity:
  assumes "merge_step\<^sup>*\<^sup>* userMap userMap'" "map_of userMap k = Some u"
  shows "\<exists>u'. map_of userMap' k = Some u' \<and>
              userId u' = userId u \<and> email u' = email u \<and> name u' = name u"
  using assms
proof (induction rule: rtranclp_induct)
  case base
  then show ?case by simp
next
  case (step y z)
  then obtain v where v: "map_of y k = Some v" "userId v = userId u" "email v = email u" "name v = name u"
    by blast
  from merge_step_identity [OF step.hyps(2) v(1)] v(2-4) show ?case by auto
qed

lemma org_loop_steps: "org_loop orgUsers userMap its = Inr userMap' \<Longrightarrow> merge_step\<^sup>*\<^sup>* userMap userMap'"
proof (induction its arbitrary: userMap)
  case Nil
  then show ?case by simp
next
  case (Cons m its)
  then obtain um1 where 1: "merge_org_item orgUsers userMap m = Inr um1" "org_loop orgUsers um1 its = Inr userMap'"
    by (auto split: sum.splits)
  from 1(1) have "merge_step userMap um1" by (rule org_step)
  with Cons.IH [OF 1(2)] show ?case by (rule converse_rtranclp_into_rtranclp [rotated])
qed

lemma space_loop_steps: "space_loop spaceUsers userMap its = Inr userMap' \<Longrightarrow> merge_step\<^sup>*\<^sup>* userMap userMap'"
proof (induction its arbitrary: userMap)
  case Nil
  then show ?case by simp
next
  case (Cons m its)
  then obtain um1 where 1: "merge_space_item spaceUsers userMap m = Inr um1" "space_loop spaceUsers um1 its = Inr userMap'"
    by (auto split: sum.splits)
  from 1(1) have "merge_step userMap um1" by (rule space_step)
  with Cons.IH [OF 1(2)] show ?case by (rule converse_rtranclp_into_rtranclp [rotated])
qed

lemma team_loop_steps: "team_loop userMap es = Inr userMap' \<Longrightarrow> merge_step\<^sup>*\<^sup>* userMap userMap'"
proof (induction es arbitrary: userMap)
  case Nil
  then show ?case by simp
next
  case (Cons e es)
  then obtain um1 where 1: "merge_team_entry userMap e = Inr um1" "team_loop um1 es = Inr userMap'"
    by (auto split: sum.splits)
  from 1(1) have "merge_step userMap um1" by (rule team_step)
  with Cons.IH [OF 1(2)] show ?case by (rule converse_rtranclp_into_rtranclp [rotated])
qed

section \<open>The identity fields are written once\<close>

text \<open>
  Claim C6.  Once a unified record exists for a user identifier, no later merge step
  of any pass -- organization, space or team -- changes its user identifier, its
  email or its display name: after any sequence of merge steps the record is still
  there with the same three values, whatever the side-tables of the later passes
  hold.  The three loops of the script are such sequences of merge steps, so the email
  and the name are those given when the record was created, and later merges change
  the role and team lists only.
\<close>

theorem identity_written_at_creation_only:
  "(merge_step\<^sup>*\<^sup>* userMap userMap' \<and> map_of userMap k = Some u \<longrightarrow>
      (\<exists>u'. map_of userMap' k = Some u' \<and>
            userId u' = userId u \<and> email u' = email u \<and> name u' = name u)) \<and>
   (org_loop orgUsers userMap its = Inr userMap' \<longrightarrow> merge_step\<^sup>*\<^sup>* userMap userMap') \<and>
   (space_loop spaceUsers userMap its = Inr userMap' \<longrightarrow> merge_step\<^sup>*\<^sup>* userMap userMap') \<and>
   (team_loop userMap es = Inr userMap' \<longrightarrow> merge_step\<^sup>*\<^sup>* userMap userMap')"
  using merge_steps_identity [of userMap userMap' k u]
    org_loop_steps [of orgUsers userMap its userMap']
    space_loop_steps [of spaceUsers userMap its userMap']
    team_loop_steps [of userMap es userMap']
  by blast

theorem identity_written_at_creation_only_witness:
  "space_loop
     [js ''U1'' \<mapsto> \<lparr>user_sys_id = Some (js ''U1''), user_email = Some (js ''x@y''),
                      firstName = Some (js ''Zed''), lastName = None\<rparr>]
     [(js ''U1'', \<lparr>userId = js ''U1'', email = js ''a@b'', name = js ''Ann'',
                   orgRoles = [js ''Admin''], spaceRoles = [], teams = []\<rparr>)]
     [\<lparr>sys_id = None, sys_user_sys_id = Some (js ''U1''), item_name = None, admin = False,
       roles = Some [RoleEntry (Some (js ''Editor''))], role = None\<rparr>]
   = Inr [(js ''U1'', \<lparr>userId = js ''U1'', email = js ''a@b'', name = js ''Ann'',
                   orgRoles = [js ''Admin''], spaceRoles = [js ''Editor''], teams = []\<rparr>)] \<and>
   merge_step\<^sup>*\<^sup>*
     [(js ''U1'', \<lparr>userId = js ''U1'', email = js ''a@b'', name = js ''Ann'',
                   orgRoles = [js ''Admin''], spaceRoles = [], teams = []\<rparr>)]
     [(js ''U1'', \<lparr>userId = js ''U1'', email = js ''a@b'', name = js ''Ann'',
                   orgRoles = [js ''Admin''], spaceRoles = [js ''Editor''], teams = []\<rparr>)] \<and>
   (\<exists>u'. map_of [(js ''U1'', \<lparr>userId = js ''U1'', email = js ''a@b'', name = js ''Ann'',
                   orgRoles = [js ''Admin''], spaceRoles = [js ''Editor''], teams = []\<rparr>)]
              (js ''U1'') = Some u' \<and>
         email u' = js ''a@b'' \<and> name u' = js ''Ann'')"
proof -
  let ?su = "[js ''U1'' \<mapsto> \<lparr>user_sys_id = Some (js ''U1''), user_email = Some (js ''x@y''),
                      firstName = Some (js ''Zed''), lastName = None\<rparr>]"
  let ?A = "[(js ''U1'', \<lparr>userId = js ''U1'', email = js ''a@b'', name = js ''Ann'',
                   orgRoles = [js ''Admin''], spaceRoles = [], teams = []\<rparr>)]"
  let ?B = "[(js ''U1'', \<lparr>userId = js ''U1'', email = js ''a@b'', name = js ''Ann'',
                   orgRoles = [js ''Admin''], spaceRoles = [js ''Editor''], teams = []\<rparr>)]"
  let ?m = "\<lparr>sys_id = None, sys_user_sys_id = Some (js ''U1''), item_name = None, admin = False,
       roles = Some [RoleEntry (Some (js ''Editor''))], role = None\<rparr>"
  have loop: "space_loop ?su ?A [?m] = Inr ?B"
    by (simp add: merge_space_item_def get_prop_def set_prop_def getRoleNames_def
        push_role_name_def Set_spread_def js_def Let_def)
  from identity_written_at_creation_only
         [where userMap = ?A and userMap' = ?B and spaceUsers = ?su and its = "[?m]"] loop
  have steps: "merge_step\<^sup>*\<^sup>* ?A ?B" by blast
  have "map_of ?A (js ''U1'') = Some \<lparr>userId = js ''U1'', email = js ''a@b'', name = js ''Ann'',
                   orgRoles = [js ''Admin''], spaceRoles = [], teams = []\<rparr>"
    by simp
  with identity_written_at_creation_only
         [where userMap = ?A and userMap' = ?B and k = "js ''U1''"
            and u = "\<lparr>userId = js ''U1'', email = js ''a@b'', name = js ''Ann'',
                   orgRoles = [js ''Admin''], spaceRoles = [], teams = []\<rparr>"] steps
  have "\<exists>u'. map_of ?B (js ''U1'') = Some u' \<and> email u' = js ''a@b'' \<and> name u' = js ''Ann''"
    by simp
  with loop steps show ?thesis by blast
qed

lemma upsert_fresh:
  assumes "upsert userMap k fresh f = Inr userMap'" "map_of userMap k = None"
  shows "map_of userMap' k = Some (f fresh)"
  using assms(2) unfolding upsert_Inr(1) [OF assms(1)] by (simp add: update_conv')

lemma upsert_other:
  assumes "upsert userMap j fresh f = Inr userMap'" "j \<noteq> k"
  shows "map_of userMap' k = map_of userMap k"
  using assms(2) unfolding upsert_Inr(1) [OF assms(1)] by (simp add: update_conv')

lemma user_ids_Cons:
  "user_ids (m # its) =
     (if truthy (sys_user_sys_id m) then or_empty (sys_user_sys_id m) # user_ids its else user_ids its)"
  by (simp add: user_ids_def)

lemma org_loop_first_encounter:
  assumes "org_loop orgUsers userMap its = Inr userMap'"
    and "k \<in> set (user_ids its)" and "map_of userMap k = None"
  shows "\<exists>u. map_of userMap' k = Some u \<and> userId u = k \<and>
             email u = email_of (orgUsers k) \<and> name u = display_name (orgUsers k)"
  using assms
proof (induction its arbitrary: userMap)
  case Nil
  then show ?case by (simp add: user_ids_def)
next
  case (Cons m its)
  from Cons.prems(1) obtain um1 where 1: "merge_org_item orgUsers userMap m = Inr um1"
      "org_loop orgUsers um1 its = Inr userMap'"
    by (auto split: sum.splits)
  show ?case
  proof (cases "truthy (sys_user_sys_id m) \<and> or_empty (sys_user_sys_id m) = k")
    case True
    with 1(1) have "upsert userMap k
             \<lparr>userId = k, email = email_of (orgUsers k), name = display_name (orgUsers k),
              orgRoles = [], spaceRoles = [], teams = []\<rparr>
             (\<lambda>u. u\<lparr>orgRoles := Set_spread (orgRoles u @ getRoleNames m)\<rparr>) = Inr um1"
      by (auto simp: merge_org_item_upsert)
    from upsert_fresh [OF this Cons.prems(3)]
    obtain v where v: "map_of um1 k = Some v" "userId v = k" "email v = email_of (orgUsers k)"
        "name v = display_name (orgUsers k)"
      by simp
    from merge_steps_identity [OF org_loop_steps [OF 1(2)] v(1)] v(2-4) show ?thesis by auto
  next
    case False
    with Cons.prems(2) have k: "k \<in> set (user_ids its)"
      by (auto simp: user_ids_Cons split: if_splits)
    from False 1(1) Cons.prems(3) have "map_of um1 k = None"
      by (auto simp: merge_org_item_upsert dest: upsert_other split: if_splits)
    with 1(2) k show ?thesis by (rule Cons.IH)
  qed
qed

lemma space_loop_first_encounter:
  assumes "space_loop spaceUsers userMap its = Inr userMap'"
    and "k \<in> set (user_ids its)" and "map_of userMap k = None"
  shows "\<exists>u. map_of userMap' k = Some u \<and> userId u = k \<and>
             email u = email_of (spaceUsers k) \<and> name u = display_name (spaceUsers k)"
  using assms
proof (induction its arbitrary: userMap)
  case Nil
  then show ?case by (simp add: user_ids_def)
next
  case (Cons m its)
  from Cons.prems(1) obtain um1 where 1: "merge_space_item spaceUsers userMap m = Inr um1"
      "space_loop spaceUsers um1 its = Inr userMap'"
    by (auto split: sum.splits)
  show ?case
  proof (cases "truthy (sys_user_sys_id m) \<and> or_empty (sys_user_sys_id m) = k")
    case True
    with 1(1) have "upsert userMap k
             \<lparr>userId = k, email = email_of (spaceUsers k), name = display_name (spaceUsers k),
              orgRoles = [], spaceRoles = [], teams = []\<rparr>
             (\<lambda>u. u\<lparr>spaceRoles := Set_spread (spaceRoles u @ getRoleNames m)\<rparr>) = Inr um1"
      by (auto simp: merge_space_item_upsert)
    from upsert_fresh [OF this Cons.prems(3)]
    obtain v where v: "map_of um1 k = Some v" "userId v = k" "email v = email_of (spaceUsers k)"
        "name v = display_name (spaceUsers k)"
      by simp
    from merge_steps_identity [OF space_loop_steps [OF 1(2)] v(1)] v(2-4) show ?thesis by auto
  next
    case False
    with Cons.prems(2) have k: "k \<in> set (user_ids its)"
      by (auto simp: user_ids_Cons split: if_splits)
    from False 1(1) Cons.prems(3) have "map_of um1 k = None"
      by (auto simp: merge_space_item_upsert dest: upsert_other split: if_splits)
    with 1(2) k show ?thesis by (rule Cons.IH)
  qed
qed

lemma org_loop_untouched:
  assumes "org_loop orgUsers userMap its = Inr userMap'" and "k \<notin> set (user_ids its)"
  shows "map_of userMap' k = map_of userMap k"
  using assms
proof (induction its arbitrary: userMap)
  case Nil
  then show ?case by simp
next
  case (Cons m its)
  from Cons.prems(1) obtain um1 where 1: "merge_org_item orgUsers userMap m = Inr um1"
      "org_loop orgUsers um1 its = Inr userMap'"
    by (auto split: sum.splits)
  from Cons.prems(2) have k: "k \<notin> set (user_ids its)"
    and m: "truthy (sys_user_sys_id m) \<longrightarrow> or_empty (sys_user_sys_id m) \<noteq> k"
    by (auto simp: user_ids_Cons split: if_splits)
  from 1(1) m have "map_of um1 k = map_of userMap k"
    by (auto simp: merge_org_item_upsert dest: upsert_other split: if_splits)
  with Cons.IH [OF 1(2) k] show ?case by simp
qed

lemma empty_side_entry: "email_of None = [] \<and> display_name None = []"
  by (simp add: email_of_def display_name_def js_space trim_space_left trim_Nil)

lemma set_Object_entries: "set (Object_entries obj) = set obj"
  by (auto simp: Object_entries_def)

lemma set_Object_values: "set (Object_values obj) = snd ` set obj"
  by (simp add: Object_values_def set_Object_entries)
section \<open>An identity created empty stays empty\<close>

text \<open>
  Claim C9.  The pass that first meets a user identifier creates the record from its
  own side-table.  If that pass is the organization pass and its side-table has no
  entry for the identifier -- or the organization pass never meets the identifier,
  the space pass does and its side-table has no entry -- the record is created with
  empty email and empty name, and they are still empty in the final map and in the
  output row, whatever the side-table of a later pass holds for that identifier.
\<close>

theorem empty_identity_stays_empty:
  assumes "org_loop orgUsers [] orgItems = Inr um1"
    and "space_loop spaceUsers um1 spaceItems = Inr um2"
    and "team_loop um2 entries = Inr um3"
    and "(k \<in> set (user_ids orgItems) \<and> orgUsers k = None) \<or>
         (k \<notin> set (user_ids orgItems) \<and> k \<in> set (user_ids spaceItems) \<and> spaceUsers k = None)"
  shows "\<exists>u. map_of um3 k = Some u \<and> email u = [] \<and> name u = [] \<and>
             final_row u \<in> set (finalData um3) \<and>
             map_of (final_row u) ''email'' = Some [] \<and>
             map_of (final_row u) ''name'' = Some []"
proof -
  have "\<exists>v. map_of um2 k = Some v \<and> email v = [] \<and> name v = []"
    using assms(4)
  proof
    assume a: "k \<in> set (user_ids orgItems) \<and> orgUsers k = None"
    with org_loop_first_encounter [OF assms(1), of k]
    obtain v where v: "map_of um1 k = Some v" "email v = []" "name v = []"
      by (auto simp: empty_side_entry)
    from merge_steps_identity [OF space_loop_steps [OF assms(2)] v(1)] v(2,3)
    show ?thesis by auto
  next
    assume a: "k \<notin> set (user_ids orgItems) \<and> k \<in> set (user_ids spaceItems) \<and> spaceUsers k = None"
    with org_loop_untouched [OF assms(1), of k] have "map_of um1 k = None" by simp
    with space_loop_first_encounter [OF assms(2), of k] a show ?thesis
      by (auto simp: empty_side_entry)
  qed
  then obtain v where v: "map_of um2 k = Some v" "email v = []" "name v = []" by blast
  from merge_steps_identity [OF team_loop_steps [OF assms(3)] v(1)] v(2,3)
  obtain u where u: "map_of um3 k = Some u" "email u = []" "name u = []" by auto
  from u(1) have "(k, u) \<in> set um3" by (rule map_of_SomeD)
  then have "final_row u \<in> set (finalData um3)"
    by (force simp: finalData_def set_Object_values)
  with u show ?thesis by (auto simp: final_row_def)
qed

theorem empty_identity_stays_empty_witness:
  "org_loop Map.empty []
     [\<lparr>sys_id = None, sys_user_sys_id = Some (js ''U1''), item_name = None, admin = True,
       roles = None, role = None\<rparr>]
   = Inr [(js ''U1'', \<lparr>userId = js ''U1'', email = [], name = [],
                       orgRoles = [js ''Admin''], spaceRoles = [], teams = []\<rparr>)] \<and>
   space_loop
     [js ''U1'' \<mapsto> \<lparr>user_sys_id = Some (js ''U1''), user_email = Some (js ''x@y''),
                      firstName = Some (js ''Zed''), lastName = None\<rparr>]
     [(js ''U1'', \<lparr>userId = js ''U1'', email = [], name = [],
                   orgRoles = [js ''Admin''], spaceRoles = [], teams = []\<rparr>)]
     [\<lparr>sys_id = None, sys_user_sys_id = Some (js ''U1''), item_name = None, admin = False,
       roles = Some [RoleEntry (Some (js ''Editor''))], role = None\<rparr>]
   = Inr [(js ''U1'', \<lparr>userId = js ''U1'', email = [], name = [],
                       orgRoles = [js ''Admin''], spaceRoles = [js ''Editor''], teams = []\<rparr>)] \<and>
   (\<exists>u. map_of [(js ''U1'', \<lparr>userId = js ''U1'', email = [], name = [],
                       orgRoles = [js ''Admin''], spaceRoles = [js ''Editor''], teams = []\<rparr>)]
             (js ''U1'') = Some u \<and>
        email u = [] \<and> name u = [] \<and>
        map_of (final_row u) ''email'' = Some [] \<and> map_of (final_row u) ''name'' = Some [])"
proof -
  let ?o = "\<lparr>sys_id = None, sys_user_sys_id = Some (js ''U1''), item_name = None, admin = True,
       roles = None, role = None\<rparr>"
  let ?s = "\<lparr>sys_id = None, sys_user_sys_id = Some (js ''U1''), item_name = None, admin = False,
       roles = Some [RoleEntry (Some (js ''Editor''))], role = None\<rparr>"
  let ?su = "[js ''U1'' \<mapsto> \<lparr>user_sys_id = Some (js ''U1''), user_email = Some (js ''x@y''),
                      firstName = Some (js ''Zed''), lastName = None\<rparr>]"
  let ?A = "[(js ''U1'', \<lparr>userId = js ''U1'', email = [], name = [],
                       orgRoles = [js ''Admin''], spaceRoles = [], teams = []\<rparr>)]"
  let ?B = "[(js ''U1'', \<lparr>userId = js ''U1'', email = [], name = [],
                       orgRoles = [js ''Admin''], spaceRoles = [js ''Editor''], teams = []\<rparr>)]"
  have 1: "org_loop Map.empty [] [?o] = Inr ?A"
    by (simp add: merge_org_item_def get_prop_def set_prop_def getRoleNames_def
        Set_spread_def js_def Let_def Object_prototype_names_def email_of_def
        display_name_def trim_def is_white_space_def)
  have 2: "space_loop ?su ?A [?s] = Inr ?B"
    by (simp add: merge_space_item_def get_prop_def set_prop_def getRoleNames_def
        push_role_name_def Set_spread_def js_def Let_def)
  have 3: "team_loop ?B [] = Inr ?B" by simp
  have 4: "(js ''U1'' \<in> set (user_ids [?o]) \<and> Map.empty (js ''U1'') = None) \<or>
           (js ''U1'' \<notin> set (user_ids [?o]) \<and> js ''U1'' \<in> set (user_ids [?s]) \<and>
            ?su (js ''U1'') = None)"
    by (simp add: user_ids_def js_def)
  from empty_identity_stays_empty [OF 1 2 3 4] 1 2 show ?thesis by blast
qed

lemma org_loop_skip:
  "\<not> truthy (sys_user_sys_id m) \<Longrightarrow>
   org_loop orgUsers userMap (pre @ m # post) = org_loop orgUsers userMap (pre @ post)"
  by (induction pre arbitrary: userMap) (simp_all add: merge_org_item_def split: sum.splits)

lemma space_loop_skip:
  "\<not> truthy (sys_user_sys_id m) \<Longrightarrow>
   space_loop spaceUsers userMap (pre @ m # post) = space_loop spaceUsers userMap (pre @ post)"
  by (induction pre arbitrary: userMap) (simp_all add: merge_space_item_def split: sum.splits)

lemma team_members_loop_skip:
  "\<not> truthy (sys_user_sys_id m) \<Longrightarrow>
   team_members_loop teamName userToTeams (pre @ m # post) =
   team_members_loop teamName userToTeams (pre @ post)"
  by (induction pre arbitrary: userToTeams) (simp_all add: push_team_def split: sum.splits)

lemma teams_loop_skip:
  "\<not> truthy (sys_id t) \<Longrightarrow>
   teams_loop cfg get userToTeams (pre @ t # post) = teams_loop cfg get userToTeams (pre @ post)"
  by (induction pre arbitrary: userToTeams) simp_all

section \<open>Items without an identifier\<close>

text \<open>
  Claim C5.  A membership item that resolves to no user identifier (missing or empty)
  is skipped by the organization pass, the space pass and the team-membership loop:
  the step returns the map it was given, and a loop over a list that holds such an
  item gives what it gives on the list without the item -- the same records, the same
  entries of the user-to-teams map, the same error if a later item throws.  A team
  without an identifier is skipped the same way: no request is sent for it and the
  user-to-teams map and the events of the run are those of the list without it.
\<close>

theorem items_without_identifier_are_skipped:
  "(\<not> truthy (sys_user_sys_id m) \<longrightarrow>
      merge_org_item orgUsers userMap m = Inr userMap \<and>
      merge_space_item spaceUsers userMap m = Inr userMap \<and>
      push_team teamName userToTeams m = Inr userToTeams \<and>
      org_loop orgUsers userMap (pre @ m # post) = org_loop orgUsers userMap (pre @ post) \<and>
      space_loop spaceUsers userMap (pre @ m # post) = space_loop spaceUsers userMap (pre @ post) \<and>
      team_members_loop teamName userToTeams (pre @ m # post) =
        team_members_loop teamName userToTeams (pre @ post)) \<and>
   (\<not> truthy (sys_id m) \<longrightarrow>
      teams_loop cfg get userToTeams (pre @ m # post) = teams_loop cfg get userToTeams (pre @ post))"
  by (simp add: org_loop_skip space_loop_skip team_members_loop_skip teams_loop_skip
      merge_org_item_def merge_space_item_def push_team_def)

theorem items_without_identifier_are_skipped_witness:
  "org_loop Map.empty []
     [\<lparr>sys_id = None, sys_user_sys_id = Some (js ''U1''), item_name = None, admin = True,
       roles = None, role = None\<rparr>,
      \<lparr>sys_id = None, sys_user_sys_id = None, item_name = Some (js ''Design''), admin = True,
       roles = None, role = Some (js ''Owner'')\<rparr>,
      \<lparr>sys_id = None, sys_user_sys_id = Some (js ''U2''), item_name = None, admin = False,
       roles = None, role = Some (js ''Member'')\<rparr>]
   = Inr [(js ''U1'', \<lparr>userId = js ''U1'', email = [], name = [],
                       orgRoles = [js ''Admin''], spaceRoles = [], teams = []\<rparr>),
          (js ''U2'', \<lparr>userId = js ''U2'', email = [], name = [],
                       orgRoles = [js ''Member''], spaceRoles = [], teams = []\<rparr>)] \<and>
   teams_loop \<lparr>MANAGEMENT_API_KEY = js ''key'', ORGANIZATION_ID = js ''org''\<rparr>
     (\<lambda>r. Inl (js ''down'')) []
     [\<lparr>sys_id = None, sys_user_sys_id = None, item_name = Some (js ''Design''), admin = True,
       roles = None, role = Some (js ''Owner'')\<rparr>]
   = Some (Inr [], [])"
proof -
  let ?a = "\<lparr>sys_id = None, sys_user_sys_id = Some (js ''U1''), item_name = None, admin = True,
       roles = None, role = None\<rparr>"
  let ?m = "\<lparr>sys_id = None, sys_user_sys_id = None, item_name = Some (js ''Design''), admin = True,
       roles = None, role = Some (js ''Owner'')\<rparr>"
  let ?b = "\<lparr>sys_id = None, sys_user_sys_id = Some (js ''U2''), item_name = None, admin = False,
       roles = None, role = Some (js ''Member'')\<rparr>"
  let ?cfg = "\<lparr>MANAGEMENT_API_KEY = js ''key'', ORGANIZATION_ID = js ''org''\<rparr>"
  have "org_loop Map.empty [] ([?a] @ [?b])
        = Inr [(js ''U1'', \<lparr>userId = js ''U1'', email = [], name = [],
                       orgRoles = [js ''Admin''], spaceRoles = [], teams = []\<rparr>),
          (js ''U2'', \<lparr>userId = js ''U2'', email = [], name = [],
                       orgRoles = [js ''Member''], spaceRoles = [], teams = []\<rparr>)]"
    by (simp add: merge_org_item_def get_prop_def set_prop_def getRoleNames_def
        Set_spread_def js_def Let_def Object_prototype_names_def email_of_def
        display_name_def trim_def is_white_space_def)
  moreover have "org_loop Map.empty [] ([?a] @ ?m # [?b]) = org_loop Map.empty [] ([?a] @ [?b])"
    using items_without_identifier_are_skipped
      [where m = ?m and orgUsers = Map.empty and userMap = "[]" and pre = "[?a]" and post = "[?b]"]
    by simp
  moreover have "teams_loop ?cfg (\<lambda>r. Inl (js ''down'')) [] ([] @ ?m # [])
                 = teams_loop ?cfg (\<lambda>r. Inl (js ''down'')) [] ([] @ [])"
    using items_without_identifier_are_skipped
      [where m = ?m and cfg = ?cfg and get = "\<lambda>r. Inl (js ''down'')" and userToTeams = "[]"
         and pre = "[]" and post = "[]"]
    by simp
  ultimately show ?thesis by (simp add: of_result_def)
qed

lemma upsert_entries:
  assumes "upsert userMap k fresh f = Inr userMap'" "p \<in> set userMap'"
  shows "p \<in> set userMap \<or> (p = (k, f fresh) \<and> map_of userMap k = None) \<or>
         (\<exists>u. (k, u) \<in> set userMap \<and> p = (k, f u))"
proof -
  let ?v = "f (case map_of userMap k of None \<Rightarrow> fresh | Some u \<Rightarrow> u)"
  from assms(2) upsert_Inr(1) [OF assms(1)] set_update_subset [of k ?v userMap]
  have "p = (k, ?v) \<or> p \<in> set userMap" by auto
  then show ?thesis by (auto split: option.splits dest: map_of_SomeD)
qed

lemma upsert_dom:
  assumes "upsert userMap k fresh f = Inr userMap'"
  shows "fst ` set userMap' = insert k (fst ` set userMap)"
  unfolding upsert_Inr(1) [OF assms] by (simp add: dom_update)

lemma upsert_distinct:
  assumes "upsert userMap k fresh f = Inr userMap'" "distinct (map fst userMap)"
  shows "distinct (map fst userMap')"
  using assms(2) unfolding upsert_Inr(1) [OF assms(1)] by (rule distinct_update)

lemma merge_step_keyed:
  assumes "merge_step userMap userMap'"
    and "distinct (map fst userMap)" and "\<forall>p\<in>set userMap. userId (snd p) = fst p"
  shows "distinct (map fst userMap') \<and> (\<forall>p\<in>set userMap'. userId (snd p) = fst p)"
proof -
  from assms(1) merge_step_upsert consider "userMap' = userMap"
    | k fresh f where "upsert userMap k fresh f = Inr userMap'" "userId fresh = k"
        "\<forall>u. userId (f u) = userId u"
    by blast
  then show ?thesis
  proof cases
    case 1
    with assms show ?thesis by simp
  next
    case 2
    have "userId (snd p) = fst p" if "p \<in> set userMap'" for p
      using upsert_entries [OF 2(1) that] 2(2,3) assms(3) by auto
    with upsert_distinct [OF 2(1) assms(2)] show ?thesis by simp
  qed
qed

lemma merge_steps_keyed:
  assumes "merge_step\<^sup>*\<^sup>* userMap userMap'"
    and "distinct (map fst userMap)" and "\<forall>p\<in>set userMap. userId (snd p) = fst p"
  shows "distinct (map fst userMap') \<and> (\<forall>p\<in>set userMap'. userId (snd p) = fst p)"
  using assms
proof (induction rule: rtranclp_induct)
  case base
  then show ?case by simp
next
  case (step y z)
  then have "distinct (map fst y) \<and> (\<forall>p\<in>set y. userId (snd p) = fst p)" by simp
  with merge_step_keyed [OF step.hyps(2)] show ?case by simp
qed

lemma org_loop_keys:
  "org_loop orgUsers userMap its = Inr userMap' \<Longrightarrow>
   fst ` set userMap' = fst ` set userMap \<union> set (user_ids its)"
proof (induction its arbitrary: userMap)
  case Nil
  then show ?case by (simp add: user_ids_def)
next
  case (Cons m its)
  from Cons.prems obtain um1 where 1: "merge_org_item orgUsers userMap m = Inr um1"
      "org_loop orgUsers um1 its = Inr userMap'"
    by (auto split: sum.splits)
  from 1(1) have "fst ` set um1 = fst ` set userMap \<union> set (user_ids [m])"
    by (auto simp: merge_org_item_upsert user_ids_def dest!: upsert_dom split: if_splits)
  with Cons.IH [OF 1(2)] show ?case by (auto simp: user_ids_def)
qed

lemma space_loop_keys:
  "space_loop spaceUsers userMap its = Inr userMap' \<Longrightarrow>
   fst ` set userMap' = fst ` set userMap \<union> set (user_ids its)"
proof (induction its arbitrary: userMap)
  case Nil
  then show ?case by (simp add: user_ids_def)
next
  case (Cons m its)
  from Cons.prems obtain um1 where 1: "merge_space_item spaceUsers userMap m = Inr um1"
      "space_loop spaceUsers um1 its = Inr userMap'"
    by (auto split: sum.splits)
  from 1(1) have "fst ` set um1 = fst ` set userMap \<union> set (user_ids [m])"
    by (auto simp: merge_space_item_upsert user_ids_def dest!: upsert_dom split: if_splits)
  with Cons.IH [OF 1(2)] show ?case by (auto simp: user_ids_def)
qed

lemma team_loop_keys:
  "team_loop userMap es = Inr userMap' \<Longrightarrow> fst ` set userMap' = fst ` set userMap \<union> fst ` set es"
proof (induction es arbitrary: userMap)
  case Nil
  then show ?case by simp
next
  case (Cons e es)
  from Cons.prems obtain um1 where 1: "merge_team_entry userMap e = Inr um1"
      "team_loop um1 es = Inr userMap'"
    by (auto split: sum.splits)
  from 1(1) have "fst ` set um1 = insert (fst e) (fst ` set userMap)"
    by (auto simp: merge_team_entry_upsert dest!: upsert_dom)
  with Cons.IH [OF 1(2)] show ?case by auto
qed

lemma Object_entries_distinct:
  assumes "distinct (map fst obj)"
  shows "distinct (map fst (Object_entries obj))"
proof -
  from assms have d: "distinct obj" and i: "inj_on fst (set obj)"
    by (simp_all add: distinct_map)
  have "distinct (Object_entries obj)"
    using d by (auto simp: Object_entries_def)
  moreover have "inj_on fst (set (Object_entries obj))"
    using i by (simp add: set_Object_entries)
  ultimately show ?thesis by (simp add: distinct_map)
qed

lemma length_Object_entries: "length (Object_entries obj) = length obj"
proof -
  have "length (filter P obj) + length (filter (\<lambda>p. \<not> P p) obj) = length obj" for P
    by (induction obj) auto
  from this [of "\<lambda>p. array_index (fst p) \<noteq> None"] show ?thesis
    by (simp add: Object_entries_def)
qed
section \<open>Serialization\<close>

text \<open>
  Claim C8.  When the three passes have built the final map, \<open>finalData\<close> holds one
  row for each record of the map; the user identifiers of the rows are pairwise
  different and are exactly the identifiers met in the organization memberships, in
  the space memberships or as keys of the user-to-teams map.  Every row has the six
  properties \<open>userId\<close>, \<open>email\<close>, \<open>name\<close>, \<open>orgRoles\<close>, \<open>spaceRoles\<close>, \<open>teams\<close> --
  the fields given to the parser, in this order -- and its last three values are the
  three lists of the record joined with a semicolon and a space.
\<close>

theorem one_row_per_user_six_columns:
  assumes "org_loop orgUsers [] orgItems = Inr um1"
    and "space_loop spaceUsers um1 spaceItems = Inr um2"
    and "team_loop um2 (Object_entries userToTeams) = Inr um3"
  shows "Parser_fields = [''userId'', ''email'', ''name'', ''orgRoles'', ''spaceRoles'', ''teams''] \<and>
     length (finalData um3) = length um3 \<and>
     distinct (map (\<lambda>row. map_of row ''userId'') (finalData um3)) \<and>
     set (map (\<lambda>row. map_of row ''userId'') (finalData um3)) =
       Some ` (set (user_ids orgItems) \<union> set (user_ids spaceItems) \<union> fst ` set userToTeams) \<and>
     (\<forall>row\<in>set (finalData um3). map fst row = Parser_fields \<and> length row = 6 \<and>
        (\<exists>u. map_of um3 (userId u) = Some u \<and>
           row = [(''userId'', userId u), (''email'', email u), (''name'', name u),
                  (''orgRoles'', join (js ''; '') (orgRoles u)),
                  (''spaceRoles'', join (js ''; '') (spaceRoles u)),
                  (''teams'', join (js ''; '') (map or_empty (teams u)))]))"
proof -
  have "merge_step\<^sup>*\<^sup>* [] um1" using assms(1) by (rule org_loop_steps)
  also have "merge_step\<^sup>*\<^sup>* um1 um2" using assms(2) by (rule space_loop_steps)
  also have "merge_step\<^sup>*\<^sup>* um2 um3" using assms(3) by (rule team_loop_steps)
  finally have "distinct (map fst um3) \<and> (\<forall>p\<in>set um3. userId (snd p) = fst p)"
    by (rule merge_steps_keyed) simp_all
  then have d: "distinct (map fst um3)" and ids: "\<forall>p\<in>set um3. userId (snd p) = fst p"
    by simp_all
  have keys: "fst ` set um3 =
      set (user_ids orgItems) \<union> set (user_ids spaceItems) \<union> fst ` set userToTeams"
    using org_loop_keys [OF assms(1)] space_loop_keys [OF assms(2)] team_loop_keys [OF assms(3)]
    by (simp add: set_Object_entries)
  have cells: "map (\<lambda>row. map_of row ''userId'') (finalData um3) =
      map (\<lambda>p. Some (fst p)) (Object_entries um3)"
    using ids by (simp add: finalData_def Object_values_def final_row_def set_Object_entries)
  have 1: "distinct (map (\<lambda>row. map_of row ''userId'') (finalData um3))"
    unfolding cells using Object_entries_distinct [OF d]
    by (simp add: distinct_map inj_on_def)
  have 2: "set (map (\<lambda>row. map_of row ''userId'') (finalData um3)) =
       Some ` (set (user_ids orgItems) \<union> set (user_ids spaceItems) \<union> fst ` set userToTeams)"
    unfolding cells keys [symmetric] by (simp add: set_Object_entries image_image)
  have 3: "length (finalData um3) = length um3"
    by (simp add: finalData_def Object_values_def length_Object_entries)
  have 4: "map fst row = Parser_fields \<and> length row = 6 \<and>
        (\<exists>u. map_of um3 (userId u) = Some u \<and>
           row = [(''userId'', userId u), (''email'', email u), (''name'', name u),
                  (''orgRoles'', join (js ''; '') (orgRoles u)),
                  (''spaceRoles'', join (js ''; '') (spaceRoles u)),
                  (''teams'', join (js ''; '') (map or_empty (teams u)))])"
    if "row \<in> set (finalData um3)" for row
  proof -
    from that obtain p where p: "p \<in> set um3" "row = final_row (snd p)"
      by (auto simp: finalData_def set_Object_values)
    with ids have "(userId (snd p), snd p) \<in> set um3" by (cases p) auto
    with d have "map_of um3 (userId (snd p)) = Some (snd p)" by simp
    with p(2) show ?thesis by (auto simp: final_row_def Parser_fields_def)
  qed
  have 5: "Parser_fields = [''userId'', ''email'', ''name'', ''orgRoles'', ''spaceRoles'', ''teams'']"
    by (simp add: Parser_fields_def)
  from 1 2 3 4 5 show ?thesis by blast
qed

theorem one_row_per_user_six_columns_witness:
  "org_loop [js ''U1'' \<mapsto> \<lparr>user_sys_id = Some (js ''U1''), user_email = Some (js ''a@b''),
                               firstName = Some (js ''Ann''), lastName = Some (js ''Lee'')\<rparr>] []
     [\<lparr>sys_id = None, sys_user_sys_id = Some (js ''U1''), item_name = None, admin = True,
       roles = None, role = None\<rparr>]
   = Inr [(js ''U1'', \<lparr>userId = js ''U1'', email = js ''a@b'', name = js ''Ann Lee'',
                       orgRoles = [js ''Admin''], spaceRoles = [], teams = []\<rparr>)] \<and>
   space_loop Map.empty
     [(js ''U1'', \<lparr>userId = js ''U1'', email = js ''a@b'', name = js ''Ann Lee'',
                   orgRoles = [js ''Admin''], spaceRoles = [], teams = []\<rparr>)]
     [\<lparr>sys_id = None, sys_user_sys_id = Some (js ''U1''), item_name = None, admin = False,
       roles = Some [RoleEntry (Some (js ''Editor'')), RoleEntry (Some (js ''Author''))],
       role = None\<rparr>]
   = Inr [(js ''U1'', \<lparr>userId = js ''U1'', email = js ''a@b'', name = js ''Ann Lee'',
                       orgRoles = [js ''Admin''], spaceRoles = [js ''Editor'', js ''Author''],
                       teams = []\<rparr>)] \<and>
   team_loop
     [(js ''U1'', \<lparr>userId = js ''U1'', email = js ''a@b'', name = js ''Ann Lee'',
                   orgRoles = [js ''Admin''], spaceRoles = [js ''Editor'', js ''Author''],
                   teams = []\<rparr>)]
     (Object_entries [(js ''U1'', [Some (js ''Design'')]), (js ''7'', [Some (js ''Design''), None])])
   = Inr [(js ''U1'', \<lparr>userId = js ''U1'', email = js ''a@b'', name = js ''Ann Lee'',
                       orgRoles = [js ''Admin''], spaceRoles = [js ''Editor'', js ''Author''],
                       teams = [Some (js ''Design'')]\<rparr>),
          (js ''7'', \<lparr>userId = js ''7'', email = [], name = [],
                      orgRoles = [], spaceRoles = [], teams = [Some (js ''Design''), None]\<rparr>)] \<and>
   finalData
     [(js ''U1'', \<lparr>userId = js ''U1'', email = js ''a@b'', name = js ''Ann Lee'',
                   orgRoles = [js ''Admin''], spaceRoles = [js ''Editor'', js ''Author''],
                   teams = [Some (js ''Design'')]\<rparr>),
      (js ''7'', \<lparr>userId = js ''7'', email = [], name = [],
                  orgRoles = [], spaceRoles = [], teams = [Some (js ''Design''), None]\<rparr>)]
   = [[(''userId'', js ''7''), (''email'', []), (''name'', []), (''orgRoles'', []),
       (''spaceRoles'', []), (''teams'', js ''Design; '')],
      [(''userId'', js ''U1''), (''email'', js ''a@b''), (''name'', js ''Ann Lee''),
       (''orgRoles'', js ''Admin''), (''spaceRoles'', js ''Editor; Author''),
       (''teams'', js ''Design'')]] \<and>
   distinct (map (\<lambda>row. map_of row ''userId'') (finalData
     [(js ''U1'', \<lparr>userId = js ''U1'', email = js ''a@b'', name = js ''Ann Lee'',
                   orgRoles = [js ''Admin''], spaceRoles = [js ''Editor'', js ''Author''],
                   teams = [Some (js ''Design'')]\<rparr>),
      (js ''7'', \<lparr>userId = js ''7'', email = [], name = [],
                  orgRoles = [], spaceRoles = [], teams = [Some (js ''Design''), None]\<rparr>)]))"
proof -
  let ?ou = "[js ''U1'' \<mapsto> \<lparr>user_sys_id = Some (js ''U1''), user_email = Some (js ''a@b''),
                               firstName = Some (js ''Ann''), lastName = Some (js ''Lee'')\<rparr>]"
  let ?o = "\<lparr>sys_id = None, sys_user_sys_id = Some (js ''U1''), item_name = None, admin = True,
       roles = None, role = None\<rparr>"
  let ?s = "\<lparr>sys_id = None, sys_user_sys_id = Some (js ''U1''), item_name = None, admin = False,
       roles = Some [RoleEntry (Some (js ''Editor'')), RoleEntry (Some (js ''Author''))],
       role = None\<rparr>"
  let ?t = "[(js ''U1'', [Some (js ''Design'')]), (js ''7'', [Some (js ''Design''), None])]"
  let ?A = "[(js ''U1'', \<lparr>userId = js ''U1'', email = js ''a@b'', name = js ''Ann Lee'',
                       orgRoles = [js ''Admin''], spaceRoles = [], teams = []\<rparr>)]"
  let ?B = "[(js ''U1'', \<lparr>userId = js ''U1'', email = js ''a@b'', name = js ''Ann Lee'',
                       orgRoles = [js ''Admin''], spaceRoles = [js ''Editor'', js ''Author''],
                       teams = []\<rparr>)]"
  let ?C = "[(js ''U1'', \<lparr>userId = js ''U1'', email = js ''a@b'', name = js ''Ann Lee'',
                       orgRoles = [js ''Admin''], spaceRoles = [js ''Editor'', js ''Author''],
                       teams = [Some (js ''Design'')]\<rparr>),
          (js ''7'', \<lparr>userId = js ''7'', email = [], name = [],
                      orgRoles = [], spaceRoles = [], teams = [Some (js ''Design''), None]\<rparr>)]"
  have 1: "org_loop ?ou [] [?o] = Inr ?A"
    by (simp add: merge_org_item_def get_prop_def set_prop_def getRoleNames_def
        Set_spread_def js_def Let_def Object_prototype_names_def email_of_def
        display_name_def trim_def is_white_space_def)
  have 2: "space_loop Map.empty ?A [?s] = Inr ?B"
    by (simp add: merge_space_item_def get_prop_def set_prop_def getRoleNames_def
        push_role_name_def Set_spread_def js_def Let_def)
  have e: "Object_entries ?t = [(js ''7'', [Some (js ''Design''), None]), (js ''U1'', [Some (js ''Design'')])]"
    by (simp add: Object_entries_def array_index_def is_digit_def digits_value_def js_def)
  have 3: "team_loop ?B (Object_entries ?t) = Inr ?C"
    unfolding e
    by (simp add: merge_team_entry_def get_prop_def set_prop_def
        Set_spread_def js_def Let_def Object_prototype_names_def)
  have 4: "finalData ?C
   = [[(''userId'', js ''7''), (''email'', []), (''name'', []), (''orgRoles'', []),
       (''spaceRoles'', []), (''teams'', js ''Design; '')],
      [(''userId'', js ''U1''), (''email'', js ''a@b''), (''name'', js ''Ann Lee''),
       (''orgRoles'', js ''Admin''), (''spaceRoles'', js ''Editor; Author''),
       (''teams'', js ''Design'')]]"
    by (simp add: finalData_def Object_values_def Object_entries_def array_index_def
        is_digit_def digits_value_def final_row_def js_def)
  from one_row_per_user_six_columns [OF 1 2 3] 1 2 3 4 show ?thesis by blast
qed

lemma fetch_loop_fail:
  "get (page_request cfg u inc sk) = Inl message \<Longrightarrow>
   fetch_loop cfg get u inc sk st =
     Some (st\<lparr>events := events st @ [Get (page_request cfg u inc sk), Error_fetching u message]\<rparr>)"
  by (subst fetch_loop.simps) simp

lemma fetch_loop_last:
  "get (page_request cfg u inc sk) = Inr data \<Longrightarrow> total_of data \<le> int (sk + 100) \<Longrightarrow>
   fetch_loop cfg get u inc sk st =
     Some (take_page (st\<lparr>events := events st @ [Get (page_request cfg u inc sk)]\<rparr>) data)"
  by (subst fetch_loop.simps) simp

lemma fetch_loop_next:
  "get (page_request cfg u inc sk) = Inr data \<Longrightarrow> \<not> total_of data \<le> int (sk + 100) \<Longrightarrow>
   fetch_loop cfg get u inc sk st =
     fetch_loop cfg get u inc (sk + 100)
       (take_page (st\<lparr>events := events st @ [Get (page_request cfg u inc sk)]\<rparr>) data)"
  by (subst fetch_loop.simps) simp

lemma after_pages_0: "after_pages cfg u inc sk pg st 0 = st"
  by (simp add: after_pages_def)

lemma after_pages_Suc:
  "after_pages cfg u inc sk pg st (Suc k) =
     take_page ((after_pages cfg u inc sk pg st k)
                  \<lparr>events := events (after_pages cfg u inc sk pg st k) @
                             [Get (page_request cfg u inc (sk + 100 * k))]\<rparr>) (pg k)"
  by (simp add: after_pages_def)

lemma fetch_loop_pages:
  assumes "\<forall>j<k. get (page_request cfg u inc (sk + 100 * j)) = Inr (pg j) \<and>
                  \<not> total_of (pg j) \<le> int (sk + 100 * j + 100)"
  shows "fetch_loop cfg get u inc sk st =
         fetch_loop cfg get u inc (sk + 100 * k) (after_pages cfg u inc sk pg st k)"
  using assms
proof (induction k)
  case 0
  show ?case by (simp add: after_pages_0)
next
  case (Suc k)
  then have "fetch_loop cfg get u inc sk st =
         fetch_loop cfg get u inc (sk + 100 * k) (after_pages cfg u inc sk pg st k)"
    by simp
  also from Suc.prems have "\<dots> = fetch_loop cfg get u inc (sk + 100 * k + 100)
       (take_page ((after_pages cfg u inc sk pg st k)
                  \<lparr>events := events (after_pages cfg u inc sk pg st k) @
                             [Get (page_request cfg u inc (sk + 100 * k))]\<rparr>) (pg k))"
    by (intro fetch_loop_next) simp_all
  finally show ?case by (simp add: after_pages_Suc add.commute add.left_commute)
qed

lemma after_pages_allItems:
  "allItems (after_pages cfg u inc sk pg st k) =
     allItems st @ concat (map (\<lambda>j. items_of (pg j)) [0..<k])"
  by (induction k) (simp_all add: after_pages_0 after_pages_Suc take_page_def)

lemma after_pages_allUsers:
  "allUsers (after_pages cfg u inc sk pg st k) =
     foldl (\<lambda>users j. add_users users (pg j)) (allUsers st) [0..<k]"
  by (induction k) (simp_all add: after_pages_0 after_pages_Suc take_page_def)

lemma after_pages_events:
  "events (after_pages cfg u inc sk pg st k) =
     events st @ map (\<lambda>j. Get (page_request cfg u inc (sk + 100 * j))) [0..<k]"
  by (induction k) (simp_all add: after_pages_0 after_pages_Suc take_page_def)

lemma after_pages_record:
  "after_pages cfg u inc sk pg st k =
     \<lparr>allItems = allItems st @ concat (map (\<lambda>j. items_of (pg j)) [0..<k]),
      allUsers = foldl (\<lambda>users j. add_users users (pg j)) (allUsers st) [0..<k],
      events = events st @ map (\<lambda>j. Get (page_request cfg u inc (sk + 100 * j))) [0..<k]\<rparr>"
  by (rule fetched.equality)
     (simp_all add: after_pages_allItems after_pages_allUsers after_pages_events)

lemma pages_needed:
  fixes T :: int
  assumes "n = nat (max 1 (- ((- T) div 100)))"
  shows "1 \<le> n" and "T \<le> int (100 * (n - 1) + 100)"
    and "\<And>j. Suc j < n \<Longrightarrow> \<not> T \<le> int (100 * j + 100)"
  using assms by auto
section \<open>Pagination\<close>

text \<open>
  Claim C2.  When every page of a call reports the same total \<open>T\<close> (a missing total
  counts as 0), the paginated fetch returns after exactly \<open>max 1 \<lceil>T / 100\<rceil>\<close> requests,
  sent at the offsets 0, 100, 200, ... with limit 100, and its items are the items of
  these pages one after another, in the order of the pages; no warning is logged.
  With a total of 250 these are the three requests at offsets 0, 100 and 200, and
  pages of 100, 100 and 50 items give 250 items; with a total of 0 there is one
  request and the result is what that page holds, nothing when it is empty.
\<close>

theorem fetch_requests_until_total:
  assumes "\<forall>j<n. get (page_request cfg u inc (100 * j)) = Inr (pg j) \<and> total_of (pg j) = T"
    and "n = nat (max 1 (- ((- T) div 100)))"
  shows "fetchPagedDataWithIncludes cfg get u inc =
     Some \<lparr>allItems = concat (map (\<lambda>j. items_of (pg j)) [0..<n]),
           allUsers = foldl (\<lambda>users j. add_users users (pg j)) Map.empty [0..<n],
           events = map (\<lambda>j. Get (page_request cfg u inc (100 * j))) [0..<n]\<rparr>"
proof -
  let ?st = "\<lparr>allItems = [], allUsers = Map.empty, events = []\<rparr>"
  obtain k where k: "n = Suc k"
    using pages_needed(1) [OF assms(2)] by (cases n) auto
  have more: "\<forall>j<k. get (page_request cfg u inc (0 + 100 * j)) = Inr (pg j) \<and>
                  \<not> total_of (pg j) \<le> int (0 + 100 * j + 100)"
    using assms(1) pages_needed(3) [OF assms(2)] k by auto
  have last: "get (page_request cfg u inc (0 + 100 * k)) = Inr (pg k)"
      "total_of (pg k) \<le> int (0 + 100 * k + 100)"
    using assms(1) pages_needed(2) [OF assms(2)] k by auto
  have "fetchPagedDataWithIncludes cfg get u inc =
        fetch_loop cfg get u inc (0 + 100 * k) (after_pages cfg u inc 0 pg ?st k)"
    unfolding fetchPagedDataWithIncludes_def using more by (rule fetch_loop_pages)
  also have "\<dots> = Some (after_pages cfg u inc 0 pg ?st (Suc k))"
    using last by (simp add: fetch_loop_last after_pages_Suc)
  finally show ?thesis by (simp add: k after_pages_record)
qed

theorem fetch_requests_until_total_witness:
  "map_option events
     (fetchPagedDataWithIncludes \<lparr>MANAGEMENT_API_KEY = js ''key'', ORGANIZATION_ID = js ''org''\<rparr>
        (\<lambda>r. Inr \<lparr>items = Some (replicate (if skip r < 200 then 100 else 50)
                                 \<lparr>sys_id = None, sys_user_sys_id = Some (js ''U1''), item_name = None,
                                  admin = True, roles = None, role = None\<rparr>),
                  total = Some 250, includes_User = None\<rparr>)
        (js ''https://api.contentful.com/organizations/org/space_memberships'') (js ''sys.user''))
   = Some [Get \<lparr>url = js ''https://api.contentful.com/organizations/org/space_memberships'',
                Authorization = js ''Bearer key'', limit = 100, skip = 0,
                include_param = js ''sys.user''\<rparr>,
           Get \<lparr>url = js ''https://api.contentful.com/organizations/org/space_memberships'',
                Authorization = js ''Bearer key'', limit = 100, skip = 100,
                include_param = js ''sys.user''\<rparr>,
           Get \<lparr>url = js ''https://api.contentful.com/organizations/org/space_memberships'',
                Authorization = js ''Bearer key'', limit = 100, skip = 200,
                include_param = js ''sys.user''\<rparr>] \<and>
   map_option (\<lambda>r. length (allItems r))
     (fetchPagedDataWithIncludes \<lparr>MANAGEMENT_API_KEY = js ''key'', ORGANIZATION_ID = js ''org''\<rparr>
        (\<lambda>r. Inr \<lparr>items = Some (replicate (if skip r < 200 then 100 else 50)
                                 \<lparr>sys_id = None, sys_user_sys_id = Some (js ''U1''), item_name = None,
                                  admin = True, roles = None, role = None\<rparr>),
                  total = Some 250, includes_User = None\<rparr>)
        (js ''https://api.contentful.com/organizations/org/space_memberships'') (js ''sys.user''))
   = Some 250 \<and>
   fetchPagedDataWithIncludes \<lparr>MANAGEMENT_API_KEY = js ''key'', ORGANIZATION_ID = js ''org''\<rparr>
        (\<lambda>r. Inr \<lparr>items = Some [], total = Some 0, includes_User = None\<rparr>)
        (js ''https://api.contentful.com/organizations/org/teams'') []
   = Some \<lparr>allItems = [], allUsers = Map.empty,
           events = [Get \<lparr>url = js ''https://api.contentful.com/organizations/org/teams'',
                          Authorization = js ''Bearer key'', limit = 100, skip = 0,
                          include_param = []\<rparr>]\<rparr>"
proof -
  let ?cfg = "\<lparr>MANAGEMENT_API_KEY = js ''key'', ORGANIZATION_ID = js ''org''\<rparr>"
  let ?i = "\<lparr>sys_id = None, sys_user_sys_id = Some (js ''U1''), item_name = None,
             admin = True, roles = None, role = None\<rparr>"
  let ?get = "\<lambda>r::request. Inr \<lparr>items = Some (replicate (if skip r < 200 then 100 else 50) ?i),
                        total = Some 250, includes_User = None\<rparr>"
  let ?pg = "\<lambda>j::nat. \<lparr>items = Some (replicate (if 100 * j < 200 then 100 else 50) ?i),
                  total = Some 250, includes_User = None\<rparr>"
  let ?u = "js ''https://api.contentful.com/organizations/org/space_memberships''"
  let ?gz = "\<lambda>r::request. Inr \<lparr>items = Some [], total = Some 0, includes_User = None\<rparr> :: response"
  let ?pz = "\<lambda>j::nat. \<lparr>items = Some [], total = Some 0, includes_User = None\<rparr>"
  let ?t = "js ''https://api.contentful.com/organizations/org/teams''"
  have three: "[0..<3] = [0, 1, 2]" by (simp add: upt_rec)
  have one: "[0..<1] = [0]" by simp
  have a: "\<forall>j<3. ?get (page_request ?cfg ?u (js ''sys.user'') (100 * j)) = Inr (?pg j) \<and>
                 total_of (?pg j) = 250"
    by (simp add: page_request_def total_of_def)
  have b: "(3::nat) = nat (max 1 (- ((- 250) div 100)))" by simp
  have c: "\<forall>j<1. ?gz (page_request ?cfg ?t [] (100 * j)) = Inr (?pz j) \<and> total_of (?pz j) = 0"
    by (simp add: total_of_def)
  have d: "(1::nat) = nat (max 1 (- ((- 0) div 100)))" by simp
  from fetch_requests_until_total [of 3 ?get ?cfg ?u "js ''sys.user''" ?pg 250, OF a b]
       fetch_requests_until_total [of 1 ?gz ?cfg ?t "[]" ?pz 0, OF c d]
  show ?thesis
    unfolding three one
    by (simp add: items_of_def add_users_def page_request_def js_def)
qed

lemma then_run_of_result_Inr: "then_run (of_result (Inr a)) f = f a"
  by (cases "f a") (auto simp: then_run_def of_result_def)

lemma then_run_Some_Inr:
  "then_run (Some (Inr a, evs)) f =
     (case f a of None \<Rightarrow> None | Some (r, evs') \<Rightarrow> Some (r, evs @ evs'))"
  by (simp add: then_run_def)

lemma then_run_returns:
  assumes "then_run m f = Some (Inr b, evs)"
  obtains a e1 e2 where "m = Some (Inr a, e1)" "f a = Some (Inr b, e2)" "evs = e1 @ e2"
  using assms
  by (auto simp: then_run_def split: option.splits sum.splits prod.splits)

lemma merge_org_item_spaceRoles:
  assumes "merge_org_item orgUsers userMap m = Inr userMap'"
    and "\<forall>p\<in>set userMap. spaceRoles (snd p) = []"
  shows "\<forall>p\<in>set userMap'. spaceRoles (snd p) = []"
proof (cases "truthy (sys_user_sys_id m)")
  case False
  with assms show ?thesis by (simp add: merge_org_item_upsert)
next
  case True
  with assms(1) have "upsert userMap (or_empty (sys_user_sys_id m))
             \<lparr>userId = or_empty (sys_user_sys_id m),
              email = email_of (orgUsers (or_empty (sys_user_sys_id m))),
              name = display_name (orgUsers (or_empty (sys_user_sys_id m))),
              orgRoles = [], spaceRoles = [], teams = []\<rparr>
             (\<lambda>u. u\<lparr>orgRoles := Set_spread (orgRoles u @ getRoleNames m)\<rparr>) = Inr userMap'"
    by (simp add: merge_org_item_upsert)
  then show ?thesis
    by (rule upsert_all [where P = "\<lambda>u. spaceRoles u = []"]) (simp_all add: assms(2))
qed

lemma org_loop_spaceRoles:
  "org_loop orgUsers userMap its = Inr userMap' \<Longrightarrow>
   \<forall>p\<in>set userMap. spaceRoles (snd p) = [] \<Longrightarrow>
   \<forall>p\<in>set userMap'. spaceRoles (snd p) = []"
proof (induction its arbitrary: userMap)
  case Nil
  then show ?case by simp
next
  case (Cons m its)
  from Cons.prems(1) obtain um1 where 1: "merge_org_item orgUsers userMap m = Inr um1"
      "org_loop orgUsers um1 its = Inr userMap'"
    by (auto split: sum.splits)
  from merge_org_item_spaceRoles [OF 1(1) Cons.prems(2)] 1(2) show ?case
    by (intro Cons.IH)
qed

lemma merge_team_entry_spaceRoles:
  assumes "merge_team_entry userMap e = Inr userMap'"
    and "\<forall>p\<in>set userMap. spaceRoles (snd p) = []"
  shows "\<forall>p\<in>set userMap'. spaceRoles (snd p) = []"
proof -
  from assms(1) have "upsert userMap (fst e)
       \<lparr>userId = fst e, email = [], name = [], orgRoles = [], spaceRoles = [], teams = []\<rparr>
       (\<lambda>u. u\<lparr>teams := Set_spread (teams u @ snd e)\<rparr>) = Inr userMap'"
    by (simp add: merge_team_entry_upsert)
  then show ?thesis
    by (rule upsert_all [where P = "\<lambda>u. spaceRoles u = []"]) (simp_all add: assms(2))
qed

lemma team_loop_spaceRoles:
  "team_loop userMap es = Inr userMap' \<Longrightarrow>
   \<forall>p\<in>set userMap. spaceRoles (snd p) = [] \<Longrightarrow>
   \<forall>p\<in>set userMap'. spaceRoles (snd p) = []"
proof (induction es arbitrary: userMap)
  case Nil
  then show ?case by simp
next
  case (Cons e es)
  from Cons.prems(1) obtain um1 where 1: "merge_team_entry userMap e = Inr um1"
      "team_loop um1 es = Inr userMap'"
    by (auto split: sum.splits)
  from merge_team_entry_spaceRoles [OF 1(1) Cons.prems(2)] 1(2) show ?case
    by (intro Cons.IH)
qed

lemma fetch_fails_after:
  assumes "\<forall>j<k. get (page_request cfg u inc (100 * j)) = Inr (pg j) \<and>
                  \<not> total_of (pg j) \<le> int (100 * j + 100)"
    and "get (page_request cfg u inc (100 * k)) = Inl message"
  shows "fetchPagedDataWithIncludes cfg get u inc =
     Some \<lparr>allItems = concat (map (\<lambda>j. items_of (pg j)) [0..<k]),
           allUsers = foldl (\<lambda>users j. add_users users (pg j)) Map.empty [0..<k],
           events = map (\<lambda>j. Get (page_request cfg u inc (100 * j))) [0..<k] @
                    [Get (page_request cfg u inc (100 * k)), Error_fetching u message]\<rparr>"
proof -
  let ?st = "\<lparr>allItems = [], allUsers = Map.empty, events = []\<rparr>"
  have "fetchPagedDataWithIncludes cfg get u inc =
        fetch_loop cfg get u inc (0 + 100 * k) (after_pages cfg u inc 0 pg ?st k)"
    unfolding fetchPagedDataWithIncludes_def using assms(1) by (intro fetch_loop_pages) simp
  also have "\<dots> = Some ((after_pages cfg u inc 0 pg ?st k)
        \<lparr>events := events (after_pages cfg u inc 0 pg ?st k) @
           [Get (page_request cfg u inc (100 * k)), Error_fetching u message]\<rparr>)"
    using assms(2) by (simp add: fetch_loop_fail)
  finally show ?thesis by (simp add: after_pages_record)
qed

lemma space_fetch_fails:
  assumes "get (page_request cfg (space_memberships_url cfg) (js ''sys.user'') 0) = Inl message"
  shows "fetchSpaceMemberships cfg get =
     Some \<lparr>allItems = [], allUsers = Map.empty,
           events = [Get (page_request cfg (space_memberships_url cfg) (js ''sys.user'') 0),
                     Error_fetching (space_memberships_url cfg) message]\<rparr>"
  using fetch_fails_after [of 0 get cfg "space_memberships_url cfg" "js ''sys.user''" undefined message]
    assms
  by (simp add: fetchSpaceMemberships_def)
section \<open>Lemmas on the whole run\<close>

lemma fetch_first_fails:
  "get (page_request cfg u inc 0) = Inl message \<Longrightarrow>
   fetchPagedDataWithIncludes cfg get u inc =
     Some \<lparr>allItems = [], allUsers = Map.empty,
           events = [Get (page_request cfg u inc 0), Error_fetching u message]\<rparr>"
  by (simp add: fetchPagedDataWithIncludes_def fetch_loop_fail)

lemma collect_offline:
  assumes "\<forall>r. get r = Inl message"
  shows "collect cfg get =
     Some (Inr [],
           [Get (page_request cfg (organization_memberships_url cfg) (js ''sys.user'') 0),
            Error_fetching (organization_memberships_url cfg) message,
            Get (page_request cfg (space_memberships_url cfg) (js ''sys.user'') 0),
            Error_fetching (space_memberships_url cfg) message,
            Get (page_request cfg (teams_url cfg) [] 0),
            Error_fetching (teams_url cfg) message])"
  using assms
  by (simp add: collect_def fetchOrganizationMemberships_def fetchSpaceMemberships_def
      fetchTeamMemberships_def fetch_first_fails await_fetch_def then_run_def of_result_def
      Object_entries_def)

lemma run_script_success:
  assumes "collect cfg (http w) = Some (Inr userMap, evs)"
    and "json2csv w Parser_fields (finalData userMap) = Inr csv"
    and "writeFileSync w (js ''contentful_users.csv'') csv = None"
  shows "run_script cfg w =
     Some \<lparr>status = 0,
           trace = evs @ [Write_file (js ''contentful_users.csv'') csv,
                          Console_log (js ''Wrote contentful_users.csv with user + role + team data.'')]\<rparr>"
  using assms
  by (simp add: run_script_def main_def try_block_def write_file_def emit_def then_run_def
      of_result_def)

lemma try_block_write_fails:
  assumes "collect cfg (http w) = Some (Inr userMap, evs)"
    and "json2csv w Parser_fields (finalData userMap) = Inr csv"
    and "writeFileSync w (js ''contentful_users.csv'') csv = Some e"
  shows "try_block cfg w = Some (Inl e, evs)"
  using assms
  by (simp add: try_block_def write_file_def emit_def then_run_def of_result_def)

lemma run_script_caught:
  assumes "try_block cfg w = Some (Inl e, evs)"
  shows "run_script cfg w = Some \<lparr>status = 0, trace = evs @ [Script_error e]\<rparr>"
  using assms by (simp add: run_script_def main_def)

lemma run_script_status: "run_script cfg w = Some r \<Longrightarrow> status r = 0"
  by (auto simp: run_script_def main_def split: option.splits sum.splits prod.splits)

section \<open>The end of the process\<close>

text \<open>
  Claim C1, as the code has it.  On the success path -- the three passes return, the
  parser returns the text and the write succeeds -- the run writes the file
  \<open>contentful_users.csv\<close>, logs that it did and the process ends with status 0.  A
  failure thrown inside the main function, such as a failing write, is caught by its
  \<open>catch\<close> clause and logged as a script error after everything the run did before;
  the process then ends with status 0 as well.  Every run that ends, ends with
  status 0.
\<close>

theorem failures_are_logged_and_exit_status_is_zero:
  "(collect cfg (http w) = Some (Inr userMap, evs) \<and>
    json2csv w Parser_fields (finalData userMap) = Inr csv \<and>
    writeFileSync w (js ''contentful_users.csv'') csv = None \<longrightarrow>
      run_script cfg w =
        Some \<lparr>status = 0,
              trace = evs @ [Write_file (js ''contentful_users.csv'') csv,
                             Console_log (js ''Wrote contentful_users.csv with user + role + team data.'')]\<rparr>) \<and>
   (collect cfg (http w) = Some (Inr userMap, evs) \<and>
    json2csv w Parser_fields (finalData userMap) = Inr csv \<and>
    writeFileSync w (js ''contentful_users.csv'') csv = Some e \<longrightarrow>
      try_block cfg w = Some (Inl e, evs)) \<and>
   (try_block cfg w = Some (Inl e, evs) \<longrightarrow>
      run_script cfg w = Some \<lparr>status = 0, trace = evs @ [Script_error e]\<rparr>) \<and>
   (run_script cfg w = Some r \<longrightarrow> status r = 0)"
  using run_script_success [of cfg w userMap evs csv] try_block_write_fails [of cfg w userMap evs csv e]
    run_script_caught [of cfg w e evs] run_script_status [of cfg w r]
  by blast

theorem failures_are_logged_and_exit_status_is_zero_witness:
  "run_script example_config (offline_world None) =
     Some \<lparr>status = 0,
           trace =
             [Get (page_request example_config (organization_memberships_url example_config)
                     (js ''sys.user'') 0),
              Error_fetching (organization_memberships_url example_config) (js ''offline''),
              Get (page_request example_config (space_memberships_url example_config)
                     (js ''sys.user'') 0),
              Error_fetching (space_memberships_url example_config) (js ''offline''),
              Get (page_request example_config (teams_url example_config) [] 0),
              Error_fetching (teams_url example_config) (js ''offline''),
              Write_file (js ''contentful_users.csv'')
                (js ''userId,email,name,orgRoles,spaceRoles,teams''),
              Console_log (js ''Wrote contentful_users.csv with user + role + team data.'')]\<rparr> \<and>
   try_block example_config (offline_world (Some (Fs_error (js ''EACCES'')))) =
     Some (Inl (Fs_error (js ''EACCES'')),
           [Get (page_request example_config (organization_memberships_url example_config)
                   (js ''sys.user'') 0),
            Error_fetching (organization_memberships_url example_config) (js ''offline''),
            Get (page_request example_config (space_memberships_url example_config)
                   (js ''sys.user'') 0),
            Error_fetching (space_memberships_url example_config) (js ''offline''),
            Get (page_request example_config (teams_url example_config) [] 0),
            Error_fetching (teams_url example_config) (js ''offline'')])"
proof -
  let ?evs = "[Get (page_request example_config (organization_memberships_url example_config)
                   (js ''sys.user'') 0),
            Error_fetching (organization_memberships_url example_config) (js ''offline''),
            Get (page_request example_config (space_memberships_url example_config)
                   (js ''sys.user'') 0),
            Error_fetching (space_memberships_url example_config) (js ''offline''),
            Get (page_request example_config (teams_url example_config) [] 0),
            Error_fetching (teams_url example_config) (js ''offline'')]"
  let ?csv = "js ''userId,email,name,orgRoles,spaceRoles,teams''"
  have c: "collect example_config (http (offline_world wr)) = Some (Inr [], ?evs)" for wr
    by (rule collect_offline) (simp add: offline_world_def)
  have p: "json2csv (offline_world wr) Parser_fields (finalData []) = Inr ?csv" for wr
    by (simp add: offline_world_def)
  have ok: "writeFileSync (offline_world None) (js ''contentful_users.csv'') ?csv = None"
    by (simp add: offline_world_def)
  have bad: "writeFileSync (offline_world (Some (Fs_error (js ''EACCES''))))
               (js ''contentful_users.csv'') ?csv = Some (Fs_error (js ''EACCES''))"
    by (simp add: offline_world_def)
  from failures_are_logged_and_exit_status_is_zero
         [where cfg = example_config and w = "offline_world None" and userMap = "[]"
            and evs = ?evs and csv = ?csv] c p ok
  have 1: "run_script example_config (offline_world None) =
     Some \<lparr>status = 0,
           trace = ?evs @ [Write_file (js ''contentful_users.csv'') ?csv,
              Console_log (js ''Wrote contentful_users.csv with user + role + team data.'')]\<rparr>"
    by blast
  from failures_are_logged_and_exit_status_is_zero
         [where cfg = example_config and w = "offline_world (Some (Fs_error (js ''EACCES'')))"
            and userMap = "[]" and evs = ?evs and csv = ?csv and e = "Fs_error (js ''EACCES'')"]
       c p bad
  have 2: "try_block example_config (offline_world (Some (Fs_error (js ''EACCES'')))) =
     Some (Inl (Fs_error (js ''EACCES'')), ?evs)"
    by blast
  from 1 2 show ?thesis by simp
qed

text \<open>
  The claim C1 says that a failing write ends the process with a status other than 0.
  In the example environment with a disk that cannot be written, the failure is logged
  and the status is 0.
\<close>

theorem write_failure_exits_with_status_zero:
  "run_script example_config (offline_world (Some (Fs_error (js ''EACCES'')))) =
     Some \<lparr>status = 0,
           trace =
             [Get (page_request example_config (organization_memberships_url example_config)
                     (js ''sys.user'') 0),
              Error_fetching (organization_memberships_url example_config) (js ''offline''),
              Get (page_request example_config (space_memberships_url example_config)
                     (js ''sys.user'') 0),
              Error_fetching (space_memberships_url example_config) (js ''offline''),
              Get (page_request example_config (teams_url example_config) [] 0),
              Error_fetching (teams_url example_config) (js ''offline''),
              Script_error (Fs_error (js ''EACCES''))]\<rparr>"
proof -
  have "collect example_config (http (offline_world (Some (Fs_error (js ''EACCES''))))) =
     Some (Inr [],
       [Get (page_request example_config (organization_memberships_url example_config)
                     (js ''sys.user'') 0),
        Error_fetching (organization_memberships_url example_config) (js ''offline''),
        Get (page_request example_config (space_memberships_url example_config)
                     (js ''sys.user'') 0),
        Error_fetching (space_memberships_url example_config) (js ''offline''),
        Get (page_request example_config (teams_url example_config) [] 0),
        Error_fetching (teams_url example_config) (js ''offline'')])"
    by (rule collect_offline) (simp add: offline_world_def)
  then have "try_block example_config (offline_world (Some (Fs_error (js ''EACCES'')))) =
     Some (Inl (Fs_error (js ''EACCES'')),
       [Get (page_request example_config (organization_memberships_url example_config)
                     (js ''sys.user'') 0),
        Error_fetching (organization_memberships_url example_config) (js ''offline''),
        Get (page_request example_config (space_memberships_url example_config)
                     (js ''sys.user'') 0),
        Error_fetching (space_memberships_url example_config) (js ''offline''),
        Get (page_request example_config (teams_url example_config) [] 0),
        Error_fetching (teams_url example_config) (js ''offline'')])"
    by (rule try_block_write_fails) (simp_all add: offline_world_def)
  then show ?thesis by (simp add: run_script_caught)
qed

section \<open>Lemmas on the exact result of a merge step\<close>

lemma unioned_Set_spread: "distinct old \<Longrightarrow> Set_spread (old @ new) = unioned old new"
  by (simp add: Set_spread_append unioned_def Set_add_all_collapse)

lemma unioned_Set_spread_Nil: "Set_spread new = unioned [] new"
  using unioned_Set_spread [of "[]" new] by simp

lemma upsert_result:
  assumes "upsert userMap k fresh f = Inr userMap'"
  shows "map_of userMap' k = Some (f (case map_of userMap k of None \<Rightarrow> fresh | Some u \<Rightarrow> u))"
  unfolding upsert_Inr(1) [OF assms] by (simp add: update_conv')

lemma sets_deduplicated_lookup:
  "sets_deduplicated userMap \<Longrightarrow> map_of userMap k = Some u \<Longrightarrow> deduplicated u"
  by (auto simp: sets_deduplicated_def list_all_iff dest!: map_of_SomeD)

lemma org_step_exact:
  assumes "merge_org_item orgUsers userMap m = Inr userMap'"
    and "sets_deduplicated userMap" and "truthy (sys_user_sys_id m)"
  shows "(\<exists>u'. map_of userMap' (or_empty (sys_user_sys_id m)) = Some u' \<and>
            orgRoles u' =
              unioned (case map_of userMap (or_empty (sys_user_sys_id m)) of
                         None \<Rightarrow> [] | Some u \<Rightarrow> orgRoles u) (getRoleNames m) \<and>
            spaceRoles u' =
              (case map_of userMap (or_empty (sys_user_sys_id m)) of
                 None \<Rightarrow> [] | Some u \<Rightarrow> spaceRoles u) \<and>
            teams u' =
              (case map_of userMap (or_empty (sys_user_sys_id m)) of
                 None \<Rightarrow> [] | Some u \<Rightarrow> teams u)) \<and>
         (\<forall>k. k \<noteq> or_empty (sys_user_sys_id m) \<longrightarrow> map_of userMap' k = map_of userMap k)"
proof -
  let ?k = "or_empty (sys_user_sys_id m)"
  let ?f = "\<lambda>u. u\<lparr>orgRoles := Set_spread (orgRoles u @ getRoleNames m)\<rparr>"
  from assms(1,3) have up: "upsert userMap ?k
             \<lparr>userId = ?k, email = email_of (orgUsers ?k), name = display_name (orgUsers ?k),
              orgRoles = [], spaceRoles = [], teams = []\<rparr> ?f = Inr userMap'"
    by (simp add: merge_org_item_upsert)
  have "distinct (case map_of userMap ?k of None \<Rightarrow> [] | Some u \<Rightarrow> orgRoles u)"
    using sets_deduplicated_lookup [OF assms(2), of ?k]
    by (auto simp: deduplicated_def split: option.splits)
  then show ?thesis
    using upsert_result [OF up] upsert_other [OF up]
    by (cases "map_of userMap ?k") (auto simp: unioned_Set_spread unioned_Set_spread_Nil [symmetric])
qed

lemma space_step_exact:
  assumes "merge_space_item spaceUsers userMap m = Inr userMap'"
    and "sets_deduplicated userMap" and "truthy (sys_user_sys_id m)"
  shows "(\<exists>u'. map_of userMap' (or_empty (sys_user_sys_id m)) = Some u' \<and>
            spaceRoles u' =
              unioned (case map_of userMap (or_empty (sys_user_sys_id m)) of
                         None \<Rightarrow> [] | Some u \<Rightarrow> spaceRoles u) (getRoleNames m) \<and>
            orgRoles u' =
              (case map_of userMap (or_empty (sys_user_sys_id m)) of
                 None \<Rightarrow> [] | Some u \<Rightarrow> orgRoles u) \<and>
            teams u' =
              (case map_of userMap (or_empty (sys_user_sys_id m)) of
                 None \<Rightarrow> [] | Some u \<Rightarrow> teams u)) \<and>
         (\<forall>k. k \<noteq> or_empty (sys_user_sys_id m) \<longrightarrow> map_of userMap' k = map_of userMap k)"
proof -
  let ?k = "or_empty (sys_user_sys_id m)"
  let ?f = "\<lambda>u. u\<lparr>spaceRoles := Set_spread (spaceRoles u @ getRoleNames m)\<rparr>"
  from assms(1,3) have up: "upsert userMap ?k
             \<lparr>userId = ?k, email = email_of (spaceUsers ?k), name = display_name (spaceUsers ?k),
              orgRoles = [], spaceRoles = [], teams = []\<rparr> ?f = Inr userMap'"
    by (simp add: merge_space_item_upsert)
  have "distinct (case map_of userMap ?k of None \<Rightarrow> [] | Some u \<Rightarrow> spaceRoles u)"
    using sets_deduplicated_lookup [OF assms(2), of ?k]
    by (auto simp: deduplicated_def split: option.splits)
  then show ?thesis
    using upsert_result [OF up] upsert_other [OF up]
    by (cases "map_of userMap ?k") (auto simp: unioned_Set_spread unioned_Set_spread_Nil [symmetric])
qed

lemma team_step_exact:
  assumes "merge_team_entry userMap entry = Inr userMap'"
    and "sets_deduplicated userMap"
  shows "(\<exists>u'. map_of userMap' (fst entry) = Some u' \<and>
            teams u' =
              unioned (case map_of userMap (fst entry) of None \<Rightarrow> [] | Some u \<Rightarrow> teams u)
                      (snd entry) \<and>
            orgRoles u' = (case map_of userMap (fst entry) of None \<Rightarrow> [] | Some u \<Rightarrow> orgRoles u) \<and>
            spaceRoles u' =
              (case map_of userMap (fst entry) of None \<Rightarrow> [] | Some u \<Rightarrow> spaceRoles u)) \<and>
         (\<forall>k. k \<noteq> fst entry \<longrightarrow> map_of userMap' k = map_of userMap k)"
proof -
  let ?k = "fst entry"
  let ?f = "\<lambda>u. u\<lparr>teams := Set_spread (teams u @ snd entry)\<rparr>"
  from assms(1) have up: "upsert userMap ?k
       \<lparr>userId = ?k, email = [], name = [], orgRoles = [], spaceRoles = [], teams = []\<rparr> ?f
       = Inr userMap'"
    by (simp add: merge_team_entry_upsert)
  have "distinct (case map_of userMap ?k of None \<Rightarrow> [] | Some u \<Rightarrow> teams u)"
    using sets_deduplicated_lookup [OF assms(2), of ?k]
    by (auto simp: deduplicated_def split: option.splits)
  then show ?thesis
    using upsert_result [OF up] upsert_other [OF up]
    by (cases "map_of userMap ?k") (auto simp: unioned_Set_spread unioned_Set_spread_Nil [symmetric])
qed

lemma push_team_exact:
  assumes "push_team teamName userToTeams m = Inr userToTeams'"
    and "truthy (sys_user_sys_id m)"
  shows "map_of userToTeams' (or_empty (sys_user_sys_id m)) =
           Some ((case map_of userToTeams (or_empty (sys_user_sys_id m)) of
                    None \<Rightarrow> [] | Some ts \<Rightarrow> ts) @ [teamName]) \<and>
         (\<forall>k. k \<noteq> or_empty (sys_user_sys_id m) \<longrightarrow> map_of userToTeams' k = map_of userToTeams k)"
  using assms
  by (auto simp: push_team_def Let_def get_prop_def set_prop_def update_conv'
      split: option.splits if_splits)
lemma merge_step_keeps:
  "sets_deduplicated [] \<and>
   (merge_step userMap userMap' \<and> sets_deduplicated userMap \<longrightarrow>
      sets_deduplicated userMap' \<and>
      (\<forall>k u. map_of userMap k = Some u \<longrightarrow>
         (\<exists>u'. map_of userMap' k = Some u' \<and> keeps_order u u')))"
proof (rule conjI, simp add: sets_deduplicated_def, rule impI)
  assume a: "merge_step userMap userMap' \<and> sets_deduplicated userMap"
  then have inv: "\<forall>p\<in>set userMap. deduplicated (snd p)"
    by (simp add: sets_deduplicated_def list_all_iff)
  from a merge_step_upsert consider "userMap' = userMap"
    | k fresh f where "upsert userMap k fresh f = Inr userMap'" "deduplicated fresh"
        "\<forall>u. deduplicated u \<longrightarrow> deduplicated (f u) \<and> keeps_order u (f u)"
    by blast
  then show "sets_deduplicated userMap' \<and>
      (\<forall>k u. map_of userMap k = Some u \<longrightarrow>
         (\<exists>u'. map_of userMap' k = Some u' \<and> keeps_order u u'))"
  proof cases
    case 1
    with a show ?thesis by (simp add: keeps_order_refl)
  next
    case 2
    have "\<forall>p\<in>set userMap'. deduplicated (snd p)"
      using 2(1) _ 2(2) inv by (rule upsert_all) (simp add: 2(3))
    then have s: "sets_deduplicated userMap'"
      by (simp add: sets_deduplicated_def list_all_iff)
    have "\<exists>u'. map_of userMap' j = Some u' \<and> keeps_order u u'" if "map_of userMap j = Some u" for j u
    proof -
      from that inv have "deduplicated u" by (auto dest!: map_of_SomeD)
      with 2(3) have "keeps_order u (f u)" by simp
      with 2(1) that show ?thesis by (rule upsert_related) (rule keeps_order_refl)
    qed
    with s show ?thesis by blast
  qed
qed
section \<open>The invariant of the unified record map\<close>

text \<open>
  Claim C7.  The empty map has no duplicate in any list, and every merge step of the
  three passes keeps it so: after the step no organization-role, space-role or
  team-name list of any record holds a name twice, and every record that was in the
  map is still there under its identifier.  The lists are in the order of first
  encounter.  A step of the organization pass for a user leaves the role names the
  record had in their places and puts after them, in the order in which
  \<open>getRoleNames\<close> lists them, the names that are new; for a record created by the
  step the list had been empty.  The other two lists of that record, and every other
  record, are as before.  The same holds of a step of the space pass and the
  space-role list, and of a step of the team pass, the team-name list and the team
  names of the entry.  The team names of an entry are themselves in the order in which
  the teams were met: the team-membership loop puts each team name after those the
  user already has, and leaves the other users' lists as they are.
\<close>

theorem merge_step_invariant:
  "sets_deduplicated [] \<and>
   (merge_step userMap userMap' \<and> sets_deduplicated userMap \<longrightarrow>
      sets_deduplicated userMap' \<and>
      (\<forall>k u. map_of userMap k = Some u \<longrightarrow>
         (\<exists>u'. map_of userMap' k = Some u' \<and> keeps_order u u'))) \<and>
   (merge_org_item orgUsers userMap m = Inr userMap' \<and> sets_deduplicated userMap \<and>
    truthy (sys_user_sys_id m) \<longrightarrow>
      (\<exists>u'. map_of userMap' (or_empty (sys_user_sys_id m)) = Some u' \<and>
            orgRoles u' =
              unioned (case map_of userMap (or_empty (sys_user_sys_id m)) of
                         None \<Rightarrow> [] | Some u \<Rightarrow> orgRoles u) (getRoleNames m) \<and>
            spaceRoles u' =
              (case map_of userMap (or_empty (sys_user_sys_id m)) of
                 None \<Rightarrow> [] | Some u \<Rightarrow> spaceRoles u) \<and>
            teams u' =
              (case map_of userMap (or_empty (sys_user_sys_id m)) of
                 None \<Rightarrow> [] | Some u \<Rightarrow> teams u)) \<and>
      (\<forall>k. k \<noteq> or_empty (sys_user_sys_id m) \<longrightarrow> map_of userMap' k = map_of userMap k)) \<and>
   (merge_space_item spaceUsers userMap m = Inr userMap' \<and> sets_deduplicated userMap \<and>
    truthy (sys_user_sys_id m) \<longrightarrow>
      (\<exists>u'. map_of userMap' (or_empty (sys_user_sys_id m)) = Some u' \<and>
            spaceRoles u' =
              unioned (case map_of userMap (or_empty (sys_user_sys_id m)) of
                         None \<Rightarrow> [] | Some u \<Rightarrow> spaceRoles u) (getRoleNames m) \<and>
            orgRoles u' =
              (case map_of userMap (or_empty (sys_user_sys_id m)) of
                 None \<Rightarrow> [] | Some u \<Rightarrow> orgRoles u) \<and>
            teams u' =
              (case map_of userMap (or_empty (sys_user_sys_id m)) of
                 None \<Rightarrow> [] | Some u \<Rightarrow> teams u)) \<and>
      (\<forall>k. k \<noteq> or_empty (sys_user_sys_id m) \<longrightarrow> map_of userMap' k = map_of userMap k)) \<and>
   (merge_team_entry userMap entry = Inr userMap' \<and> sets_deduplicated userMap \<longrightarrow>
      (\<exists>u'. map_of userMap' (fst entry) = Some u' \<and>
            teams u' =
              unioned (case map_of userMap (fst entry) of None \<Rightarrow> [] | Some u \<Rightarrow> teams u)
                      (snd entry) \<and>
            orgRoles u' = (case map_of userMap (fst entry) of None \<Rightarrow> [] | Some u \<Rightarrow> orgRoles u) \<and>
            spaceRoles u' =
              (case map_of userMap (fst entry) of None \<Rightarrow> [] | Some u \<Rightarrow> spaceRoles u)) \<and>
      (\<forall>k. k \<noteq> fst entry \<longrightarrow> map_of userMap' k = map_of userMap k)) \<and>
   (push_team teamName userToTeams m = Inr userToTeams' \<and> truthy (sys_user_sys_id m) \<longrightarrow>
      map_of userToTeams' (or_empty (sys_user_sys_id m)) =
        Some ((case map_of userToTeams (or_empty (sys_user_sys_id m)) of
                 None \<Rightarrow> [] | Some ts \<Rightarrow> ts) @ [teamName]) \<and>
      (\<forall>k. k \<noteq> or_empty (sys_user_sys_id m) \<longrightarrow> map_of userToTeams' k = map_of userToTeams k))"
  using merge_step_keeps [of userMap userMap']
    org_step_exact [of orgUsers userMap m userMap']
    space_step_exact [of spaceUsers userMap m userMap']
    team_step_exact [of userMap entry userMap']
    push_team_exact [of teamName userToTeams m userToTeams']
  by (intro conjI impI) (erule conjE, (erule conjE)?, blast)+

theorem merge_step_invariant_witness:
  "merge_org_item Map.empty
     [(js ''U1'', \<lparr>userId = js ''U1'', email = js ''a@b'', name = js ''Ann'',
                   orgRoles = [js ''Admin''], spaceRoles = [], teams = []\<rparr>)]
     \<lparr>sys_id = None, sys_user_sys_id = Some (js ''U1''), item_name = None, admin = False,
      roles = Some [RoleEntry (Some (js ''Editor'')), RoleEntry (Some (js ''Admin'')),
                    RoleEntry (Some (js ''Author''))],
      role = None\<rparr>
   = Inr [(js ''U1'', \<lparr>userId = js ''U1'', email = js ''a@b'', name = js ''Ann'',
                       orgRoles = [js ''Admin'', js ''Editor'', js ''Author''],
                       spaceRoles = [], teams = []\<rparr>)] \<and>
   sets_deduplicated
     [(js ''U1'', \<lparr>userId = js ''U1'', email = js ''a@b'', name = js ''Ann'',
                   orgRoles = [js ''Admin'', js ''Editor'', js ''Author''],
                   spaceRoles = [], teams = []\<rparr>)] \<and>
   (\<exists>u'. map_of [(js ''U1'', \<lparr>userId = js ''U1'', email = js ''a@b'', name = js ''Ann'',
                   orgRoles = [js ''Admin'', js ''Editor'', js ''Author''],
                   spaceRoles = [], teams = []\<rparr>)] (js ''U1'') = Some u' \<and>
         keeps_order \<lparr>userId = js ''U1'', email = js ''a@b'', name = js ''Ann'',
                       orgRoles = [js ''Admin''], spaceRoles = [], teams = []\<rparr> u' \<and>
         orgRoles u' = [js ''Admin'', js ''Editor'', js ''Author''] \<and>
         spaceRoles u' = [] \<and> teams u' = []) \<and>
   merge_space_item Map.empty
     [(js ''U1'', \<lparr>userId = js ''U1'', email = js ''a@b'', name = js ''Ann'',
                   orgRoles = [js ''Admin''], spaceRoles = [js ''Author''], teams = []\<rparr>)]
     \<lparr>sys_id = None, sys_user_sys_id = Some (js ''U1''), item_name = None, admin = True,
      roles = Some [RoleEntry (Some (js ''Editor'')), RoleEntry (Some (js ''Author''))],
      role = Some (js ''Owner'')\<rparr>
   = Inr [(js ''U1'', \<lparr>userId = js ''U1'', email = js ''a@b'', name = js ''Ann'',
                       orgRoles = [js ''Admin''],
                       spaceRoles = [js ''Author'', js ''Admin'', js ''Editor'', js ''Owner''],
                       teams = []\<rparr>)] \<and>
   (\<exists>u'. map_of [(js ''U1'', \<lparr>userId = js ''U1'', email = js ''a@b'', name = js ''Ann'',
                       orgRoles = [js ''Admin''],
                       spaceRoles = [js ''Author'', js ''Admin'', js ''Editor'', js ''Owner''],
                       teams = []\<rparr>)] (js ''U1'') = Some u' \<and>
         spaceRoles u' = [js ''Author'', js ''Admin'', js ''Editor'', js ''Owner''] \<and>
         orgRoles u' = [js ''Admin'']) \<and>
   merge_team_entry
     [(js ''U1'', \<lparr>userId = js ''U1'', email = js ''a@b'', name = js ''Ann'',
                   orgRoles = [js ''Admin''], spaceRoles = [], teams = []\<rparr>)]
     (js ''U2'', [Some (js ''Design''), Some (js ''Ops''), Some (js ''Design''), Some (js ''Web'')])
   = Inr [(js ''U1'', \<lparr>userId = js ''U1'', email = js ''a@b'', name = js ''Ann'',
                       orgRoles = [js ''Admin''], spaceRoles = [], teams = []\<rparr>),
          (js ''U2'', \<lparr>userId = js ''U2'', email = [], name = [], orgRoles = [], spaceRoles = [],
                       teams = [Some (js ''Design''), Some (js ''Ops''), Some (js ''Web'')]\<rparr>)] \<and>
   (\<exists>u'. map_of [(js ''U1'', \<lparr>userId = js ''U1'', email = js ''a@b'', name = js ''Ann'',
                       orgRoles = [js ''Admin''], spaceRoles = [], teams = []\<rparr>),
                 (js ''U2'', \<lparr>userId = js ''U2'', email = [], name = [], orgRoles = [],
                              spaceRoles = [],
                              teams = [Some (js ''Design''), Some (js ''Ops''), Some (js ''Web'')]\<rparr>)]
              (js ''U2'') = Some u' \<and>
         teams u' = [Some (js ''Design''), Some (js ''Ops''), Some (js ''Web'')]) \<and>
   push_team (Some (js ''Ops'')) [(js ''U2'', [Some (js ''Design'')])]
     \<lparr>sys_id = None, sys_user_sys_id = Some (js ''U2''), item_name = None, admin = False,
      roles = None, role = None\<rparr>
   = Inr [(js ''U2'', [Some (js ''Design''), Some (js ''Ops'')])] \<and>
   map_of [(js ''U2'', [Some (js ''Design''), Some (js ''Ops'')])] (js ''U2'') =
     Some [Some (js ''Design''), Some (js ''Ops'')]"
proof -
  let ?r = "\<lparr>userId = js ''U1'', email = js ''a@b'', name = js ''Ann'',
             orgRoles = [js ''Admin''], spaceRoles = [], teams = []\<rparr>"
  let ?A = "[(js ''U1'', ?r)]"
  let ?B = "[(js ''U1'', \<lparr>userId = js ''U1'', email = js ''a@b'', name = js ''Ann'',
                   orgRoles = [js ''Admin'', js ''Editor'', js ''Author''],
                   spaceRoles = [], teams = []\<rparr>)]"
  let ?m = "\<lparr>sys_id = None, sys_user_sys_id = Some (js ''U1''), item_name = None, admin = False,
      roles = Some [RoleEntry (Some (js ''Editor'')), RoleEntry (Some (js ''Admin'')),
                    RoleEntry (Some (js ''Author''))],
      role = None\<rparr>"
  let ?S = "[(js ''U1'', \<lparr>userId = js ''U1'', email = js ''a@b'', name = js ''Ann'',
                            orgRoles = [js ''Admin''], spaceRoles = [js ''Author''], teams = []\<rparr>)]"
  let ?s = "\<lparr>sys_id = None, sys_user_sys_id = Some (js ''U1''), item_name = None, admin = True,
               roles = Some [RoleEntry (Some (js ''Editor'')), RoleEntry (Some (js ''Author''))],
               role = Some (js ''Owner'')\<rparr>"
  let ?e = "(js ''U2'', [Some (js ''Design''), Some (js ''Ops''), Some (js ''Design''), Some (js ''Web'')])"
  let ?T = "[(js ''U2'', [Some (js ''Design'')])]"
  let ?p = "\<lparr>sys_id = None, sys_user_sys_id = Some (js ''U2''), item_name = None, admin = False,
             roles = None, role = None\<rparr>"
  let ?V = "[(js ''U1'', \<lparr>userId = js ''U1'', email = js ''a@b'', name = js ''Ann'',
                       orgRoles = [js ''Admin''],
                       spaceRoles = [js ''Author'', js ''Admin'', js ''Editor'', js ''Owner''],
                       teams = []\<rparr>)]"
  let ?W = "[(js ''U1'', ?r),
             (js ''U2'', \<lparr>userId = js ''U2'', email = [], name = [], orgRoles = [], spaceRoles = [],
                          teams = [Some (js ''Design''), Some (js ''Ops''), Some (js ''Web'')]\<rparr>)]"
  let ?X = "[(js ''U2'', [Some (js ''Design''), Some (js ''Ops'')])]"
  have dA: "sets_deduplicated ?A" and dS: "sets_deduplicated ?S"
    by (simp_all add: sets_deduplicated_def deduplicated_def)
  have idm: "truthy (sys_user_sys_id ?m)" and ids: "truthy (sys_user_sys_id ?s)"
    and idp: "truthy (sys_user_sys_id ?p)"
    by (simp_all add: js_def)
  have org: "merge_org_item Map.empty ?A ?m = Inr ?B"
    by (simp add: merge_org_item_def get_prop_def set_prop_def getRoleNames_def push_role_name_def
        Set_spread_def js_def Let_def)
  then have step: "merge_step ?A ?B" by (rule org_step)
  have found: "map_of ?A (js ''U1'') = Some ?r" by simp
  note thm1 = merge_step_invariant
      [where userMap = ?A and userMap' = ?B and orgUsers = Map.empty and m = ?m]
  note kept = thm1 [THEN conjunct2, THEN conjunct1, THEN mp, OF conjI [OF step dA]]
  from kept have 1: "sets_deduplicated ?B" by (rule conjunct1)
  from kept [THEN conjunct2, THEN spec, THEN spec, THEN mp, OF found]
  have 2: "\<exists>u'. map_of ?B (js ''U1'') = Some u' \<and> keeps_order ?r u'" .
  from thm1 [THEN conjunct2, THEN conjunct2, THEN conjunct1, THEN mp,
             OF conjI [OF org conjI [OF dA idm]], THEN conjunct1]
  have 3: "\<exists>u'. map_of ?B (js ''U1'') = Some u' \<and>
      orgRoles u' = [js ''Admin'', js ''Editor'', js ''Author''] \<and> spaceRoles u' = [] \<and> teams u' = []"
    by simp
  from 2 3 have 23: "\<exists>u'. map_of ?B (js ''U1'') = Some u' \<and> keeps_order ?r u' \<and>
      orgRoles u' = [js ''Admin'', js ''Editor'', js ''Author''] \<and> spaceRoles u' = [] \<and> teams u' = []"
    by auto
  have v: "merge_space_item Map.empty ?S ?s = Inr ?V"
    by (simp add: merge_space_item_def get_prop_def set_prop_def getRoleNames_def
        push_role_name_def Set_spread_def js_def Let_def)
  from merge_step_invariant
         [where userMap = ?S and userMap' = ?V and spaceUsers = Map.empty and m = ?s,
          THEN conjunct2, THEN conjunct2, THEN conjunct2, THEN conjunct1, THEN mp,
          OF conjI [OF v conjI [OF dS ids]], THEN conjunct1]
  have 4: "\<exists>u'. map_of ?V (js ''U1'') = Some u' \<and>
      spaceRoles u' = [js ''Author'', js ''Admin'', js ''Editor'', js ''Owner''] \<and>
      orgRoles u' = [js ''Admin'']"
    by simp
  have w: "merge_team_entry ?A ?e = Inr ?W"
    by (simp add: merge_team_entry_def get_prop_def set_prop_def Let_def
        Object_prototype_names_def Set_spread_def js_def)
  from merge_step_invariant
         [where userMap = ?A and userMap' = ?W and entry = ?e,
          THEN conjunct2, THEN conjunct2, THEN conjunct2, THEN conjunct2, THEN conjunct1, THEN mp,
          OF conjI [OF w dA], THEN conjunct1]
  have 5: "\<exists>u'. map_of ?W (js ''U2'') = Some u' \<and>
      teams u' = [Some (js ''Design''), Some (js ''Ops''), Some (js ''Web'')]"
    by (simp add: js_def)
  have x: "push_team (Some (js ''Ops'')) ?T ?p = Inr ?X"
    by (simp add: push_team_def get_prop_def set_prop_def Let_def js_def)
  from merge_step_invariant
         [where teamName = "Some (js ''Ops'')" and userToTeams = ?T and m = ?p and userToTeams' = ?X,
          THEN conjunct2, THEN conjunct2, THEN conjunct2, THEN conjunct2, THEN conjunct2, THEN mp,
          OF conjI [OF x idp], THEN conjunct1]
  have 6: "map_of ?X (js ''U2'') = Some [Some (js ''Design''), Some (js ''Ops'')]"
    by simp
  from org 1 23 v 4 w 5 x 6 show ?thesis by (intro conjI)
qed

section \<open>Lemmas on the side-table and on what the passes produce\<close>

lemma side_table_Nil: "side_table [] = Map.empty"
  by (rule ext) (simp add: side_table_def)

lemma side_table_last:
  "side_table us k =
     (if filter (\<lambda>u. truthy (user_sys_id u) \<and> or_empty (user_sys_id u) = k) us = [] then None
      else Some (last (filter (\<lambda>u. truthy (user_sys_id u) \<and> or_empty (user_sys_id u) = k) us)))"
  unfolding side_table_def
  by (cases "filter (\<lambda>u. truthy (user_sys_id u) \<and> or_empty (user_sys_id u) = k) us") simp_all

lemma side_table_snoc_truthy:
  "truthy (user_sys_id u) \<Longrightarrow>
   side_table (us @ [u]) = (side_table us)(or_empty (user_sys_id u) \<mapsto> u)"
  by (rule ext) (simp add: side_table_last)

lemma side_table_snoc_falsy:
  "\<not> truthy (user_sys_id u) \<Longrightarrow> side_table (us @ [u]) = side_table us"
  by (rule ext) (simp add: side_table_last)

lemma foldl_set_user: "foldl set_user users us = users ++ side_table us"
proof (induction us rule: rev_induct)
  case Nil
  show ?case by (simp add: side_table_Nil)
next
  case (snoc u us)
  have "foldl set_user users (us @ [u]) = set_user (foldl set_user users us) u" by simp
  also have "\<dots> = set_user (users ++ side_table us) u" by (simp only: snoc)
  also have "\<dots> = users ++ side_table (us @ [u])"
  proof (cases "truthy (user_sys_id u)")
    case True
    have "set_user (users ++ side_table us) u =
          (users ++ side_table us)(or_empty (user_sys_id u) \<mapsto> u)"
      using True by (simp add: set_user_def)
    also have "\<dots> = users ++ (side_table us)(or_empty (user_sys_id u) \<mapsto> u)"
      by (rule map_add_upd [symmetric])
    finally show ?thesis by (simp only: side_table_snoc_truthy [OF True])
  next
    case False
    then show ?thesis by (simp add: set_user_def side_table_snoc_falsy)
  qed
  finally show ?case .
qed

lemma add_users_included: "add_users users data = foldl set_user users (included_users data)"
  by (simp add: add_users_def included_users_def split: option.splits)

lemma foldl_add_users:
  "foldl (\<lambda>users j. add_users users (pg j)) users idxs =
     foldl set_user users (concat (map (\<lambda>j. included_users (pg j)) idxs))"
  by (induction idxs arbitrary: users) (simp_all add: add_users_included)

lemma pages_side_table:
  "foldl (\<lambda>users j. add_users users (pg j)) Map.empty idxs =
     side_table (concat (map (\<lambda>j. included_users (pg j)) idxs))"
  by (simp add: foldl_add_users foldl_set_user)

lemma upsert_grows:
  assumes "upsert userMap j fresh f = Inr userMap'" and "map_of userMap k = Some u"
    and "\<And>u. set (orgRoles u) \<subseteq> set (orgRoles (f u)) \<and> set (teams u) \<subseteq> set (teams (f u))"
  shows "\<exists>u'. map_of userMap' k = Some u' \<and>
              set (orgRoles u) \<subseteq> set (orgRoles u') \<and> set (teams u) \<subseteq> set (teams u')"
  using assms(1,2)
  by (rule upsert_related
        [where R = "\<lambda>u u'. set (orgRoles u) \<subseteq> set (orgRoles u') \<and> set (teams u) \<subseteq> set (teams u')"])
     (simp_all add: assms(3))

lemma merge_step_grows:
  assumes "merge_step userMap userMap'" "map_of userMap k = Some u"
  shows "\<exists>u'. map_of userMap' k = Some u' \<and>
              set (orgRoles u) \<subseteq> set (orgRoles u') \<and> set (teams u) \<subseteq> set (teams u')"
  using assms(1)
proof cases
  case (org_step orgUsers m)
  then show ?thesis using assms(2)
    by (cases "truthy (sys_user_sys_id m)")
       (auto simp: merge_org_item_upsert Set_spread_set intro!: upsert_grows)
next
  case (space_step spaceUsers m)
  then show ?thesis using assms(2)
    by (cases "truthy (sys_user_sys_id m)")
       (auto simp: merge_space_item_upsert Set_spread_set intro!: upsert_grows)
next
  case (team_step entry)
  then show ?thesis using assms(2)
    by (auto simp: merge_team_entry_upsert Set_spread_set intro!: upsert_grows)
qed

lemma merge_steps_grow:
  assumes "merge_step\<^sup>*\<^sup>* userMap userMap'" "map_of userMap k = Some u"
  shows "\<exists>u'. map_of userMap' k = Some u' \<and>
              set (orgRoles u) \<subseteq> set (orgRoles u') \<and> set (teams u) \<subseteq> set (teams u')"
  using assms
proof (induction rule: rtranclp_induct)
  case base
  then show ?case by simp
next
  case (step y z)
  then obtain v where v: "map_of y k = Some v" "set (orgRoles u) \<subseteq> set (orgRoles v)"
      "set (teams u) \<subseteq> set (teams v)"
    by blast
  from merge_step_grows [OF step.hyps(2) v(1)] v(2,3) show ?case by blast
qed

lemma org_loop_produces:
  assumes "org_loop orgUsers userMap its = Inr userMap'"
    and "m \<in> set its" and "truthy (sys_user_sys_id m)"
  shows "\<exists>u. map_of userMap' (or_empty (sys_user_sys_id m)) = Some u \<and>
             set (getRoleNames m) \<subseteq> set (orgRoles u)"
  using assms(1,2)
proof (induction its arbitrary: userMap)
  case Nil
  then show ?case by simp
next
  case (Cons a its)
  from Cons.prems(1) obtain um1 where 1: "merge_org_item orgUsers userMap a = Inr um1"
      "org_loop orgUsers um1 its = Inr userMap'"
    by (auto split: sum.splits)
  show ?case
  proof (cases "m = a")
    case True
    let ?k = "or_empty (sys_user_sys_id m)"
    from 1(1) True assms(3) have "upsert userMap ?k
             \<lparr>userId = ?k, email = email_of (orgUsers ?k), name = display_name (orgUsers ?k),
              orgRoles = [], spaceRoles = [], teams = []\<rparr>
             (\<lambda>u. u\<lparr>orgRoles := Set_spread (orgRoles u @ getRoleNames m)\<rparr>) = Inr um1"
      by (simp add: merge_org_item_upsert)
    from upsert_result [OF this]
    obtain v where v: "map_of um1 ?k = Some v" "set (getRoleNames m) \<subseteq> set (orgRoles v)"
      by (auto simp: Set_spread_set)
    from merge_steps_grow [OF org_loop_steps [OF 1(2)] v(1)] v(2) show ?thesis by blast
  next
    case False
    with Cons.prems(2) have "m \<in> set its" by simp
    with 1(2) show ?thesis by (rule Cons.IH)
  qed
qed

lemma team_loop_produces:
  assumes "team_loop userMap es = Inr userMap'" and "(k, ts) \<in> set es"
  shows "\<exists>u. map_of userMap' k = Some u \<and> set ts \<subseteq> set (teams u)"
  using assms
proof (induction es arbitrary: userMap)
  case Nil
  then show ?case by simp
next
  case (Cons e es)
  from Cons.prems(1) obtain um1 where 1: "merge_team_entry userMap e = Inr um1"
      "team_loop um1 es = Inr userMap'"
    by (auto split: sum.splits)
  show ?case
  proof (cases "e = (k, ts)")
    case True
    with 1(1) have "upsert userMap k
       \<lparr>userId = k, email = [], name = [], orgRoles = [], spaceRoles = [], teams = []\<rparr>
       (\<lambda>u. u\<lparr>teams := Set_spread (teams u @ ts)\<rparr>) = Inr um1"
      by (simp add: merge_team_entry_upsert)
    from upsert_result [OF this]
    obtain v where v: "map_of um1 k = Some v" "set ts \<subseteq> set (teams v)"
      by (auto simp: Set_spread_set)
    from merge_steps_grow [OF team_loop_steps [OF 1(2)] v(1)] v(2) show ?thesis by blast
  next
    case False
    with Cons.prems(2) have "(k, ts) \<in> set es" by simp
    with 1(2) show ?thesis by (rule Cons.IH)
  qed
qed

lemma push_team_cases:
  assumes "push_team teamName userToTeams m = Inr userToTeams'"
  shows "(\<not> truthy (sys_user_sys_id m) \<and> userToTeams' = userToTeams) \<or>
         (truthy (sys_user_sys_id m) \<and>
          map_of userToTeams' = (map_of userToTeams)
            (or_empty (sys_user_sys_id m) \<mapsto>
               (case map_of userToTeams (or_empty (sys_user_sys_id m)) of
                  None \<Rightarrow> [] | Some ts \<Rightarrow> ts) @ [teamName]))"
  using assms
  by (auto simp: push_team_def Let_def get_prop_def set_prop_def update_conv'
      split: option.splits if_splits)

lemma push_team_grows:
  assumes "push_team teamName userToTeams m = Inr userToTeams'"
    and "map_of userToTeams k = Some ts"
  shows "\<exists>ts'. map_of userToTeams' k = Some ts' \<and> set ts \<subseteq> set ts'"
  using push_team_cases [OF assms(1)] assms(2) by auto

lemma team_members_loop_grows:
  assumes "team_members_loop teamName userToTeams its = Inr userToTeams'"
    and "map_of userToTeams k = Some ts"
  shows "\<exists>ts'. map_of userToTeams' k = Some ts' \<and> set ts \<subseteq> set ts'"
  using assms
proof (induction its arbitrary: userToTeams ts)
  case Nil
  then show ?case by simp
next
  case (Cons a its)
  from Cons.prems(1) obtain u1 where 1: "push_team teamName userToTeams a = Inr u1"
      "team_members_loop teamName u1 its = Inr userToTeams'"
    by (auto split: sum.splits)
  from push_team_grows [OF 1(1) Cons.prems(2)]
  obtain t1 where t1: "map_of u1 k = Some t1" "set ts \<subseteq> set t1" by blast
  from Cons.IH [OF 1(2) t1(1)] t1(2) show ?case by blast
qed

lemma team_members_loop_produces:
  assumes "team_members_loop teamName userToTeams its = Inr userToTeams'"
    and "m \<in> set its" and "truthy (sys_user_sys_id m)"
  shows "\<exists>ts. map_of userToTeams' (or_empty (sys_user_sys_id m)) = Some ts \<and> teamName \<in> set ts"
  using assms(1,2)
proof (induction its arbitrary: userToTeams)
  case Nil
  then show ?case by simp
next
  case (Cons a its)
  from Cons.prems(1) obtain u1 where 1: "push_team teamName userToTeams a = Inr u1"
      "team_members_loop teamName u1 its = Inr userToTeams'"
    by (auto split: sum.splits)
  show ?case
  proof (cases "m = a")
    case True
    with push_team_cases [OF 1(1)] assms(3)
    obtain t1 where t1: "map_of u1 (or_empty (sys_user_sys_id m)) = Some t1" "teamName \<in> set t1"
      by auto
    from team_members_loop_grows [OF 1(2) t1(1)] t1(2) show ?thesis by blast
  next
    case False
    with Cons.prems(2) have "m \<in> set its" by simp
    with 1(2) show ?thesis by (rule Cons.IH)
  qed
qed

lemma teams_loop_Cons_truthy:
  assumes "teams_loop cfg get userToTeams (team # rest) = Some (Inr userToTeams', evs)"
    and "truthy (sys_id team)"
  obtains f u1 e where
    "fetchPagedDataWithIncludes cfg get (team_memberships_url cfg (or_empty (sys_id team)))
       (js ''sys.user,sys.organizationMembership'') = Some f"
    "team_members_loop (item_name team) userToTeams (allItems f) = Inr u1"
    "teams_loop cfg get u1 rest = Some (Inr userToTeams', e)"
proof -
  from assms have run: "then_run (await_fetch (fetchPagedDataWithIncludes cfg get
                    (team_memberships_url cfg (or_empty (sys_id team)))
                    (js ''sys.user,sys.organizationMembership'')))
          (\<lambda>f. then_run (of_result (team_members_loop (item_name team) userToTeams (allItems f)))
             (\<lambda>userToTeams'. teams_loop cfg get userToTeams' rest)) = Some (Inr userToTeams', evs)"
    by simp
  from run obtain f e0 e1 where
    0: "await_fetch (fetchPagedDataWithIncludes cfg get
                    (team_memberships_url cfg (or_empty (sys_id team)))
                    (js ''sys.user,sys.organizationMembership'')) = Some (Inr f, e0)"
    and 1: "then_run (of_result (team_members_loop (item_name team) userToTeams (allItems f)))
             (\<lambda>userToTeams'. teams_loop cfg get userToTeams' rest) = Some (Inr userToTeams', e1)"
    and "evs = e0 @ e1"
    by (rule then_run_returns)
  from 1 obtain u1 e2 e3 where
    2: "of_result (team_members_loop (item_name team) userToTeams (allItems f)) = Some (Inr u1, e2)"
    and 3: "teams_loop cfg get u1 rest = Some (Inr userToTeams', e3)"
    and "e1 = e2 @ e3"
    by (rule then_run_returns)
  from 0 have "fetchPagedDataWithIncludes cfg get (team_memberships_url cfg (or_empty (sys_id team)))
       (js ''sys.user,sys.organizationMembership'') = Some f"
    by (auto simp: await_fetch_def split: option.splits)
  moreover from 2 have "team_members_loop (item_name team) userToTeams (allItems f) = Inr u1"
    by (simp add: of_result_def)
  ultimately show thesis using 3 by (rule that)
qed

lemma teams_loop_grows:
  assumes "teams_loop cfg get userToTeams tms = Some (Inr userToTeams', evs)"
    and "map_of userToTeams k = Some ts"
  shows "\<exists>ts'. map_of userToTeams' k = Some ts' \<and> set ts \<subseteq> set ts'"
  using assms
proof (induction tms arbitrary: userToTeams ts evs)
  case Nil
  then show ?case by (simp add: of_result_def)
next
  case (Cons team rest)
  show ?case
  proof (cases "truthy (sys_id team)")
    case False
    with Cons.prems(1) have "teams_loop cfg get userToTeams rest = Some (Inr userToTeams', evs)"
      by simp
    from Cons.IH [OF this Cons.prems(2)] show ?thesis .
  next
    case True
    from Cons.prems(1) True obtain f u1 e where
      "fetchPagedDataWithIncludes cfg get (team_memberships_url cfg (or_empty (sys_id team)))
         (js ''sys.user,sys.organizationMembership'') = Some f"
      and 1: "team_members_loop (item_name team) userToTeams (allItems f) = Inr u1"
      and 2: "teams_loop cfg get u1 rest = Some (Inr userToTeams', e)"
      by (rule teams_loop_Cons_truthy)
    from team_members_loop_grows [OF 1 Cons.prems(2)]
    obtain t1 where t1: "map_of u1 k = Some t1" "set ts \<subseteq> set t1" by blast
    from Cons.IH [OF 2 t1(1)] t1(2) show ?thesis by blast
  qed
qed

lemma teams_loop_produces:
  assumes "teams_loop cfg get userToTeams tms = Some (Inr userToTeams', evs)"
    and "team \<in> set tms" and "truthy (sys_id team)"
  shows "\<exists>f. fetchPagedDataWithIncludes cfg get (team_memberships_url cfg (or_empty (sys_id team)))
                (js ''sys.user,sys.organizationMembership'') = Some f \<and>
             (\<forall>m\<in>set (allItems f). truthy (sys_user_sys_id m) \<longrightarrow>
                (\<exists>ts. map_of userToTeams' (or_empty (sys_user_sys_id m)) = Some ts \<and>
                      item_name team \<in> set ts))"
  using assms(1,2)
proof (induction tms arbitrary: userToTeams evs)
  case Nil
  then show ?case by simp
next
  case (Cons a rest)
  show ?case
  proof (cases "team = a")
    case True
    from Cons.prems(1) True
    have "teams_loop cfg get userToTeams (team # rest) = Some (Inr userToTeams', evs)" by simp
    from this assms(3) obtain f u1 e where
      0: "fetchPagedDataWithIncludes cfg get (team_memberships_url cfg (or_empty (sys_id team)))
            (js ''sys.user,sys.organizationMembership'') = Some f"
      and 1: "team_members_loop (item_name team) userToTeams (allItems f) = Inr u1"
      and 2: "teams_loop cfg get u1 rest = Some (Inr userToTeams', e)"
      by (rule teams_loop_Cons_truthy)
    have "\<exists>ts. map_of userToTeams' (or_empty (sys_user_sys_id m)) = Some ts \<and>
               item_name team \<in> set ts"
      if "m \<in> set (allItems f)" "truthy (sys_user_sys_id m)" for m
    proof -
      from team_members_loop_produces [OF 1 that]
      obtain t1 where t1: "map_of u1 (or_empty (sys_user_sys_id m)) = Some t1"
          "item_name team \<in> set t1"
        by blast
      from teams_loop_grows [OF 2 t1(1)] t1(2) show ?thesis by blast
    qed
    with 0 show ?thesis by blast
  next
    case False
    with Cons.prems(2) have in_rest: "team \<in> set rest" by simp
    show ?thesis
    proof (cases "truthy (sys_id a)")
      case False
      with Cons.prems(1) have "teams_loop cfg get userToTeams rest = Some (Inr userToTeams', evs)"
        by simp
      from Cons.IH [OF this in_rest] show ?thesis .
    next
      case True
      from Cons.prems(1) True obtain f u1 e where
        "fetchPagedDataWithIncludes cfg get (team_memberships_url cfg (or_empty (sys_id a)))
           (js ''sys.user,sys.organizationMembership'') = Some f"
        and "team_members_loop (item_name a) userToTeams (allItems f) = Inr u1"
        and 2: "teams_loop cfg get u1 rest = Some (Inr userToTeams', e)"
        by (rule teams_loop_Cons_truthy)
      from Cons.IH [OF 2 in_rest] show ?thesis .
    qed
  qed
qed

lemma collect_without_space:
  assumes "get (page_request cfg (space_memberships_url cfg) (js ''sys.user'') 0) = Inl message"
  shows "collect cfg get =
      then_run (await_fetch (fetchOrganizationMemberships cfg get)) (\<lambda>org.
      then_run (of_result (org_loop (allUsers org) [] (allItems org))) (\<lambda>userMap1.
      then_run (emit [Get (page_request cfg (space_memberships_url cfg) (js ''sys.user'') 0),
                      Error_fetching (space_memberships_url cfg) message]) (\<lambda>_.
      then_run (fetchTeamMemberships cfg get) (\<lambda>userToTeams.
      of_result (team_loop userMap1 (Object_entries userToTeams))))))"
  unfolding collect_def
  using space_fetch_fails [where get = get and cfg = cfg and message = message] assms
  by (simp add: await_fetch_def emit_def then_run_Some_Inr then_run_of_result_Inr)

lemma collect_without_space_parts:
  assumes "get (page_request cfg (space_memberships_url cfg) (js ''sys.user'') 0) = Inl message"
    and "collect cfg get = Some (Inr userMap, evs)"
  obtains org um1 tms userToTeams e where
    "fetchOrganizationMemberships cfg get = Some org"
    "org_loop (allUsers org) [] (allItems org) = Inr um1"
    "fetchPagedDataWithIncludes cfg get (teams_url cfg) [] = Some tms"
    "teams_loop cfg get [] (allItems tms) = Some (Inr userToTeams, e)"
    "team_loop um1 (Object_entries userToTeams) = Inr userMap"
proof -
  from assms(2) have run: "then_run (await_fetch (fetchOrganizationMemberships cfg get)) (\<lambda>org.
      then_run (of_result (org_loop (allUsers org) [] (allItems org))) (\<lambda>userMap1.
      then_run (emit [Get (page_request cfg (space_memberships_url cfg) (js ''sys.user'') 0),
                      Error_fetching (space_memberships_url cfg) message]) (\<lambda>_.
      then_run (fetchTeamMemberships cfg get) (\<lambda>userToTeams.
      of_result (team_loop userMap1 (Object_entries userToTeams)))))) = Some (Inr userMap, evs)"
    using collect_without_space [where get = get and cfg = cfg and message = message] assms(1)
    by simp
  from run obtain org e0 e1 where
    0: "await_fetch (fetchOrganizationMemberships cfg get) = Some (Inr org, e0)"
    and 1: "then_run (of_result (org_loop (allUsers org) [] (allItems org))) (\<lambda>userMap1.
      then_run (emit [Get (page_request cfg (space_memberships_url cfg) (js ''sys.user'') 0),
                      Error_fetching (space_memberships_url cfg) message]) (\<lambda>_.
      then_run (fetchTeamMemberships cfg get) (\<lambda>userToTeams.
      of_result (team_loop userMap1 (Object_entries userToTeams))))) = Some (Inr userMap, e1)"
    and "evs = e0 @ e1"
    by (rule then_run_returns)
  from 1 obtain um1 e2 e3 where
    2: "of_result (org_loop (allUsers org) [] (allItems org)) = Some (Inr um1, e2)"
    and 3: "then_run (emit [Get (page_request cfg (space_memberships_url cfg) (js ''sys.user'') 0),
                      Error_fetching (space_memberships_url cfg) message]) (\<lambda>_.
      then_run (fetchTeamMemberships cfg get) (\<lambda>userToTeams.
      of_result (team_loop um1 (Object_entries userToTeams)))) = Some (Inr userMap, e3)"
    and "e1 = e2 @ e3"
    by (rule then_run_returns)
  from 3 obtain x e4 e5 where
    "emit [Get (page_request cfg (space_memberships_url cfg) (js ''sys.user'') 0),
           Error_fetching (space_memberships_url cfg) message] = Some (Inr x, e4)"
    and 4: "then_run (fetchTeamMemberships cfg get) (\<lambda>userToTeams.
      of_result (team_loop um1 (Object_entries userToTeams))) = Some (Inr userMap, e5)"
    and "e3 = e4 @ e5"
    by (rule then_run_returns)
  from 4 obtain userToTeams e6 e7 where
    5: "fetchTeamMemberships cfg get = Some (Inr userToTeams, e6)"
    and 6: "of_result (team_loop um1 (Object_entries userToTeams)) = Some (Inr userMap, e7)"
    and "e5 = e6 @ e7"
    by (rule then_run_returns)
  from 5 have "then_run (await_fetch (fetchPagedDataWithIncludes cfg get (teams_url cfg) []))
       (\<lambda>f. teams_loop cfg get [] (allItems f)) = Some (Inr userToTeams, e6)"
    by (simp only: fetchTeamMemberships_def)
  then obtain tms e8 e9 where
    7: "await_fetch (fetchPagedDataWithIncludes cfg get (teams_url cfg) []) = Some (Inr tms, e8)"
    and 8: "teams_loop cfg get [] (allItems tms) = Some (Inr userToTeams, e9)"
    and "e6 = e8 @ e9"
    by (rule then_run_returns)
  from 0 have a: "fetchOrganizationMemberships cfg get = Some org"
    by (auto simp: await_fetch_def split: option.splits)
  from 2 have b: "org_loop (allUsers org) [] (allItems org) = Inr um1"
    by (simp add: of_result_def)
  from 7 have c: "fetchPagedDataWithIncludes cfg get (teams_url cfg) [] = Some tms"
    by (auto simp: await_fetch_def split: option.splits)
  from 6 have d: "team_loop um1 (Object_entries userToTeams) = Inr userMap"
    by (simp add: of_result_def)
  from a b c 8 d show thesis by (rule that)
qed

lemma user_ids_member:
  "m \<in> set its \<Longrightarrow> truthy (sys_user_sys_id m) \<Longrightarrow> or_empty (sys_user_sys_id m) \<in> set (user_ids its)"
  by (auto simp: user_ids_def)

lemma without_space_produced:
  assumes "get (page_request cfg (space_memberships_url cfg) (js ''sys.user'') 0) = Inl message"
    and "collect cfg get = Some (Inr userMap, evs)"
  shows "(\<forall>p\<in>set userMap. spaceRoles (snd p) = []) \<and>
     (\<exists>org. fetchOrganizationMemberships cfg get = Some org \<and>
        (\<forall>m\<in>set (allItems org). truthy (sys_user_sys_id m) \<longrightarrow>
           (\<exists>u. map_of userMap (or_empty (sys_user_sys_id m)) = Some u \<and>
                 email u = email_of (allUsers org (or_empty (sys_user_sys_id m))) \<and>
                 name u = display_name (allUsers org (or_empty (sys_user_sys_id m))) \<and>
                 set (getRoleNames m) \<subseteq> set (orgRoles u)))) \<and>
     (\<exists>tms. fetchPagedDataWithIncludes cfg get (teams_url cfg) [] = Some tms \<and>
        (\<forall>team\<in>set (allItems tms). truthy (sys_id team) \<longrightarrow>
           (\<exists>f. fetchPagedDataWithIncludes cfg get
                   (team_memberships_url cfg (or_empty (sys_id team)))
                   (js ''sys.user,sys.organizationMembership'') = Some f \<and>
                (\<forall>m\<in>set (allItems f). truthy (sys_user_sys_id m) \<longrightarrow>
                   (\<exists>u. map_of userMap (or_empty (sys_user_sys_id m)) = Some u \<and>
                         item_name team \<in> set (teams u))))))"
proof -
  from assms obtain org um1 tms userToTeams e where
    a: "fetchOrganizationMemberships cfg get = Some org"
    and b: "org_loop (allUsers org) [] (allItems org) = Inr um1"
    and c: "fetchPagedDataWithIncludes cfg get (teams_url cfg) [] = Some tms"
    and d: "teams_loop cfg get [] (allItems tms) = Some (Inr userToTeams, e)"
    and t: "team_loop um1 (Object_entries userToTeams) = Inr userMap"
    by (rule collect_without_space_parts)
  from org_loop_spaceRoles [OF b] have "\<forall>p\<in>set um1. spaceRoles (snd p) = []" by simp
  with t have 1: "\<forall>p\<in>set userMap. spaceRoles (snd p) = []" by (rule team_loop_spaceRoles)
  have 2: "\<exists>u. map_of userMap (or_empty (sys_user_sys_id m)) = Some u \<and>
                 email u = email_of (allUsers org (or_empty (sys_user_sys_id m))) \<and>
                 name u = display_name (allUsers org (or_empty (sys_user_sys_id m))) \<and>
                 set (getRoleNames m) \<subseteq> set (orgRoles u)"
    if m: "m \<in> set (allItems org)" "truthy (sys_user_sys_id m)" for m
  proof -
    let ?k = "or_empty (sys_user_sys_id m)"
    from org_loop_produces [OF b m]
    obtain v where v: "map_of um1 ?k = Some v" "set (getRoleNames m) \<subseteq> set (orgRoles v)"
      by blast
    from org_loop_first_encounter [OF b user_ids_member [OF m]] v(1)
    have ve: "email v = email_of (allUsers org ?k)" "name v = display_name (allUsers org ?k)"
      by simp_all
    from merge_steps_grow [OF team_loop_steps [OF t] v(1)]
    obtain u where u: "map_of userMap ?k = Some u" "set (orgRoles v) \<subseteq> set (orgRoles u)"
      by blast
    from merge_steps_identity [OF team_loop_steps [OF t] v(1)] u(1)
    have "email u = email v" "name u = name v" by simp_all
    with u v(2) ve show ?thesis by auto
  qed
  have 3: "\<exists>f. fetchPagedDataWithIncludes cfg get
                   (team_memberships_url cfg (or_empty (sys_id team)))
                   (js ''sys.user,sys.organizationMembership'') = Some f \<and>
                (\<forall>m\<in>set (allItems f). truthy (sys_user_sys_id m) \<longrightarrow>
                   (\<exists>u. map_of userMap (or_empty (sys_user_sys_id m)) = Some u \<and>
                         item_name team \<in> set (teams u)))"
    if tm: "team \<in> set (allItems tms)" "truthy (sys_id team)" for team
  proof -
    from teams_loop_produces [OF d tm]
    obtain f where f: "fetchPagedDataWithIncludes cfg get
                   (team_memberships_url cfg (or_empty (sys_id team)))
                   (js ''sys.user,sys.organizationMembership'') = Some f"
      and fm: "\<forall>m\<in>set (allItems f). truthy (sys_user_sys_id m) \<longrightarrow>
                (\<exists>ts. map_of userToTeams (or_empty (sys_user_sys_id m)) = Some ts \<and>
                      item_name team \<in> set ts)"
      by blast
    have "\<exists>u. map_of userMap (or_empty (sys_user_sys_id m)) = Some u \<and>
               item_name team \<in> set (teams u)"
      if "m \<in> set (allItems f)" "truthy (sys_user_sys_id m)" for m
    proof -
      from fm that obtain ts where ts: "map_of userToTeams (or_empty (sys_user_sys_id m)) = Some ts"
          "item_name team \<in> set ts"
        by blast
      from ts(1) have "(or_empty (sys_user_sys_id m), ts) \<in> set (Object_entries userToTeams)"
        by (simp add: set_Object_entries map_of_SomeD)
      from team_loop_produces [OF t this] ts(2) show ?thesis by blast
    qed
    with f show ?thesis by blast
  qed
  from 1 2 3 a c show ?thesis by blast
qed

section \<open>A failed request\<close>

text \<open>
  Claim C3.  When the requests of a call succeed up to some page and the next request
  fails, the paginated fetch sends no further request for that call: it logs one
  warning with the URL and the message of the failure and returns -- as an ordinary
  result, the function has no other -- the items of the pages received before, in
  order, and the user side-table of these pages: each user entry of their
  \<open>includes\<close> blocks under its identifier, a later entry replacing an earlier one.
  So when the first request for the space memberships fails, the run goes on exactly
  as a run of the organization pass and the team pass alone, with that one request and
  its warning in between.  If it ends without throwing, every space-role list of the
  final map is empty; every organization membership with a user identifier has its
  record, with the email and the name of the organization side-table and with its role
  names; and every member of every team that has an identifier has a record that lists
  the name of the team.
\<close>

theorem failed_request_gives_partial_result:
  "((\<forall>j<k. get (page_request cfg u inc (100 * j)) = Inr (pg j) \<and>
            \<not> total_of (pg j) \<le> int (100 * j + 100)) \<and>
    get (page_request cfg u inc (100 * k)) = Inl message \<longrightarrow>
    fetchPagedDataWithIncludes cfg get u inc =
      Some \<lparr>allItems = concat (map (\<lambda>j. case items (pg j) of None \<Rightarrow> [] | Some its \<Rightarrow> its) [0..<k]),
            allUsers = side_table (concat (map (\<lambda>j. included_users (pg j)) [0..<k])),
            events = map (\<lambda>j. Get (page_request cfg u inc (100 * j))) [0..<k] @
                     [Get (page_request cfg u inc (100 * k)), Error_fetching u message]\<rparr>) \<and>
   (get (page_request cfg (space_memberships_url cfg) (js ''sys.user'') 0) = Inl message \<longrightarrow>
    collect cfg get =
      then_run (await_fetch (fetchOrganizationMemberships cfg get)) (\<lambda>org.
      then_run (of_result (org_loop (allUsers org) [] (allItems org))) (\<lambda>userMap1.
      then_run (emit [Get (page_request cfg (space_memberships_url cfg) (js ''sys.user'') 0),
                      Error_fetching (space_memberships_url cfg) message]) (\<lambda>_.
      then_run (fetchTeamMemberships cfg get) (\<lambda>userToTeams.
      of_result (team_loop userMap1 (Object_entries userToTeams)))))) \<and>
    (\<forall>userMap evs. collect cfg get = Some (Inr userMap, evs) \<longrightarrow>
       (\<forall>p\<in>set userMap. spaceRoles (snd p) = []) \<and>
       (\<exists>org. fetchOrganizationMemberships cfg get = Some org \<and>
          (\<forall>m\<in>set (allItems org). truthy (sys_user_sys_id m) \<longrightarrow>
             (\<exists>u. map_of userMap (or_empty (sys_user_sys_id m)) = Some u \<and>
                   email u = email_of (allUsers org (or_empty (sys_user_sys_id m))) \<and>
                   name u = display_name (allUsers org (or_empty (sys_user_sys_id m))) \<and>
                   set (getRoleNames m) \<subseteq> set (orgRoles u)))) \<and>
       (\<exists>tms. fetchPagedDataWithIncludes cfg get (teams_url cfg) [] = Some tms \<and>
          (\<forall>team\<in>set (allItems tms). truthy (sys_id team) \<longrightarrow>
             (\<exists>f. fetchPagedDataWithIncludes cfg get
                     (team_memberships_url cfg (or_empty (sys_id team)))
                     (js ''sys.user,sys.organizationMembership'') = Some f \<and>
                  (\<forall>m\<in>set (allItems f). truthy (sys_user_sys_id m) \<longrightarrow>
                     (\<exists>u. map_of userMap (or_empty (sys_user_sys_id m)) = Some u \<and>
                           item_name team \<in> set (teams u))))))))"
proof (intro conjI impI allI)
  assume "(\<forall>j<k. get (page_request cfg u inc (100 * j)) = Inr (pg j) \<and>
            \<not> total_of (pg j) \<le> int (100 * j + 100)) \<and>
    get (page_request cfg u inc (100 * k)) = Inl message"
  then have "fetchPagedDataWithIncludes cfg get u inc =
     Some \<lparr>allItems = concat (map (\<lambda>j. items_of (pg j)) [0..<k]),
           allUsers = foldl (\<lambda>users j. add_users users (pg j)) Map.empty [0..<k],
           events = map (\<lambda>j. Get (page_request cfg u inc (100 * j))) [0..<k] @
                    [Get (page_request cfg u inc (100 * k)), Error_fetching u message]\<rparr>"
    by (intro fetch_fails_after) simp_all
  then show "fetchPagedDataWithIncludes cfg get u inc =
      Some \<lparr>allItems = concat (map (\<lambda>j. case items (pg j) of None \<Rightarrow> [] | Some its \<Rightarrow> its) [0..<k]),
            allUsers = side_table (concat (map (\<lambda>j. included_users (pg j)) [0..<k])),
            events = map (\<lambda>j. Get (page_request cfg u inc (100 * j))) [0..<k] @
                     [Get (page_request cfg u inc (100 * k)), Error_fetching u message]\<rparr>"
    by (simp only: pages_side_table items_of_def)
next
  assume fails: "get (page_request cfg (space_memberships_url cfg) (js ''sys.user'') 0) = Inl message"
  from fails show "collect cfg get =
      then_run (await_fetch (fetchOrganizationMemberships cfg get)) (\<lambda>org.
      then_run (of_result (org_loop (allUsers org) [] (allItems org))) (\<lambda>userMap1.
      then_run (emit [Get (page_request cfg (space_memberships_url cfg) (js ''sys.user'') 0),
                      Error_fetching (space_memberships_url cfg) message]) (\<lambda>_.
      then_run (fetchTeamMemberships cfg get) (\<lambda>userToTeams.
      of_result (team_loop userMap1 (Object_entries userToTeams))))))"
    by (rule collect_without_space)
  fix userMap evs
  assume run: "collect cfg get = Some (Inr userMap, evs)"
  note produced = without_space_produced [OF fails run]
  from produced show "\<forall>p\<in>set userMap. spaceRoles (snd p) = []" by (rule conjunct1)
  from produced show "\<exists>org. fetchOrganizationMemberships cfg get = Some org \<and>
          (\<forall>m\<in>set (allItems org). truthy (sys_user_sys_id m) \<longrightarrow>
             (\<exists>u. map_of userMap (or_empty (sys_user_sys_id m)) = Some u \<and>
                   email u = email_of (allUsers org (or_empty (sys_user_sys_id m))) \<and>
                   name u = display_name (allUsers org (or_empty (sys_user_sys_id m))) \<and>
                   set (getRoleNames m) \<subseteq> set (orgRoles u)))"
    by (rule conjunct2 [THEN conjunct1])
  from produced show "\<exists>tms. fetchPagedDataWithIncludes cfg get (teams_url cfg) [] = Some tms \<and>
          (\<forall>team\<in>set (allItems tms). truthy (sys_id team) \<longrightarrow>
             (\<exists>f. fetchPagedDataWithIncludes cfg get
                     (team_memberships_url cfg (or_empty (sys_id team)))
                     (js ''sys.user,sys.organizationMembership'') = Some f \<and>
                  (\<forall>m\<in>set (allItems f). truthy (sys_user_sys_id m) \<longrightarrow>
                     (\<exists>u. map_of userMap (or_empty (sys_user_sys_id m)) = Some u \<and>
                           item_name team \<in> set (teams u)))))"
    by (rule conjunct2 [THEN conjunct2])
qed

theorem failed_request_gives_partial_result_witness:
  "fetchPagedDataWithIncludes \<lparr>MANAGEMENT_API_KEY = js ''key'', ORGANIZATION_ID = js ''org''\<rparr>
     (\<lambda>r. if skip r = 0
          then Inr \<lparr>items = Some [\<lparr>sys_id = None, sys_user_sys_id = Some (js ''U1''),
                                   item_name = None, admin = True, roles = None, role = None\<rparr>],
                    total = Some 150,
                    includes_User =
                      Some [\<lparr>user_sys_id = Some (js ''U1''), user_email = Some (js ''a@b''),
                             firstName = Some (js ''Ann''), lastName = Some (js ''Lee'')\<rparr>,
                            \<lparr>user_sys_id = None, user_email = Some (js ''n@n''),
                             firstName = None, lastName = None\<rparr>,
                            \<lparr>user_sys_id = Some (js ''U2''), user_email = Some (js ''e@f''),
                             firstName = Some (js ''Bob''), lastName = None\<rparr>,
                            \<lparr>user_sys_id = Some (js ''U1''), user_email = Some (js ''c@d''),
                             firstName = Some (js ''Ann''), lastName = Some (js ''Lee'')\<rparr>]\<rparr>
          else Inl (js ''503''))
     (organization_memberships_url \<lparr>MANAGEMENT_API_KEY = js ''key'', ORGANIZATION_ID = js ''org''\<rparr>)
     (js ''sys.user'')
   = Some \<lparr>allItems = [\<lparr>sys_id = None, sys_user_sys_id = Some (js ''U1''),
                          item_name = None, admin = True, roles = None, role = None\<rparr>],
           allUsers =
             [js ''U2'' \<mapsto> \<lparr>user_sys_id = Some (js ''U2''), user_email = Some (js ''e@f''),
                              firstName = Some (js ''Bob''), lastName = None\<rparr>,
              js ''U1'' \<mapsto> \<lparr>user_sys_id = Some (js ''U1''), user_email = Some (js ''c@d''),
                              firstName = Some (js ''Ann''), lastName = Some (js ''Lee'')\<rparr>],
           events =
             [Get (page_request \<lparr>MANAGEMENT_API_KEY = js ''key'', ORGANIZATION_ID = js ''org''\<rparr>
                     (organization_memberships_url
                        \<lparr>MANAGEMENT_API_KEY = js ''key'', ORGANIZATION_ID = js ''org''\<rparr>)
                     (js ''sys.user'') 0),
              Get (page_request \<lparr>MANAGEMENT_API_KEY = js ''key'', ORGANIZATION_ID = js ''org''\<rparr>
                     (organization_memberships_url
                        \<lparr>MANAGEMENT_API_KEY = js ''key'', ORGANIZATION_ID = js ''org''\<rparr>)
                     (js ''sys.user'') 100),
              Error_fetching
                (organization_memberships_url
                   \<lparr>MANAGEMENT_API_KEY = js ''key'', ORGANIZATION_ID = js ''org''\<rparr>)
                (js ''503'')]\<rparr> \<and>
   collect \<lparr>MANAGEMENT_API_KEY = js ''key'', ORGANIZATION_ID = js ''org''\<rparr>
     (\<lambda>r. if url r = organization_memberships_url
                        \<lparr>MANAGEMENT_API_KEY = js ''key'', ORGANIZATION_ID = js ''org''\<rparr>
          then Inr \<lparr>items = Some [\<lparr>sys_id = None, sys_user_sys_id = Some (js ''U1''),
                                   item_name = None, admin = True, roles = None, role = None\<rparr>],
                    total = Some 1,
                    includes_User =
                      Some [\<lparr>user_sys_id = Some (js ''U1''), user_email = Some (js ''a@b''),
                             firstName = Some (js ''Ann''), lastName = Some (js ''Lee'')\<rparr>]\<rparr>
          else if url r = teams_url \<lparr>MANAGEMENT_API_KEY = js ''key'', ORGANIZATION_ID = js ''org''\<rparr>
          then Inr \<lparr>items = Some [\<lparr>sys_id = Some (js ''T1''), sys_user_sys_id = None,
                                   item_name = Some (js ''Design''), admin = False,
                                   roles = None, role = None\<rparr>],
                    total = Some 1, includes_User = None\<rparr>
          else if url r = team_memberships_url
                            \<lparr>MANAGEMENT_API_KEY = js ''key'', ORGANIZATION_ID = js ''org''\<rparr>
                            (js ''T1'')
          then Inr \<lparr>items = Some [\<lparr>sys_id = None, sys_user_sys_id = Some (js ''U1''),
                                   item_name = None, admin = False, roles = None, role = None\<rparr>,
                                  \<lparr>sys_id = None, sys_user_sys_id = Some (js ''U2''),
                                   item_name = None, admin = False, roles = None, role = None\<rparr>],
                    total = Some 2, includes_User = None\<rparr>
          else Inl (js ''503''))
   = Some (Inr [(js ''U1'', \<lparr>userId = js ''U1'', email = js ''a@b'', name = js ''Ann Lee'',
                             orgRoles = [js ''Admin''], spaceRoles = [],
                             teams = [Some (js ''Design'')]\<rparr>),
                (js ''U2'', \<lparr>userId = js ''U2'', email = [], name = [],
                             orgRoles = [], spaceRoles = [], teams = [Some (js ''Design'')]\<rparr>)],
           [Get (page_request \<lparr>MANAGEMENT_API_KEY = js ''key'', ORGANIZATION_ID = js ''org''\<rparr>
                   (organization_memberships_url
                      \<lparr>MANAGEMENT_API_KEY = js ''key'', ORGANIZATION_ID = js ''org''\<rparr>)
                   (js ''sys.user'') 0),
            Get (page_request \<lparr>MANAGEMENT_API_KEY = js ''key'', ORGANIZATION_ID = js ''org''\<rparr>
                   (space_memberships_url
                      \<lparr>MANAGEMENT_API_KEY = js ''key'', ORGANIZATION_ID = js ''org''\<rparr>)
                   (js ''sys.user'') 0),
            Error_fetching
              (space_memberships_url \<lparr>MANAGEMENT_API_KEY = js ''key'', ORGANIZATION_ID = js ''org''\<rparr>)
              (js ''503''),
            Get (page_request \<lparr>MANAGEMENT_API_KEY = js ''key'', ORGANIZATION_ID = js ''org''\<rparr>
                   (teams_url \<lparr>MANAGEMENT_API_KEY = js ''key'', ORGANIZATION_ID = js ''org''\<rparr>) [] 0),
            Get (page_request \<lparr>MANAGEMENT_API_KEY = js ''key'', ORGANIZATION_ID = js ''org''\<rparr>
                   (team_memberships_url
                      \<lparr>MANAGEMENT_API_KEY = js ''key'', ORGANIZATION_ID = js ''org''\<rparr> (js ''T1''))
                   (js ''sys.user,sys.organizationMembership'') 0)])"
proof -
  let ?C = "\<lparr>MANAGEMENT_API_KEY = js ''key'', ORGANIZATION_ID = js ''org''\<rparr>"
  let ?mo = "\<lparr>sys_id = None, sys_user_sys_id = Some (js ''U1''),
              item_name = None, admin = True, roles = None, role = None\<rparr>"
  let ?ma = "\<lparr>sys_id = None, sys_user_sys_id = Some (js ''U1''),
              item_name = None, admin = False, roles = None, role = None\<rparr>"
  let ?mb = "\<lparr>sys_id = None, sys_user_sys_id = Some (js ''U2''),
              item_name = None, admin = False, roles = None, role = None\<rparr>"
  let ?tm = "\<lparr>sys_id = Some (js ''T1''), sys_user_sys_id = None,
              item_name = Some (js ''Design''), admin = False, roles = None, role = None\<rparr>"
  let ?ua = "\<lparr>user_sys_id = Some (js ''U1''), user_email = Some (js ''a@b''),
              firstName = Some (js ''Ann''), lastName = Some (js ''Lee'')\<rparr>"
  let ?un = "\<lparr>user_sys_id = None, user_email = Some (js ''n@n''),
              firstName = None, lastName = None\<rparr>"
  let ?ub = "\<lparr>user_sys_id = Some (js ''U2''), user_email = Some (js ''e@f''),
              firstName = Some (js ''Bob''), lastName = None\<rparr>"
  let ?uc = "\<lparr>user_sys_id = Some (js ''U1''), user_email = Some (js ''c@d''),
              firstName = Some (js ''Ann''), lastName = Some (js ''Lee'')\<rparr>"
  let ?pa = "\<lparr>items = Some [?mo], total = Some 150,
              includes_User = Some [?ua, ?un, ?ub, ?uc]\<rparr>"
  let ?G = "\<lambda>r::request. if skip r = 0 then Inr ?pa else Inl (js ''503'') :: response"
  let ?po = "\<lparr>items = Some [?mo], total = Some 1, includes_User = Some [?ua]\<rparr>"
  let ?pt = "\<lparr>items = Some [?tm], total = Some 1, includes_User = None\<rparr>"
  let ?pm = "\<lparr>items = Some [?ma, ?mb], total = Some 2, includes_User = None\<rparr>"
  let ?H = "\<lambda>r::request. if url r = organization_memberships_url ?C then Inr ?po
          else if url r = teams_url ?C then Inr ?pt
          else if url r = team_memberships_url ?C (js ''T1'') then Inr ?pm
          else Inl (js ''503'') :: response"
  let ?ou = "organization_memberships_url ?C"
  have one: "[0..<1] = [0]" by simp
  have a: "(\<forall>j<1. ?G (page_request ?C ?ou (js ''sys.user'') (100 * j)) = Inr ((\<lambda>j::nat. ?pa) j) \<and>
             \<not> total_of ((\<lambda>j::nat. ?pa) j) \<le> int (100 * j + 100)) \<and>
           ?G (page_request ?C ?ou (js ''sys.user'') (100 * 1)) = Inl (js ''503'')"
    by (simp add: page_request_def total_of_def)
  have table: "side_table [?ua, ?un, ?ub, ?uc] = [js ''U2'' \<mapsto> ?ub, js ''U1'' \<mapsto> ?uc]"
    by (rule ext) (simp add: side_table_def js_def)
  have part1: "fetchPagedDataWithIncludes ?C ?G ?ou (js ''sys.user'') =
     Some \<lparr>allItems = [?mo], allUsers = [js ''U2'' \<mapsto> ?ub, js ''U1'' \<mapsto> ?uc],
           events = [Get (page_request ?C ?ou (js ''sys.user'') 0),
                     Get (page_request ?C ?ou (js ''sys.user'') 100),
                     Error_fetching ?ou (js ''503'')]\<rparr>"
    using failed_request_gives_partial_result
            [where k = 1 and get = ?G and cfg = ?C and u = ?ou and inc = "js ''sys.user''"
               and pg = "\<lambda>j::nat. ?pa" and message = "js ''503''", THEN conjunct1, THEN mp, OF a]
    unfolding one by (simp add: items_of_def included_users_def table)
  have urls: "space_memberships_url ?C \<noteq> organization_memberships_url ?C"
      "space_memberships_url ?C \<noteq> teams_url ?C"
      "space_memberships_url ?C \<noteq> team_memberships_url ?C (js ''T1'')"
      "teams_url ?C \<noteq> organization_memberships_url ?C"
      "team_memberships_url ?C (js ''T1'') \<noteq> organization_memberships_url ?C"
      "team_memberships_url ?C (js ''T1'') \<noteq> teams_url ?C"
    by (simp_all add: space_memberships_url_def organization_memberships_url_def teams_url_def
        team_memberships_url_def js_def)
  have b: "?H (page_request ?C (space_memberships_url ?C) (js ''sys.user'') 0) = Inl (js ''503'')"
    using urls by (simp add: page_request_def)
  have ne: "js ''U1'' \<noteq> []" "js ''T1'' \<noteq> []" by (simp_all add: js_def)
  have org: "fetchOrganizationMemberships ?C ?H =
      Some \<lparr>allItems = [?mo], allUsers = [js ''U1'' \<mapsto> ?ua],
            events = [Get (page_request ?C ?ou (js ''sys.user'') 0)]\<rparr>"
    unfolding fetchOrganizationMemberships_def fetchPagedDataWithIncludes_def
    by (subst fetch_loop_last [where data = ?po])
       (simp_all add: page_request_def total_of_def take_page_def items_of_def add_users_def
          set_user_def ne)
  have tms: "fetchPagedDataWithIncludes ?C ?H (teams_url ?C) [] =
      Some \<lparr>allItems = [?tm], allUsers = Map.empty,
            events = [Get (page_request ?C (teams_url ?C) [] 0)]\<rparr>"
    unfolding fetchPagedDataWithIncludes_def
    by (subst fetch_loop_last [where data = ?pt])
       (simp_all add: page_request_def total_of_def take_page_def items_of_def add_users_def urls)
  have mem: "fetchPagedDataWithIncludes ?C ?H (team_memberships_url ?C (js ''T1''))
               (js ''sys.user,sys.organizationMembership'') =
      Some \<lparr>allItems = [?ma, ?mb], allUsers = Map.empty,
            events = [Get (page_request ?C (team_memberships_url ?C (js ''T1''))
                             (js ''sys.user,sys.organizationMembership'') 0)]\<rparr>"
    unfolding fetchPagedDataWithIncludes_def
    by (subst fetch_loop_last [where data = ?pm])
       (simp_all add: page_request_def total_of_def take_page_def items_of_def add_users_def urls)
  have oloop: "org_loop [js ''U1'' \<mapsto> ?ua] [] [?mo] =
      Inr [(js ''U1'', \<lparr>userId = js ''U1'', email = js ''a@b'', name = js ''Ann Lee'',
                         orgRoles = [js ''Admin''], spaceRoles = [], teams = []\<rparr>)]"
    by (simp add: merge_org_item_def get_prop_def set_prop_def getRoleNames_def
        Set_spread_def js_def Let_def Object_prototype_names_def email_of_def
        display_name_def trim_def is_white_space_def)
  have mloop: "team_members_loop (Some (js ''Design'')) [] [?ma, ?mb] =
      Inr [(js ''U1'', [Some (js ''Design'')]), (js ''U2'', [Some (js ''Design'')])]"
    by (simp add: push_team_def get_prop_def set_prop_def js_def Let_def
        Object_prototype_names_def)
  have entries: "Object_entries [(js ''U1'', [Some (js ''Design'')]), (js ''U2'', [Some (js ''Design'')])] =
      [(js ''U1'', [Some (js ''Design'')]), (js ''U2'', [Some (js ''Design'')])]"
    by (simp add: Object_entries_def array_index_def is_digit_def js_def)
  have tloop: "team_loop
      [(js ''U1'', \<lparr>userId = js ''U1'', email = js ''a@b'', name = js ''Ann Lee'',
                    orgRoles = [js ''Admin''], spaceRoles = [], teams = []\<rparr>)]
      [(js ''U1'', [Some (js ''Design'')]), (js ''U2'', [Some (js ''Design'')])] =
      Inr [(js ''U1'', \<lparr>userId = js ''U1'', email = js ''a@b'', name = js ''Ann Lee'',
                         orgRoles = [js ''Admin''], spaceRoles = [],
                         teams = [Some (js ''Design'')]\<rparr>),
           (js ''U2'', \<lparr>userId = js ''U2'', email = [], name = [],
                         orgRoles = [], spaceRoles = [], teams = [Some (js ''Design'')]\<rparr>)]"
    by (simp add: merge_team_entry_def get_prop_def set_prop_def Set_spread_def js_def Let_def
        Object_prototype_names_def)
  have team: "fetchTeamMemberships ?C ?H =
      Some (Inr [(js ''U1'', [Some (js ''Design'')]), (js ''U2'', [Some (js ''Design'')])],
            [Get (page_request ?C (teams_url ?C) [] 0),
             Get (page_request ?C (team_memberships_url ?C (js ''T1''))
                    (js ''sys.user,sys.organizationMembership'') 0)])"
    by (simp add: fetchTeamMemberships_def tms mem mloop await_fetch_def then_run_def
        of_result_def ne del: team_members_loop.simps)
  have part2: "collect ?C ?H =
     Some (Inr [(js ''U1'', \<lparr>userId = js ''U1'', email = js ''a@b'', name = js ''Ann Lee'',
                             orgRoles = [js ''Admin''], spaceRoles = [],
                             teams = [Some (js ''Design'')]\<rparr>),
                (js ''U2'', \<lparr>userId = js ''U2'', email = [], name = [],
                             orgRoles = [], spaceRoles = [], teams = [Some (js ''Design'')]\<rparr>)],
           [Get (page_request ?C ?ou (js ''sys.user'') 0),
            Get (page_request ?C (space_memberships_url ?C) (js ''sys.user'') 0),
            Error_fetching (space_memberships_url ?C) (js ''503''),
            Get (page_request ?C (teams_url ?C) [] 0),
            Get (page_request ?C (team_memberships_url ?C (js ''T1''))
                   (js ''sys.user,sys.organizationMembership'') 0)])"
    unfolding failed_request_gives_partial_result
            [where get = ?H and cfg = ?C and message = "js ''503''",
             THEN conjunct2, THEN mp, OF b, THEN conjunct1]
    by (simp add: org team oloop entries tloop await_fetch_def emit_def then_run_def of_result_def
        del: org_loop.simps team_loop.simps)
  from part1 part2 show ?thesis by (rule conjI)
qed

end
